(* ===== verification/Ssh3_Prelude.thy ===== *)
theory Ssh3_Prelude
  imports "HOL-Library.Word" "HOL-Library.Monad_Syntax"
begin

text \<open>
  Shared vocabulary of the development: the machine integers of the Rust sources, I/O errors,
  \<^verbatim>\<open>Result\<close> values, the state-passing result monad in which every reader is written, the
  interface of a byte source (Rust's \<^verbatim>\<open>Read::read_exact\<close>) as a locale, and the lemmas on
  lists, bytes and words that the components use.

  Conventions. A Rust \<^verbatim>\<open>Result\<close> is a sum: \<open>Inr\<close> (abbreviated \<open>Ok\<close>) is the value and \<open>Inl\<close>
  (abbreviated \<open>Err\<close>) the error. A panic is the value \<open>None\<close> of an option. A function that
  mutates its argument takes the old state and returns the new one.
\<close>

unbundle bit_operations_syntax

section \<open>Machine integers and results\<close>

type_synonym u8 = "8 word"
type_synonym u16 = "16 word"
type_synonym u32 = "32 word"
type_synonym u64 = "64 word"
type_synonym bytes = "8 word list"

abbreviation Ok :: "'a \<Rightarrow> 'e + 'a" where
  "Ok \<equiv> Inr"

abbreviation Err :: "'e \<Rightarrow> 'e + 'a" where
  "Err \<equiv> Inl"

named_theorems bytes_simps \<open>arithmetic of single bytes and of words split into bytes\<close>
named_theorems yield_intros \<open>composition rules for what a successful parse guarantees\<close>
named_theorems consume_intros \<open>composition rules for parsers that only move forward\<close>
named_theorems result_simps \<open>commuting the error map with the reader monad\<close>

section \<open>I/O errors\<close>

text \<open>
  The kinds of \<^verbatim>\<open>std::io::ErrorKind\<close> that the sources construct or match on; every other kind
  is \<open>OtherKind\<close>. \<^verbatim>\<open>quinn::ConnectionError\<close> is kept with the constructors that crate documents,
  without the payloads the sources ignore. An I/O error carries its kind, its message and the
  connection error it wraps, which is what \<^verbatim>\<open>io::Error::get_ref\<close> and \<^verbatim>\<open>to_string\<close> expose.
\<close>

datatype error_kind =
    UnexpectedEof | InvalidData | InvalidInput | NotFound | PermissionDenied | Unsupported
  | BrokenPipe | ConnectionAborted | ConnectionReset | NotConnected | AddrNotAvailable
  | OtherKind

datatype connection_error =
    VersionMismatch | TransportError u64 | ConnectionClosed | ApplicationClosed
  | ResetByPeer | TimedOut | LocallyClosed | CidsExhausted

record io_error =
  io_kind :: error_kind
  io_message :: string
  io_source :: "connection_error option"

definition io_error_new :: "error_kind \<Rightarrow> string \<Rightarrow> io_error" where
  "io_error_new k m = \<lparr>io_kind = k, io_message = m, io_source = None\<rparr>"

lemma map_sum_Ok_iff: "map_sum f g r = Ok b \<longleftrightarrow> (\<exists>a. r = Ok a \<and> b = g a)"
  by (cases r) auto

section \<open>The reader monad: state passing with an error result\<close>

type_synonym ('s, 'e, 'a) reader = "'s \<Rightarrow> ('e + 'a) \<times> 's"

definition rret :: "'a \<Rightarrow> ('s, 'e, 'a) reader" where
  "rret a s = (Ok a, s)"

definition rfail :: "'e \<Rightarrow> ('s, 'e, 'a) reader" where
  "rfail e s = (Err e, s)"

definition rbind :: "('s, 'e, 'a) reader \<Rightarrow> ('a \<Rightarrow> ('s, 'e, 'b) reader) \<Rightarrow> ('s, 'e, 'b) reader" where
  "rbind p f s = (case p s of (Inl e, s') \<Rightarrow> (Err e, s') | (Inr a, s') \<Rightarrow> f a s')"

text \<open>The \<^verbatim>\<open>?\<close> operator applied to a \<^verbatim>\<open>Result\<close> that is already computed.\<close>

definition rlift :: "'e + 'a \<Rightarrow> ('s, 'e, 'a) reader" where
  "rlift r s = (r, s)"

text \<open>\<^verbatim>\<open>map_err\<close>, and the \<^verbatim>\<open>From\<close> conversion that \<^verbatim>\<open>?\<close> inserts.\<close>

definition rmap_err :: "('e \<Rightarrow> 'f) \<Rightarrow> ('s, 'e, 'a) reader \<Rightarrow> ('s, 'f, 'a) reader" where
  "rmap_err g p s = (case p s of (Inl e, s') \<Rightarrow> (Err (g e), s') | (Inr a, s') \<Rightarrow> (Ok a, s'))"

lemma rmap_err_rbind [result_simps]:
  "rmap_err g (rbind p f) = rbind (rmap_err g p) (\<lambda>x. rmap_err g (f x))"
  by (rule ext) (auto simp: rmap_err_def rbind_def split: sum.splits prod.splits)

lemma rmap_err_rret [result_simps]: "rmap_err g (rret a) = rret a"
  by (rule ext) (simp add: rmap_err_def rret_def)

lemma rmap_err_rfail [result_simps]: "rmap_err g (rfail e) = rfail (g e)"
  by (rule ext) (simp add: rmap_err_def rfail_def)

lemma rmap_err_rmap_err [result_simps]: "rmap_err g (rmap_err h p) = rmap_err (\<lambda>e. g (h e)) p"
  by (rule ext) (auto simp: rmap_err_def split: sum.splits prod.splits)

lemma rmap_err_rlift [result_simps]: "rmap_err g (rlift r) = rlift (map_sum g id r)"
  by (rule ext) (cases r; simp add: rmap_err_def rlift_def)

lemma rmap_err_if [result_simps]:
  "rmap_err g (if b then p else q) = (if b then rmap_err g p else rmap_err g q)"
  by simp

lemma rlift_Inr [simp]: "rlift (Ok a) = rret a"
  by (rule ext) (simp add: rlift_def rret_def)

lemma rlift_Inl [simp]: "rlift (Err e) = rfail e"
  by (rule ext) (simp add: rlift_def rfail_def)

lemma rbind_rret [simp]: "rbind (rret a) f = f a"
  by (rule ext) (simp add: rbind_def rret_def)

lemma rbind_rfail [simp]: "rbind (rfail e) f = rfail e"
  by (rule ext) (simp add: rbind_def rfail_def)

lemma rbind_assoc: "rbind (rbind p f) g = rbind p (\<lambda>x. rbind (f x) g)"
  by (rule ext) (auto simp: rbind_def split: sum.splits prod.splits)

lemma rbind_OkE:
  assumes "rbind p f s = (Ok b, s')"
  obtains a t where "p s = (Ok a, t)" and "f a t = (Ok b, s')"
  using assms by (auto simp: rbind_def split: sum.splits prod.splits)

lemma rmap_err_Ok_iff: "rmap_err g p s = (Ok a, s') \<longleftrightarrow> p s = (Ok a, s')"
  by (auto simp: rmap_err_def split: sum.splits prod.splits)

lemma rbind_Ok: "p s = (Ok a, t) \<Longrightarrow> rbind p f s = f a t"
  by (simp add: rbind_def)

text \<open>\<open>fails p s e\<close>: run on \<open>s\<close>, the reader stops with the error \<open>e\<close>.\<close>

definition fails :: "('s, 'e, 'a) reader \<Rightarrow> 's \<Rightarrow> 'e \<Rightarrow> bool" where
  "fails p s e \<longleftrightarrow> fst (p s) = Err e"

lemma fails_rbind1: "fails p s e \<Longrightarrow> fails (rbind p f) s e"
  by (auto simp: fails_def rbind_def split: prod.splits)

lemma fails_rbind2: "p s = (Ok a, t) \<Longrightarrow> fails (f a) t e \<Longrightarrow> fails (rbind p f) s e"
  by (simp add: fails_def rbind_def)

lemma fails_rmap_err: "fails p s e \<Longrightarrow> fails (rmap_err g p) s (g e)"
  by (auto simp: fails_def rmap_err_def split: prod.splits)

lemma fails_rfail: "fails (rfail e) s e"
  by (simp add: fails_def rfail_def)

section \<open>What a successful parse guarantees\<close>

definition yields :: "('s, 'e, 'a) reader \<Rightarrow> ('a \<Rightarrow> bool) \<Rightarrow> bool" where
  "yields p P \<longleftrightarrow> (\<forall>s a s'. p s = (Ok a, s') \<longrightarrow> P a)"

lemma yieldsD: "yields p P \<Longrightarrow> p s = (Ok a, s') \<Longrightarrow> P a"
  by (auto simp: yields_def)

lemma yields_rret [yield_intros]: "P a \<Longrightarrow> yields (rret a) P"
  by (simp add: yields_def rret_def)

lemma yields_rfail [yield_intros]: "yields (rfail e) P"
  by (simp add: yields_def rfail_def)

lemma yields_rbind [yield_intros]:
  "yields p P \<Longrightarrow> (\<And>a. P a \<Longrightarrow> yields (f a) Q) \<Longrightarrow> yields (rbind p f) Q"
  unfolding yields_def by (metis rbind_OkE)

lemma yields_rmap_err [yield_intros]: "yields p P \<Longrightarrow> yields (rmap_err g p) P"
  by (simp add: yields_def rmap_err_Ok_iff)

lemma rbind_if: "rbind (if b then p else q) f = (if b then rbind p f else rbind q f)"
  by simp

lemma yields_if [yield_intros]: "yields p P \<Longrightarrow> yields q P \<Longrightarrow> yields (if b then p else q) P"
  by simp

section \<open>Byte sources\<close>

text \<open>
  The one operation of a reader the sources rely on is \<^verbatim>\<open>read_exact\<close>: it fills a buffer of a
  given length or reports an error. \<open>view\<close> is what is still to be read and \<open>adv n\<close> the state
  after reading \<open>n\<close> bytes.
\<close>

type_synonym 's read_exact_fn = "nat \<Rightarrow> ('s, io_error, bytes) reader"

locale byte_source =
  fixes rd :: "nat \<Rightarrow> 's \<Rightarrow> (io_error + bytes) \<times> 's"
    and view :: "'s \<Rightarrow> bytes"
    and adv :: "nat \<Rightarrow> 's \<Rightarrow> 's"
    and eof :: "'s \<Rightarrow> io_error"
  assumes read_exact_ok: "n \<le> length (view s) \<Longrightarrow> rd n s = (Ok (take n (view s)), adv n s)"
    and read_exact_short: "length (view s) < n \<Longrightarrow> \<exists>s'. rd n s = (Err (eof s), s')"
    and view_adv: "n \<le> length (view s) \<Longrightarrow> view (adv n s) = drop n (view s)"
    and adv_adv: "m + n \<le> length (view s) \<Longrightarrow> adv n (adv m s) = adv (m + n) s"
    and adv_0: "adv 0 s = s"
    and eof_adv: "n \<le> length (view s) \<Longrightarrow> eof (adv n s) = eof s"

text \<open>
  \<open>parses view adv p enc v\<close>: on every state whose next bytes are \<open>enc\<close>, the parser \<open>p\<close> returns
  \<open>v\<close> and has consumed exactly \<open>enc\<close>.
\<close>

definition parses ::
    "('s \<Rightarrow> bytes) \<Rightarrow> (nat \<Rightarrow> 's \<Rightarrow> 's) \<Rightarrow> ('s, 'e, 'a) reader \<Rightarrow> bytes \<Rightarrow> 'a \<Rightarrow> bool" where
  "parses view adv p enc v \<longleftrightarrow>
     (\<forall>s rest. view s = enc @ rest \<longrightarrow> p s = (Ok v, adv (length enc) s))"

text \<open>
  \<open>decodes\<close> adds the converse on truncated input: when the source ends inside \<open>enc\<close>, the parser
  fails with the error \<open>g\<close> makes of the end of the source.
\<close>

definition decodes ::
    "('s \<Rightarrow> bytes) \<Rightarrow> (nat \<Rightarrow> 's \<Rightarrow> 's) \<Rightarrow> ('s \<Rightarrow> io_error) \<Rightarrow> (io_error \<Rightarrow> 'e)
     \<Rightarrow> ('s, 'e, 'a) reader \<Rightarrow> bytes \<Rightarrow> 'a \<Rightarrow> bool" where
  "decodes view adv eof g p enc v \<longleftrightarrow> parses view adv p enc v
     \<and> (\<forall>s t. view s @ t = enc \<longrightarrow> t \<noteq> [] \<longrightarrow> fails p s (g (eof s)))"

definition consumes :: "('s \<Rightarrow> bytes) \<Rightarrow> (nat \<Rightarrow> 's \<Rightarrow> 's) \<Rightarrow> ('s, 'e, 'a) reader \<Rightarrow> bool" where
  "consumes view adv p \<longleftrightarrow>
     (\<forall>s a s'. p s = (Ok a, s') \<longrightarrow> (\<exists>n\<le>length (view s). s' = adv n s))"

definition progresses :: "('s \<Rightarrow> bytes) \<Rightarrow> (nat \<Rightarrow> 's \<Rightarrow> 's) \<Rightarrow> ('s, 'e, 'a) reader \<Rightarrow> bool" where
  "progresses view adv p \<longleftrightarrow>
     (\<forall>s a s'. p s = (Ok a, s') \<longrightarrow> (\<exists>n\<le>length (view s). n > 0 \<and> s' = adv n s))"

lemma consumes_simple [consume_intros]:
  "consumes view adv p \<Longrightarrow> consumes view adv (rmap_err g p)"
  "consumes view adv (rfail e)"
  "consumes view adv p \<Longrightarrow> consumes view adv q \<Longrightarrow> consumes view adv (if b then p else q)"
  by (simp_all add: consumes_def rmap_err_Ok_iff rfail_def)

lemma progresses_rmap_err: "progresses view adv p \<Longrightarrow> progresses view adv (rmap_err g p)"
  by (simp add: progresses_def rmap_err_Ok_iff)

lemma parsesD: "parses view adv p enc v \<Longrightarrow> view s = enc @ rest \<Longrightarrow> p s = (Ok v, adv (length enc) s)"
  by (auto simp: parses_def)

lemma parses_rmap_err:
  "parses view adv p enc v \<Longrightarrow> parses view adv (rmap_err g p) enc v"
  by (auto simp: parses_def rmap_err_def)

context byte_source
begin

lemma parses_rret: "parses view adv (rret v) [] v"
  by (simp add: parses_def rret_def adv_0)

lemma parses_rbind:
  assumes p: "parses view adv p e1 a" and f: "parses view adv (f a) e2 b"
  shows "parses view adv (rbind p f) (e1 @ e2) b"
  unfolding parses_def
proof (intro allI impI)
  fix s rest
  assume v: "view s = (e1 @ e2) @ rest"
  then have "p s = (Ok a, adv (length e1) s)"
    using parsesD [OF p, of s "e2 @ rest"] by simp
  moreover have "view (adv (length e1) s) = e2 @ rest"
    using v by (simp add: view_adv)
  then have "f a (adv (length e1) s) = (Ok b, adv (length e2) (adv (length e1) s))"
    by (rule parsesD [OF f])
  ultimately show "rbind p f s = (Ok b, adv (length (e1 @ e2)) s)"
    using v by (simp add: rbind_def adv_adv)
qed

lemma parses_read_exact:
  "n = length bs \<Longrightarrow> parses view adv (rd n) bs bs"
  by (simp add: parses_def read_exact_ok)

lemma decodes_rmap_err:
  "decodes view adv eof g p enc v \<Longrightarrow> decodes view adv eof (\<lambda>e. h (g e)) (rmap_err h p) enc v"
  by (auto simp: decodes_def intro: parses_rmap_err fails_rmap_err)

lemma decodes_read_exact:
  "n = length bs \<Longrightarrow> decodes view adv eof (\<lambda>e. e) (rd n) bs bs"
  unfolding decodes_def fails_def
proof (intro conjI allI impI)
  fix s t
  assume "n = length bs" "view s @ t = bs" "t \<noteq> []"
  then have "length (view s) < n" by auto
  from read_exact_short [OF this] show "fst (rd n s) = Err (eof s)" by auto
qed (rule parses_read_exact)

lemma decodes_rret: "decodes view adv eof g (rret v) [] v"
  by (simp add: decodes_def parses_rret)

lemma decodes_rbind:
  assumes p: "decodes view adv eof g p e1 a" and f: "decodes view adv eof g (f a) e2 b"
  shows "decodes view adv eof g (rbind p f) (e1 @ e2) b"
  unfolding decodes_def
proof (intro conjI allI impI)
  show "parses view adv (rbind p f) (e1 @ e2) b"
    using p f parses_rbind by (auto simp: decodes_def)
  fix s t
  assume cut: "view s @ t = e1 @ e2" "t \<noteq> []"
  then obtain u where "view s @ u = e1 \<and> t = u @ e2 \<or> view s = e1 @ u \<and> u @ t = e2"
    by (auto simp: append_eq_append_conv2)
  then consider "view s @ u = e1" "u \<noteq> []" | u where "view s = e1 @ u" "u @ t = e2"
    by (cases "u = []") auto
  then show "fails (rbind p f) s (g (eof s))"
  proof cases
    case 1
    with p show ?thesis
      by (auto simp: decodes_def intro: fails_rbind1)
  next
    case 2
    with p have "p s = (Ok a, adv (length e1) s)"
      by (auto simp: decodes_def dest: parsesD)
    moreover have "fails (f a) (adv (length e1) s) (g (eof (adv (length e1) s)))"
      using f 2 cut by (auto simp: decodes_def view_adv)
    ultimately show ?thesis
      using 2 by (auto simp: eof_adv intro: fails_rbind2)
  qed
qed

text \<open>An encoding given field by field is read field by field.\<close>

lemma decodes_rbind_concat:
  "decodes view adv eof g p e a \<Longrightarrow> decodes view adv eof g (f a) (concat es) b
   \<Longrightarrow> decodes view adv eof g (rbind p f) (concat (e # es)) b"
  using decodes_rbind by simp

lemma decodes_rret_concat: "v = w \<Longrightarrow> decodes view adv eof g (rret v) (concat []) w"
  using decodes_rret by simp

lemma decodes_rlift_rbind:
  "r = Ok a \<Longrightarrow> decodes view adv eof g (f a) e b \<Longrightarrow> decodes view adv eof g (rbind (rlift r) f) e b"
  by simp

lemma decodes_parses: "decodes view adv eof g p enc v \<Longrightarrow> parses view adv p enc v"
  by (simp add: decodes_def)

lemma yields_read_exact [yield_intros]: "yields (rd n) (\<lambda>bs. length bs = n)"
  unfolding yields_def
proof (intro allI impI)
  fix s bs s'
  assume ok: "rd n s = (Ok bs, s')"
  show "length bs = n"
  proof (cases "n \<le> length (view s)")
    case True
    with ok show ?thesis by (auto simp: read_exact_ok)
  next
    case False
    with ok read_exact_short [of s n] show ?thesis by auto
  qed
qed

text \<open>
  A parser over a byte source moves forward: what it accepts it has consumed from the front, and
  \<open>progresses\<close> says that it was at least one byte.
\<close>

lemma consumes_rret [consume_intros]: "consumes view adv (rret a)"
  by (auto simp: consumes_def rret_def adv_0 intro!: exI [of _ 0])

lemma consumes_read_exact [consume_intros]: "consumes view adv (rd n)"
  unfolding consumes_def
proof (intro allI impI)
  fix s a s'
  assume "rd n s = (Ok a, s')"
  then show "\<exists>k\<le>length (view s). s' = adv k s"
    using read_exact_ok [of n s] read_exact_short [of s n] by (cases "n \<le> length (view s)") auto
qed

lemma progresses_read_exact: "n > 0 \<Longrightarrow> progresses view adv (rd n)"
  unfolding progresses_def
proof (intro allI impI)
  fix s a s'
  assume "n > 0" "rd n s = (Ok a, s')"
  then show "\<exists>k\<le>length (view s). k > 0 \<and> s' = adv k s"
    using read_exact_ok [of n s] read_exact_short [of s n] by (cases "n \<le> length (view s)") auto
qed

lemma consumes_rbind [consume_intros]:
  assumes "consumes view adv p" "\<And>a. consumes view adv (f a)"
  shows "consumes view adv (rbind p f)"
  unfolding consumes_def
proof (intro allI impI)
  fix s b s'
  assume "rbind p f s = (Ok b, s')"
  then obtain a t where "p s = (Ok a, t)" "f a t = (Ok b, s')"
    by (rule rbind_OkE)
  with assms obtain m n where "m \<le> length (view s)" "t = adv m s" "n \<le> length (view t)" "s' = adv n t"
    unfolding consumes_def by blast
  then show "\<exists>k\<le>length (view s). s' = adv k s"
    by (intro exI [of _ "m + n"]) (simp add: view_adv adv_adv)
qed

lemma progresses_rbind:
  assumes "progresses view adv p" "\<And>a. consumes view adv (f a)"
  shows "progresses view adv (rbind p f)"
  unfolding progresses_def
proof (intro allI impI)
  fix s b s'
  assume "rbind p f s = (Ok b, s')"
  then obtain a t where "p s = (Ok a, t)" "f a t = (Ok b, s')"
    by (rule rbind_OkE)
  with assms obtain m n where "m \<le> length (view s)" "m > 0" "t = adv m s" "n \<le> length (view t)" "s' = adv n t"
    unfolding consumes_def progresses_def by blast
  then show "\<exists>k\<le>length (view s). k > 0 \<and> s' = adv k s"
    by (intro exI [of _ "m + n"]) (simp add: view_adv adv_adv)
qed

lemma progresses_consumes: "progresses view adv p \<Longrightarrow> consumes view adv p"
  unfolding consumes_def progresses_def by blast

lemma progresses_view:
  assumes "progresses view adv p" "p s = (Ok a, s')"
  shows "length (view s') < length (view s)"
proof -
  obtain n where "n \<le> length (view s)" "n > 0" "s' = adv n s"
    using assms unfolding progresses_def by blast
  then show ?thesis
    by (simp add: view_adv)
qed

end

text \<open>
  \<^verbatim>\<open>std::io::Cursor\<close> over a byte slice: the slice and the position. Reading past the end leaves
  the position at the end and reports \<^verbatim>\<open>UnexpectedEof\<close>.
\<close>

record cursor =
  cur_inner :: bytes
  cur_pos :: nat

definition cursor_new :: "bytes \<Rightarrow> cursor" where
  "cursor_new bs = \<lparr>cur_inner = bs, cur_pos = 0\<rparr>"

definition eof_error :: io_error where
  "eof_error = io_error_new UnexpectedEof ''failed to fill whole buffer''"

definition cursor_view :: "cursor \<Rightarrow> bytes" where
  "cursor_view c = drop (cur_pos c) (cur_inner c)"

definition cursor_adv :: "nat \<Rightarrow> cursor \<Rightarrow> cursor" where
  "cursor_adv n c = c\<lparr>cur_pos := cur_pos c + n\<rparr>"

definition cursor_read_exact :: "nat \<Rightarrow> cursor \<Rightarrow> (io_error + bytes) \<times> cursor" where
  "cursor_read_exact n c =
     (if n \<le> length (cursor_view c)
      then (Ok (take n (cursor_view c)), cursor_adv n c)
      else (Err eof_error, c\<lparr>cur_pos := length (cur_inner c)\<rparr>))"

interpretation cur: byte_source cursor_read_exact cursor_view cursor_adv "\<lambda>_. eof_error"
  by unfold_locales
    (auto simp: cursor_read_exact_def cursor_view_def cursor_adv_def add.commute add.left_commute)

lemma cursor_view_new [simp]: "cursor_view (cursor_new bs) = bs"
  by (simp add: cursor_view_def cursor_new_def)

section \<open>Bytes of words\<close>

lemma unat_byte_of_u64 [bytes_simps]:
  "unat (ucast (drop_bit k (v :: u64)) :: u8) = (unat v div 2 ^ k) mod 256"
proof -
  have "unat (drop_bit k v) = unat v div 2 ^ k"
    by (subst unat_drop_bit_eq) (rule drop_bit_eq_div)
  then show ?thesis
    by (simp only: unsigned_ucast_eq take_bit_eq_mod) simp
qed

lemma unat_low_byte_u64 [bytes_simps]: "unat (ucast (v :: u64) :: u8) = unat v mod 256"
  by (simp add: unsigned_ucast_eq take_bit_eq_mod)

lemma unat_u8_lt: "unat (b :: u8) < 256"
  using unsigned_less [of b] by simp

lemma unat_u64_of_byte [bytes_simps]: "unat (ucast (b :: u8) :: u64) = unat b"
  using unat_u8_lt [of b] by (simp add: unsigned_ucast_eq take_bit_eq_mod)

lemma unat_and_mask6 [bytes_simps]: "unat ((b :: u8) AND 0x3f) = unat b mod 64"
proof -
  have "b AND 0x3f = take_bit 6 b"
    by (simp add: take_bit_eq_mask mask_numeral)
  also have "unat (take_bit 6 b) = take_bit 6 (unat b)"
    by (rule unsigned_take_bit_eq)
  finally show ?thesis
    by (simp add: take_bit_eq_mod)
qed

lemma drop_bit6_and_c0: "drop_bit 6 ((b :: u8) AND 0xc0) = drop_bit 6 b"
proof (rule bit_word_eqI)
  fix n
  assume "n < LENGTH(8)"
  show "bit (drop_bit 6 (b AND 0xc0)) n = bit (drop_bit 6 b) n"
  proof (cases "n < 2")
    case True
    then have "n = 0 \<or> n = 1" by auto
    then show ?thesis by (auto simp: bit_drop_bit_eq bit_and_iff)
  next
    case False
    then have "\<not> bit b (6 + n)"
      using bit_imp_le_length [of b "6 + n"] by auto
    then show ?thesis by (simp add: bit_drop_bit_eq bit_and_iff)
  qed
qed

lemma unat_top_bits [bytes_simps]: "unat (drop_bit 6 ((b :: u8) AND 0xc0)) = unat b div 64"
proof -
  have "unat (drop_bit 6 b) = drop_bit 6 (unat b)"
    by (rule unat_drop_bit_eq)
  then show ?thesis
    unfolding drop_bit6_and_c0 by (simp add: drop_bit_eq_div)
qed

lemma or_shifted_eq_add: "(n :: nat) < 2 ^ k \<Longrightarrow> n OR (m * 2 ^ k) = n + m * 2 ^ k"
proof -
  assume "n < 2 ^ k"
  then have n: "n = take_bit k n"
    by (simp add: take_bit_nat_eq_self)
  have "n AND push_bit k m = 0"
    by (subst n) (auto intro!: bit_eqI simp: bit_simps)
  then show ?thesis
    by (simp add: disjunctive_add_eq_or push_bit_eq_mult)
qed

lemma unat_or_prefix [bytes_simps]:
  assumes "unat (b :: u8) < 64"
  shows "unat (b OR 0x40) = unat b + 64"
    and "unat (b OR 0x80) = unat b + 128"
    and "unat (b OR 0xc0) = unat b + 192"
  using assms or_shifted_eq_add [of "unat b" 6 1] or_shifted_eq_add [of "unat b" 6 2]
    or_shifted_eq_add [of "unat b" 6 3]
  by (simp_all add: unsigned_or_eq)

section \<open>Operations that may panic\<close>

text \<open>
  A stateful operation that returns a result or panics. \<open>pbind\<close> is sequencing with Rust's \<^verbatim>\<open>?\<close>: an
  error ends the operation with the state it has reached.
\<close>

type_synonym ('s, 'e, 'a) op = "'s \<Rightarrow> (('e + 'a) \<times> 's) option"

definition pret :: "'a \<Rightarrow> ('s, 'e, 'a) op" where
  "pret a = (\<lambda>s. Some (Ok a, s))"

definition pfail :: "'e \<Rightarrow> ('s, 'e, 'a) op" where
  "pfail e = (\<lambda>s. Some (Err e, s))"

definition pbind :: "('s, 'e, 'a) op \<Rightarrow> ('a \<Rightarrow> ('s, 'e, 'b) op) \<Rightarrow> ('s, 'e, 'b) op" where
  "pbind p f = (\<lambda>s. case p s of
       None \<Rightarrow> None
     | Some (Err e, s') \<Rightarrow> Some (Err e, s')
     | Some (Ok a, s') \<Rightarrow> f a s')"

definition pupdate :: "('s \<Rightarrow> 's) \<Rightarrow> ('s, 'e, unit) op" where
  "pupdate f = (\<lambda>s. Some (Ok (), f s))"

text \<open>A value that may have panicked while it was computed.\<close>

definition pvalue :: "'a option \<Rightarrow> ('s, 'e, 'a) op" where
  "pvalue v = (\<lambda>s. case v of None \<Rightarrow> None | Some a \<Rightarrow> Some (Ok a, s))"

lemma pbind_Ok: "p s = Some (Ok a, s') \<Longrightarrow> pbind p f s = f a s'"
  and pbind_Err: "p s = Some (Err e, s') \<Longrightarrow> pbind p f s = Some (Err e, s')"
  by (simp_all add: pbind_def)

lemma pbind_OkE:
  assumes "pbind p f s = Some (Ok b, t)"
  obtains a s' where "p s = Some (Ok a, s')" "f a s' = Some (Ok b, t)"
  using assms by (auto simp: pbind_def split: option.splits sum.splits prod.splits)

lemma pvalue_simps [simp]: "pvalue (Some a) = pret a" "pvalue None = (\<lambda>s. None)"
  by (simp_all add: pvalue_def pret_def)

lemma pvalue_OkE:
  assumes "pvalue v s = Some (Ok a, t)"
  obtains "v = Some a" "t = s"
  using assms by (auto simp: pvalue_def split: option.splits)

lemma pbind_pret [simp]: "pbind (pret a) f = f a"
  by (simp add: pbind_def pret_def)

lemma pbind_assoc: "pbind (pbind p f) g = pbind p (\<lambda>a. pbind (f a) g)"
  by (auto simp: pbind_def split: option.splits sum.splits intro!: ext)

lemma pbind_cong: "p s = q s \<Longrightarrow> pbind p f s = pbind q f s"
  by (simp add: pbind_def)

lemma pret_Ok_iff [simp]: "pret a s = Some (Ok b, t) \<longleftrightarrow> a = b \<and> s = t"
  by (auto simp: pret_def)

section \<open>Byte strings and fixed-width integers\<close>

text \<open>
  A Rust \<^verbatim>\<open>str\<close> is a \<open>string\<close>: the characters are the bytes of its UTF-8 encoding. \<open>bstr\<close> is
  \<^verbatim>\<open>as_bytes\<close>, and byte string literals are written with it.
\<close>

definition bstr :: "string \<Rightarrow> bytes" where
  "bstr s = map of_char s"

definition u16_to_be_bytes :: "u16 \<Rightarrow> bytes" where
  "u16_to_be_bytes v = [ucast (drop_bit 8 v), ucast v]"

definition u16_from_be_bytes :: "bytes \<Rightarrow> u16" where
  "u16_from_be_bytes bs = push_bit 8 (ucast (bs ! 0)) OR ucast (bs ! 1)"

lemma unat_of_char_u8: "unat (of_char c :: u8) = of_char c"
proof -
  have "unat (of_nat (of_char c) :: u8) = of_char c"
    using nat_of_char_less_256 [of c] by (simp only: unsigned_of_nat take_bit_eq_mod) simp
  then show ?thesis
    by (simp only: of_nat_of_char)
qed

lemma of_char_u8_inj: "(of_char c :: u8) = of_char d \<longleftrightarrow> c = d"
proof
  assume "(of_char c :: u8) = of_char d"
  from arg_cong [OF this, of unat] show "c = d"
    by (simp only: unat_of_char_u8 of_char_eq_iff)
qed simp

lemma bstr_eq_iff [simp]: "bstr s = bstr t \<longleftrightarrow> s = t"
proof -
  have "inj (of_char :: char \<Rightarrow> u8)"
    by (rule injI) (simp only: of_char_u8_inj)
  then show ?thesis
    by (simp add: bstr_def inj_map_eq_map)
qed

lemma length_bstr [simp]: "length (bstr s) = length s"
  by (simp add: bstr_def)

lemma u16_be_bytes_roundtrip [simp]: "u16_from_be_bytes (u16_to_be_bytes v) = v"
  unfolding u16_from_be_bytes_def u16_to_be_bytes_def
  by (rule bit_eqI) (auto simp: bit_simps)

lemma length_u16_to_be_bytes [simp]: "length (u16_to_be_bytes v) = 2"
  by (simp add: u16_to_be_bytes_def)

definition u32_to_be_bytes :: "u32 \<Rightarrow> bytes" where
  "u32_to_be_bytes v = [ucast (drop_bit 24 v), ucast (drop_bit 16 v), ucast (drop_bit 8 v), ucast v]"

definition u32_from_be_bytes :: "bytes \<Rightarrow> u32" where
  "u32_from_be_bytes bs = push_bit 24 (ucast (bs ! 0)) OR push_bit 16 (ucast (bs ! 1))
     OR push_bit 8 (ucast (bs ! 2)) OR ucast (bs ! 3)"

lemma u32_be_bytes_roundtrip [simp]: "u32_from_be_bytes (u32_to_be_bytes v) = v"
proof (rule bit_eqI)
  fix n
  assume "possible_bit TYPE(u32) n"
  then have "n < 8 \<or> 8 \<le> n \<and> n < 16 \<or> 16 \<le> n \<and> n < 24 \<or> 24 \<le> n \<and> n < 32"
    by auto
  then show "bit (u32_from_be_bytes (u32_to_be_bytes v)) n = bit v n"
    unfolding u32_from_be_bytes_def u32_to_be_bytes_def
    by (elim disjE conjE) (auto simp: bit_simps)
qed

lemma length_u32_to_be_bytes [simp]: "length (u32_to_be_bytes v) = 4"
  by (simp add: u32_to_be_bytes_def)

lemma u32_from_be_bytes_inverse:
  assumes "length bs = 4"
  shows "u32_to_be_bytes (u32_from_be_bytes bs) = bs"
proof -
  obtain a b c d where bs: "bs = [a, b, c, d]"
    using assms by (auto simp: numeral_eq_Suc length_Suc_conv)
  show ?thesis
    unfolding bs u32_from_be_bytes_def u32_to_be_bytes_def
    by simp (intro conjI bit_eqI; auto simp: bit_simps dest: bit_imp_le_length)
qed

end
