(* ===== verification/Wire.thy ===== *)
theory Wire
  imports Ssh3_Prelude
begin

text \<open>
  The wire primitives of \<^verbatim>\<open>crates/ssh3-proto/src/wire.rs\<close>: QUIC variable-length integers,
  length-prefixed SSH strings and booleans. Encoders append to a buffer and panic (\<open>None\<close>)
  where the source panics; decoders are readers over any byte source. The abstract
  specification is the integer encoding of RFC 9000, section 16: the two top bits of the first
  byte give the width, the rest is the value in network byte order.
\<close>

section \<open>Constants and errors\<close>

definition MAX_VARINT_1 :: u64 where "MAX_VARINT_1 = 63"
definition MAX_VARINT_2 :: u64 where "MAX_VARINT_2 = 16383"
definition MAX_VARINT_4 :: u64 where "MAX_VARINT_4 = 1073741823"
definition MAX_VARINT_8 :: u64 where "MAX_VARINT_8 = 4611686018427387903"
definition MAX_VARINT :: u64 where "MAX_VARINT = MAX_VARINT_8"
definition MAX_SSH_STRING_LEN :: u64 where "MAX_SSH_STRING_LEN = 16 * 1024 * 1024"

lemmas max_varint_defs =
  MAX_VARINT_1_def MAX_VARINT_2_def MAX_VARINT_4_def MAX_VARINT_8_def MAX_VARINT_def

datatype proto_error =
    Proto_Io io_error
  | InvalidBool u8
  | InvalidLength u64
  | UnknownMessageType u64
  | UnknownRequestType bytes
  | InvalidForwardingProtocol u64
  | InvalidAddressFamily u64

section \<open>Operations\<close>

definition read_byte :: "'s read_exact_fn \<Rightarrow> ('s, proto_error, u8) reader" where
  "read_byte rd = rbind (rmap_err Proto_Io (rd 1)) (\<lambda>byte. rret (byte ! 0))"

definition read_var_int :: "'s read_exact_fn \<Rightarrow> ('s, proto_error, u64) reader" where
  "read_var_int rd =
     rbind (read_byte rd) (\<lambda>first_byte.
       let len = push_bit (unat (drop_bit 6 (first_byte AND 0xc0))) (1 :: 32 word);
           b1 = first_byte AND 0x3f
       in if len = 1 then rret (ucast b1)
     else rbind (read_byte rd) (\<lambda>b2.
       if len = 2 then rret (ucast b2 + push_bit 8 (ucast b1))
     else rbind (read_byte rd) (\<lambda>b3. rbind (read_byte rd) (\<lambda>b4.
       if len = 4 then
         rret (ucast b4 + push_bit 8 (ucast b3) + push_bit 16 (ucast b2) + push_bit 24 (ucast b1))
     else rbind (read_byte rd) (\<lambda>b5. rbind (read_byte rd) (\<lambda>b6.
          rbind (read_byte rd) (\<lambda>b7. rbind (read_byte rd) (\<lambda>b8.
         rret (ucast b8 + push_bit 8 (ucast b7) + push_bit 16 (ucast b6) + push_bit 24 (ucast b5)
               + push_bit 32 (ucast b4) + push_bit 40 (ucast b3) + push_bit 48 (ucast b2)
               + push_bit 56 (ucast b1))))))))))"

definition append_var_int :: "bytes \<Rightarrow> u64 \<Rightarrow> bytes option" where
  "append_var_int out v =
     (if v \<le> MAX_VARINT_1 then Some (out @ [ucast v])
      else if v \<le> MAX_VARINT_2 then
        Some (out @ [ucast (drop_bit 8 v) OR 0x40, ucast v])
      else if v \<le> MAX_VARINT_4 then
        Some (out @ [ucast (drop_bit 24 v) OR 0x80, ucast (drop_bit 16 v), ucast (drop_bit 8 v),
                     ucast v])
      else if v \<le> MAX_VARINT_8 then
        Some (out @ [ucast (drop_bit 56 v) OR 0xc0, ucast (drop_bit 48 v), ucast (drop_bit 40 v),
                     ucast (drop_bit 32 v), ucast (drop_bit 24 v), ucast (drop_bit 16 v),
                     ucast (drop_bit 8 v), ucast v])
      else None)"

definition var_int_len :: "u64 \<Rightarrow> nat option" where
  "var_int_len v =
     (if v \<le> MAX_VARINT_1 then Some 1
      else if v \<le> MAX_VARINT_2 then Some 2
      else if v \<le> MAX_VARINT_4 then Some 4
      else if v \<le> MAX_VARINT_8 then Some 8
      else None)"

definition append_var_int_with_len :: "bytes \<Rightarrow> u64 \<Rightarrow> nat \<Rightarrow> bytes option" where
  "append_var_int_with_len out v len =
     (if len \<notin> {1, 2, 4, 8} then None
      else do {
        actual_len \<leftarrow> var_int_len v;
        if actual_len > len then None
        else if actual_len = len then append_var_int out v
        else Some (out
               @ (if len = 2 then [0x40] else if len = 4 then [0x80]
                  else if len = 8 then [0xc0] else [])
               @ replicate (len - actual_len - 1) 0
               @ map (\<lambda>shift_index. ucast (drop_bit (shift_index * 8) v)) (rev [0..<actual_len]))
      })"

definition checked_ssh_string_length :: "u64 \<Rightarrow> proto_error + nat" where
  "checked_ssh_string_length len =
     (if len > MAX_SSH_STRING_LEN then Err (InvalidLength len) else Ok (unat len))"

definition read_ssh_bytes :: "'s read_exact_fn \<Rightarrow> ('s, proto_error, bytes) reader" where
  "read_ssh_bytes rd =
     rbind (read_var_int rd) (\<lambda>len.
     rbind (rlift (checked_ssh_string_length len)) (\<lambda>len. rmap_err Proto_Io (rd len)))"

definition append_ssh_bytes :: "bytes \<Rightarrow> bytes \<Rightarrow> bytes option" where
  "append_ssh_bytes out bs = do {
     out \<leftarrow> append_var_int out (of_nat (length bs));
     Some (out @ bs)
   }"

definition ssh_string_len :: "bytes \<Rightarrow> nat option" where
  "ssh_string_len bs = do {
     n \<leftarrow> var_int_len (of_nat (length bs));
     Some (n + length bs)
   }"

definition read_bool :: "'s read_exact_fn \<Rightarrow> ('s, proto_error, bool) reader" where
  "read_bool rd = rbind (read_byte rd) (\<lambda>b.
     if b = 0 then rret False else if b = 1 then rret True else rfail (InvalidBool b))"

definition write_bool :: "bytes \<Rightarrow> bool \<Rightarrow> bytes" where
  "write_bool out v = out @ [if v then 1 else 0]"

definition min_u64 :: "u64 \<Rightarrow> u64 \<Rightarrow> u64" where
  "min_u64 a b = (if a \<le> b then a else b)"

section \<open>Specification: RFC 9000 variable-length integers\<close>

fun be_nat :: "bytes \<Rightarrow> nat" where
  "be_nat [] = 0"
| "be_nat (b # bs) = unat b * 256 ^ length bs + be_nat bs"

definition varint_width :: "u8 \<Rightarrow> nat" where
  "varint_width b = 2 ^ (unat b div 64)"

definition varint_value :: "bytes \<Rightarrow> nat" where
  "varint_value enc = be_nat enc mod 2 ^ (8 * length enc - 2)"

text \<open>The bytes an in-range value is encoded as.\<close>

definition var_int_bytes :: "u64 \<Rightarrow> bytes" where
  "var_int_bytes v = the (append_var_int [] v)"

definition ssh_bytes_enc :: "bytes \<Rightarrow> bytes" where
  "ssh_bytes_enc bs = var_int_bytes (of_nat (length bs)) @ bs"

text \<open>A string is \<open>ok\<close> for the wire when a reader accepts it.\<close>

definition ssh_string_ok :: "bytes \<Rightarrow> bool" where
  "ssh_string_ok bs \<longleftrightarrow> length bs \<le> unat MAX_SSH_STRING_LEN"

text \<open>
  \<open>is_varint enc n\<close>: \<open>enc\<close> is an encoding of \<open>n\<close> in the sense of RFC 9000 (its width is the one
  its first byte announces), not necessarily the shortest.
\<close>

definition is_varint :: "bytes \<Rightarrow> nat \<Rightarrow> bool" where
  "is_varint enc n \<longleftrightarrow> enc \<noteq> [] \<and> length enc = varint_width (hd enc) \<and> varint_value enc = n"

abbreviation be_bytes :: "u64 \<Rightarrow> nat \<Rightarrow> bytes" where
  "be_bytes v k \<equiv> map (\<lambda>i. ucast (drop_bit (i * 8) v)) (rev [0..<k])"

section \<open>Decoding follows the specification\<close>

lemma ucast_u8_of_nat: "(ucast (b :: u8) :: u64) = of_nat (unat b)"
  by (simp add: word_eq_iff_unsigned [where ?'a = nat] bytes_simps take_bit_eq_mod
      unsigned_of_nat order_less_trans [OF unat_u8_lt])

lemma width_cases: "unat (b :: u8) div 64 = 0 \<or> unat b div 64 = 1 \<or> unat b div 64 = 2 \<or> unat b div 64 = 3"
  using unat_u8_lt [of b] by linarith

lemma be_nat_lt: "be_nat bs < 256 ^ length bs"
proof (induction bs)
  case (Cons b bs)
  have "unat b * 256 ^ length bs + be_nat bs < (unat b + 1) * 256 ^ length bs"
    using Cons.IH by simp
  also have "\<dots> \<le> 256 * 256 ^ length bs"
    using unat_u8_lt [of b] by (intro mult_right_mono) auto
  finally show ?case by simp
qed simp

lemma varint_value_Cons: "varint_value (b # bs) = unat b mod 64 * 256 ^ length bs + be_nat bs"
proof -
  have "(2 :: nat) ^ (8 * length (b # bs) - 2) = 256 ^ length bs * 64"
    by (simp add: power_mult [of 2 8, simplified] power_add)
  moreover have "(unat b * 256 ^ length bs + be_nat bs) mod (256 ^ length bs * 64)
      = 256 ^ length bs * (unat b mod 64) + be_nat bs"
    using be_nat_lt [of bs] by (simp add: mod_mult2_eq)
  ultimately show ?thesis
    by (simp add: varint_value_def)
qed

lemma varint_value_lt: "varint_value (b # bs) < 64 * 256 ^ length bs"
proof -
  have "varint_value (b # bs) < (unat b mod 64 + 1) * 256 ^ length bs"
    using be_nat_lt [of bs] by (simp add: varint_value_Cons)
  also have "\<dots> \<le> 64 * 256 ^ length bs"
    by (intro mult_right_mono) (simp_all add: Suc_leI)
  finally show ?thesis .
qed

lemma len_eq: "push_bit (unat (drop_bit 6 ((b :: u8) AND 0xc0))) (1 :: 32 word) = of_nat (varint_width b)"
  unfolding unat_top_bits by (simp add: push_bit_eq_mult varint_width_def)

lemma varint_width_cases:
  obtains "varint_width b = 1" | "varint_width b = 2" | "varint_width b = 4" | "varint_width b = 8"
  using width_cases [of b] unfolding varint_width_def by (elim disjE) simp_all

lemma len_tests:
  "of_nat (varint_width b) = (1 :: 32 word) \<longleftrightarrow> varint_width b = 1"
  "of_nat (varint_width b) = (2 :: 32 word) \<longleftrightarrow> varint_width b = 2"
  "of_nat (varint_width b) = (4 :: 32 word) \<longleftrightarrow> varint_width b = 4"
  by (cases rule: varint_width_cases [of b]; simp)+

lemma varint_sum:
  fixes x :: nat
  shows "of_nat (unat b2) + push_bit 8 (of_nat x) = (of_nat (x * 256 ^ length [b2] + be_nat [b2]) :: u64)"
  "of_nat (unat b4) + push_bit 8 (of_nat (unat b3)) + push_bit 16 (of_nat (unat b2)) + push_bit 24 (of_nat x)
     = (of_nat (x * 256 ^ length [b2, b3, b4] + be_nat [b2, b3, b4]) :: u64)"
  "of_nat (unat b8) + push_bit 8 (of_nat (unat b7)) + push_bit 16 (of_nat (unat b6))
     + push_bit 24 (of_nat (unat b5)) + push_bit 32 (of_nat (unat b4)) + push_bit 40 (of_nat (unat b3))
     + push_bit 48 (of_nat (unat b2)) + push_bit 56 (of_nat x)
     = (of_nat (x * 256 ^ length [b2, b3, b4, b5, b6, b7, b8] + be_nat [b2, b3, b4, b5, b6, b7, b8]) :: u64)"
  by (simp_all add: push_bit_eq_mult ac_simps)

text \<open>The decoder over natural numbers, with the width test of the specification.\<close>

lemma read_var_int_alt:
  "read_var_int rd =
     rbind (read_byte rd) (\<lambda>b1.
       if varint_width b1 = 1 then rret (of_nat (varint_value [b1]))
     else rbind (read_byte rd) (\<lambda>b2.
       if varint_width b1 = 2 then rret (of_nat (varint_value [b1, b2]))
     else rbind (read_byte rd) (\<lambda>b3. rbind (read_byte rd) (\<lambda>b4.
       if varint_width b1 = 4 then rret (of_nat (varint_value [b1, b2, b3, b4]))
     else rbind (read_byte rd) (\<lambda>b5. rbind (read_byte rd) (\<lambda>b6.
          rbind (read_byte rd) (\<lambda>b7. rbind (read_byte rd) (\<lambda>b8.
         rret (of_nat (varint_value [b1, b2, b3, b4, b5, b6, b7, b8]))))))))))"
  unfolding read_var_int_def Let_def len_eq len_tests ucast_u8_of_nat unat_and_mask6
  unfolding varint_sum(3)
  unfolding varint_sum(2)
  unfolding varint_sum(1) varint_value_Cons
  by (simp only: list.size be_nat.simps power_0 mult_1_right add_0_right)

context byte_source
begin

lemma parses_read_byte: "parses view adv (read_byte rd) [b] b"
proof -
  have "parses view adv (read_byte rd) ([b] @ []) ([b] ! 0)"
    unfolding read_byte_def
    by (rule parses_rbind [OF parses_rmap_err [OF parses_read_exact] parses_rret]) simp
  then show ?thesis by simp
qed

lemma fails_read_byte: "view s = [] \<Longrightarrow> fails (read_byte rd) s (Proto_Io (eof s))"
  using read_exact_short [of s 1]
  by (auto simp: read_byte_def fails_def rbind_def rmap_err_def)

lemma read_byte_Cons: "view s = b # bs \<Longrightarrow> read_byte rd s = (Ok b, adv 1 s)"
  using parsesD [OF parses_read_byte, of s b bs] by simp

lemma parses_read_byte_bind:
  "parses view adv (f b) e v \<Longrightarrow> parses view adv (rbind (read_byte rd) f) (b # e) v"
  using parses_rbind [OF parses_read_byte, of f b e v] by simp

lemma parses_read_var_int_raw:
  assumes len: "length bs + 1 = varint_width b"
  shows "parses view adv (read_var_int rd) (b # bs) (of_nat (varint_value (b # bs)))"
proof (cases rule: varint_width_cases [of b])
  case 1
  with len show ?thesis
    unfolding read_var_int_alt by (simp add: parses_read_byte_bind parses_rret)
next
  case 2
  with len obtain b2 where "bs = [b2]"
    by (auto simp: length_Suc_conv)
  with 2 show ?thesis
    unfolding read_var_int_alt by (simp add: parses_read_byte_bind parses_rret)
next
  case 3
  with len obtain b2 b3 b4 where "bs = [b2, b3, b4]"
    by (auto simp: length_Suc_conv numeral_eq_Suc)
  with 3 show ?thesis
    unfolding read_var_int_alt by (simp add: parses_read_byte_bind parses_rret)
next
  case 4
  with len obtain b2 b3 b4 b5 b6 b7 b8 where "bs = [b2, b3, b4, b5, b6, b7, b8]"
    by (auto simp: length_Suc_conv numeral_eq_Suc)
  with 4 show ?thesis
    unfolding read_var_int_alt by (simp add: parses_read_byte_bind parses_rret)
qed

text \<open>The fewer bytes than the first byte announces: the read fails with the source's error.\<close>

lemma fails_read_byte_bind:
  assumes "\<And>b bs. view s = b # bs \<Longrightarrow> fails (f b) (adv 1 s) (Proto_Io (eof (adv 1 s)))"
  shows "fails (rbind (read_byte rd) f) s (Proto_Io (eof s))"
proof (cases "view s")
  case Nil
  then show ?thesis by (intro fails_rbind1 fails_read_byte)
next
  case (Cons b bs)
  then have "eof (adv 1 s) = eof s"
    by (simp add: eof_adv)
  with assms [OF Cons] read_byte_Cons [OF Cons] show ?thesis
    by (auto intro: fails_rbind2)
qed

lemma view_adv_1: "view s = b # bs \<Longrightarrow> view (adv (Suc 0) s) = bs"
  by (simp add: view_adv)

lemma fails_read_var_int:
  assumes "view s = [] \<or> length (view s) < varint_width (hd (view s))"
  shows "fails (read_var_int rd) s (Proto_Io (eof s))"
proof (cases "view s")
  case Nil
  then show ?thesis unfolding read_var_int_alt by (intro fails_rbind1 fails_read_byte)
next
  case (Cons b bs)
  with assms have short: "length bs + 1 < varint_width b" by simp
  show ?thesis
    unfolding read_var_int_alt
    by (rule varint_width_cases [of b])
      (use Cons short in \<open>auto intro!: fails_read_byte_bind simp: view_adv_1\<close>)
qed

end

section \<open>Encoding meets the specification\<close>

lemma be_nat_byte_list:
  "be_nat (map (\<lambda>i. ucast (drop_bit (i * 8) (v :: u64))) (rev [0..<k])) = unat v mod 256 ^ k"
proof (induction k)
  case (Suc k)
  have "unat v mod (256 ^ k * 256) = 256 ^ k * (unat v div 256 ^ k mod 256) + unat v mod 256 ^ k"
    by (rule mod_mult2_eq)
  moreover have "(2 :: nat) ^ (k * 8) = 256 ^ k"
    by (simp add: mult.commute [of k] power_mult)
  ultimately show ?case
    using Suc by (simp add: unat_byte_of_u64 mult.commute)
qed simp

lemma be_nat_append: "be_nat (xs @ ys) = be_nat xs * 256 ^ length ys + be_nat ys"
  by (induction xs) (simp_all add: power_add algebra_simps)

lemma be_nat_zeros [simp]: "be_nat (replicate k 0) = 0"
  by (induction k) simp_all

lemma is_varintI:
  "length bs + 1 = varint_width b \<Longrightarrow> unat b mod 64 * 256 ^ length bs + be_nat bs = n
   \<Longrightarrow> is_varint (b # bs) n"
  by (simp add: is_varint_def varint_value_Cons)

lemma var_int_bytes_1: "v \<le> MAX_VARINT_1 \<Longrightarrow> is_varint [ucast v] (unat v)"
  by (rule is_varintI)
    (simp_all add: word_le_nat_alt MAX_VARINT_1_def varint_width_def bytes_simps)

lemma byte_prefix:
  fixes v :: u64
  assumes "unat v div 2 ^ k < 64"
  shows "unat (ucast (drop_bit k v) OR 0x40 :: u8) = unat v div 2 ^ k + 64"
    and "unat (ucast (drop_bit k v) OR 0x80 :: u8) = unat v div 2 ^ k + 128"
    and "unat (ucast (drop_bit k v) OR 0xc0 :: u8) = unat v div 2 ^ k + 192"
proof -
  have *: "unat (ucast (drop_bit k v) :: u8) = unat v div 2 ^ k"
    using assms by (simp only: unat_byte_of_u64) simp
  with assms have "unat (ucast (drop_bit k v) :: u8) < 64"
    by simp
  from unat_or_prefix [OF this] show
    "unat (ucast (drop_bit k v) OR 0x40 :: u8) = unat v div 2 ^ k + 64"
    "unat (ucast (drop_bit k v) OR 0x80 :: u8) = unat v div 2 ^ k + 128"
    "unat (ucast (drop_bit k v) OR 0xc0 :: u8) = unat v div 2 ^ k + 192"
    by (simp_all only: *)
qed

lemma is_varint_prefixed:
  assumes hi: "unat v div 256 ^ k < 64" and b: "unat b = unat v div 256 ^ k + p * 64"
    and p: "2 ^ p = k + 1" "p < 4"
  shows "is_varint (b # be_bytes v k) (unat v)"
proof (rule is_varintI)
  have "unat b div 64 = p"
    using hi b p(2) by simp
  then show "length (be_bytes v k) + 1 = varint_width b"
    using p(1) by (simp add: varint_width_def)
  have "unat b mod 64 = unat v div 256 ^ k"
    using hi b by simp
  then show "unat b mod 64 * 256 ^ length (be_bytes v k) + be_nat (be_bytes v k) = unat v"
    by (simp add: be_nat_byte_list div_mult_mod_eq)
qed

lemma var_int_bytes_2:
  assumes "v \<le> MAX_VARINT_2"
  shows "is_varint [ucast (drop_bit 8 v) OR 0x40, ucast v] (unat v)"
proof -
  have hi: "unat v div 2 ^ 8 < 64"
    using assms by (simp add: word_le_nat_alt MAX_VARINT_2_def)
  have "is_varint ((ucast (drop_bit 8 v) OR 0x40) # be_bytes v 1) (unat v)"
    by (rule is_varint_prefixed [where p = 1]) (use hi byte_prefix(1) [OF hi] in simp_all)
  then show ?thesis by simp
qed

lemma var_int_bytes_4:
  assumes "v \<le> MAX_VARINT_4"
  shows "is_varint [ucast (drop_bit 24 v) OR 0x80, ucast (drop_bit 16 v), ucast (drop_bit 8 v), ucast v]
     (unat v)"
proof -
  have hi: "unat v div 2 ^ 24 < 64"
    using assms by (simp add: word_le_nat_alt MAX_VARINT_4_def)
  have "is_varint ((ucast (drop_bit 24 v) OR 0x80) # be_bytes v 3) (unat v)"
    by (rule is_varint_prefixed [where p = 2]) (use hi byte_prefix(2) [OF hi] in simp_all)
  then show ?thesis by (simp add: upt_rec numeral_eq_Suc)
qed

lemma var_int_bytes_8:
  assumes "v \<le> MAX_VARINT_8"
  shows "is_varint [ucast (drop_bit 56 v) OR 0xc0, ucast (drop_bit 48 v), ucast (drop_bit 40 v),
     ucast (drop_bit 32 v), ucast (drop_bit 24 v), ucast (drop_bit 16 v), ucast (drop_bit 8 v),
     ucast v] (unat v)"
proof -
  have hi: "unat v div 2 ^ 56 < 64"
    using assms by (simp add: word_le_nat_alt MAX_VARINT_8_def)
  have "is_varint ((ucast (drop_bit 56 v) OR 0xc0) # be_bytes v 7) (unat v)"
    by (rule is_varint_prefixed [where p = 3]) (use hi byte_prefix(3) [OF hi] in simp_all)
  moreover have "[0..<7] = [0, 1, 2, 3, 4, 5, 6]"
    by (simp add: upt_rec)
  ultimately show ?thesis by simp
qed

lemma append_var_int_is_varint:
  assumes "v \<le> MAX_VARINT"
  shows "append_var_int out v = Some (out @ var_int_bytes v) \<and> is_varint (var_int_bytes v) (unat v)
    \<and> var_int_len v = Some (length (var_int_bytes v))"
proof -
  consider "v \<le> MAX_VARINT_1" | "\<not> v \<le> MAX_VARINT_1" "v \<le> MAX_VARINT_2"
    | "\<not> v \<le> MAX_VARINT_1" "\<not> v \<le> MAX_VARINT_2" "v \<le> MAX_VARINT_4"
    | "\<not> v \<le> MAX_VARINT_1" "\<not> v \<le> MAX_VARINT_2" "\<not> v \<le> MAX_VARINT_4" "v \<le> MAX_VARINT_8"
    using assms MAX_VARINT_def by fastforce
  then show ?thesis
  proof cases
    case 1
    with var_int_bytes_1 show ?thesis
      by (simp add: append_var_int_def var_int_bytes_def var_int_len_def)
  next
    case 2
    with var_int_bytes_2 [of v] show ?thesis
      by (simp add: append_var_int_def var_int_bytes_def var_int_len_def)
  next
    case 3
    with var_int_bytes_4 [of v] show ?thesis
      by (simp add: append_var_int_def var_int_bytes_def var_int_len_def)
  next
    case 4
    with var_int_bytes_8 [of v] show ?thesis
      by (simp add: append_var_int_def var_int_bytes_def var_int_len_def)
  qed
qed

lemma append_var_int_eq: "v \<le> MAX_VARINT \<Longrightarrow> append_var_int out v = Some (out @ var_int_bytes v)"
  and is_varint_var_int_bytes: "v \<le> MAX_VARINT \<Longrightarrow> is_varint (var_int_bytes v) (unat v)"
  and var_int_len_eq: "v \<le> MAX_VARINT \<Longrightarrow> var_int_len v = Some (length (var_int_bytes v))"
  using append_var_int_is_varint by blast+

lemma append_var_int_None_iff: "append_var_int out v = None \<longleftrightarrow> MAX_VARINT < v"
  and var_int_len_None_iff: "var_int_len v = None \<longleftrightarrow> MAX_VARINT < v"
  by (auto simp: append_var_int_def var_int_len_def max_varint_defs word_less_nat_alt word_le_nat_alt)

lemma is_varint_length_bound:
  assumes "is_varint enc n"
  shows "n < 64 * 256 ^ (length enc - 1)"
proof (cases enc)
  case (Cons b bs)
  with assms have "n = varint_value (b # bs)"
    by (simp add: is_varint_def)
  with Cons varint_value_lt [of b bs] show ?thesis
    by simp
qed (use assms in \<open>simp add: is_varint_def\<close>)

lemma is_varint_length: "is_varint enc n \<Longrightarrow> length enc \<in> {1, 2, 4, 8}"
  by (cases rule: varint_width_cases [of "hd enc"]) (auto simp: is_varint_def)

lemma is_varint_le_MAX: "is_varint enc n \<Longrightarrow> n \<le> unat MAX_VARINT"
  using is_varint_length_bound [of enc n] is_varint_length [of enc n]
  by (auto simp: max_varint_defs)

lemma length_var_int_bytes_minimal:
  assumes "v \<le> MAX_VARINT" and "is_varint enc (unat v)"
  shows "length (var_int_bytes v) \<le> length enc"
proof -
  have "length (var_int_bytes v) =
      (if unat v \<le> 63 then 1 else if unat v \<le> 16383 then 2 else if unat v \<le> 1073741823 then 4 else 8)"
    using var_int_len_eq [OF assms(1)]
    by (auto simp: var_int_len_def max_varint_defs word_le_nat_alt split: if_splits)
  then show ?thesis
    using is_varint_length_bound [OF assms(2)] is_varint_length [OF assms(2)]
    by (auto split: if_splits)
qed

lemma yields_read_var_int [yield_intros]: "yields (read_var_int rd) (\<lambda>v. v \<le> MAX_VARINT)"
proof -
  have bound: "of_nat (varint_value (b # bs)) \<le> MAX_VARINT" if "length bs \<le> 7" for b bs
  proof -
    have "varint_value (b # bs) < 64 * 256 ^ length bs"
      by (rule varint_value_lt)
    also have "\<dots> \<le> 64 * 256 ^ 7"
      using that by (intro mult_left_mono power_increasing) auto
    finally show ?thesis
      by (simp add: word_le_nat_alt unsigned_of_nat take_bit_eq_mod max_varint_defs)
  qed
  show ?thesis
    unfolding read_var_int_alt
    by (intro yields_rbind [where P = "\<lambda>_. True"] yields_if yields_rret bound)
      (simp_all add: yields_def)
qed

lemma append_ssh_bytes_eq:
  assumes "length bs \<le> unat MAX_VARINT"
  shows "append_ssh_bytes out bs = Some (out @ ssh_bytes_enc bs)"
    and "ssh_string_len bs = Some (length (ssh_bytes_enc bs))"
proof -
  have "(of_nat (length bs) :: u64) \<le> MAX_VARINT"
    using assms by (simp add: word_le_nat_alt unsigned_of_nat take_bit_eq_mod max_varint_defs)
  then show "append_ssh_bytes out bs = Some (out @ ssh_bytes_enc bs)"
    "ssh_string_len bs = Some (length (ssh_bytes_enc bs))"
    by (simp_all add: append_ssh_bytes_def ssh_string_len_def ssh_bytes_enc_def append_var_int_eq
        var_int_len_eq)
qed

lemma ssh_string_ok_le: "ssh_string_ok bs \<Longrightarrow> length bs \<le> unat MAX_VARINT"
  by (simp add: ssh_string_ok_def MAX_SSH_STRING_LEN_def max_varint_defs)

lemma yields_read_bool: "yields (read_bool rd) (\<lambda>_. True)"
  by (simp add: yields_def)

context byte_source
begin

lemma parses_is_varint: "is_varint enc n \<Longrightarrow> parses view adv (read_var_int rd) enc (of_nat n)"
  using parses_read_var_int_raw by (cases enc) (auto simp: is_varint_def)

lemma parses_var_int:
  "v \<le> MAX_VARINT \<Longrightarrow> parses view adv (read_var_int rd) (var_int_bytes v) v"
  using parses_is_varint [OF is_varint_var_int_bytes] by simp

lemma decodes_var_int:
  assumes "v \<le> MAX_VARINT"
  shows "decodes view adv eof Proto_Io (read_var_int rd) (var_int_bytes v) v"
  unfolding decodes_def
proof (intro conjI allI impI)
  fix s t
  assume cut: "view s @ t = var_int_bytes v" "t \<noteq> []"
  have "length (var_int_bytes v) = varint_width (hd (var_int_bytes v))"
    using is_varint_var_int_bytes [OF assms] by (simp add: is_varint_def)
  with cut have "view s = [] \<or> length (view s) < varint_width (hd (view s))"
    by (cases "view s"; cases t) (simp_all flip: cut(1))
  then show "fails (read_var_int rd) s (Proto_Io (eof s))"
    by (rule fails_read_var_int)
qed (rule parses_var_int [OF assms])

lemma decodes_ssh_bytes:
  assumes "ssh_string_ok bs"
  shows "decodes view adv eof Proto_Io (read_ssh_bytes rd) (ssh_bytes_enc bs) bs"
proof -
  let ?n = "of_nat (length bs) :: u64"
  have n: "unat ?n = length bs" "?n \<le> MAX_SSH_STRING_LEN"
    using assms
    by (auto simp: ssh_string_ok_def word_le_nat_alt unsigned_of_nat take_bit_eq_mod
        MAX_SSH_STRING_LEN_def)
  then have "?n \<le> MAX_VARINT"
    by (auto simp: MAX_SSH_STRING_LEN_def max_varint_defs word_le_nat_alt)
  moreover have "checked_ssh_string_length ?n = Ok (length bs)"
    using n by (simp add: checked_ssh_string_length_def leD)
  ultimately show ?thesis
    unfolding read_ssh_bytes_def ssh_bytes_enc_def
    by (intro decodes_rbind [OF decodes_var_int] decodes_rlift_rbind
        decodes_rmap_err [OF decodes_read_exact]) simp_all
qed

lemmas parses_ssh_bytes = decodes_parses [OF decodes_ssh_bytes]

lemma yields_read_ssh_bytes [yield_intros]: "yields (read_ssh_bytes rd) ssh_string_ok"
  unfolding read_ssh_bytes_def
proof (rule yields_rbind [OF yields_read_var_int])
  fix len :: u64
  show "yields (rbind (rlift (checked_ssh_string_length len)) (\<lambda>len. rmap_err Proto_Io (rd len)))
     ssh_string_ok"
    using yields_rmap_err [OF yields_read_exact, of Proto_Io "unat len"]
    by (auto simp: checked_ssh_string_length_def yields_def rfail_def ssh_string_ok_def
        not_less word_le_nat_alt)
qed

lemma decodes_bool: "decodes view adv eof Proto_Io (read_bool rd) [if v then 1 else 0] v"
proof -
  have "parses view adv (read_bool rd) [if v then 1 else 0] v"
    unfolding read_bool_def by (rule parses_read_byte_bind) (simp add: parses_rret)
  moreover have "fails (read_bool rd) s (Proto_Io (eof s))" if "view s = []" for s
    unfolding read_bool_def using fails_read_byte [OF that] by (rule fails_rbind1)
  ultimately show ?thesis
    by (auto simp: decodes_def Cons_eq_append_conv append_eq_Cons_conv)
qed

lemma progresses_read_byte: "progresses view adv (read_byte rd)"
  unfolding read_byte_def
  by (intro progresses_rbind progresses_rmap_err progresses_read_exact consume_intros) simp

lemmas consumes_read_byte [consume_intros] = progresses_consumes [OF progresses_read_byte]

lemma progresses_read_var_int: "progresses view adv (read_var_int rd)"
  unfolding read_var_int_alt
  by (intro progresses_rbind [OF progresses_read_byte] consume_intros)

lemmas consumes_read_var_int [consume_intros] = progresses_consumes [OF progresses_read_var_int]

lemma consumes_read_ssh_bytes [consume_intros]: "consumes view adv (read_ssh_bytes rd)"
  unfolding read_ssh_bytes_def checked_ssh_string_length_def if_distrib [of rlift] rlift_Inr rlift_Inl
  by (intro consume_intros)

lemma consumes_read_bool [consume_intros]: "consumes view adv (read_bool rd)"
  unfolding read_bool_def by (intro consume_intros)

end

section \<open>Encoding with a forced width\<close>

lemma var_int_len_le_8: "var_int_len v = Some n \<Longrightarrow> n \<in> {1, 2, 4, 8} \<and> unat v < 256 ^ n"
  by (auto simp: var_int_len_def max_varint_defs word_le_nat_alt split: if_splits)

lemma is_varint_padded:
  assumes "var_int_len v = Some n" "n < len"
    and "(len = 2 \<and> b = 0x40) \<or> (len = 4 \<and> b = 0x80) \<or> (len = 8 \<and> b = (0xc0 :: u8))"
  shows "is_varint (b # replicate (len - n - 1) 0 @ be_bytes v n) (unat v)"
proof (rule is_varintI)
  have "varint_width b = len" "unat b mod 64 = 0"
    using assms(3) by (auto simp: varint_width_def)
  then show "length (replicate (len - n - 1) 0 @ be_bytes v n) + 1 = varint_width b"
    "unat b mod 64 * 256 ^ length (replicate (len - n - 1) 0 @ be_bytes v n)
       + be_nat (replicate (len - n - 1) 0 @ be_bytes v n) = unat v"
    using assms(2) var_int_len_le_8 [OF assms(1)]
    by (simp_all add: be_nat_append be_nat_byte_list)
qed

lemma var_int_len_fits:
  assumes "len \<in> {1, 2, 4, 8}"
  shows "(\<exists>n. var_int_len v = Some n \<and> n \<le> len) \<longleftrightarrow> unat v < 2 ^ (8 * len - 2)"
proof -
  consider "len = 1" | "len = 2" | "len = 4" | "len = 8"
    using assms by blast
  then show ?thesis
    by cases (simp_all add: var_int_len_def max_varint_defs word_le_nat_alt)
qed

lemma append_var_int_with_len_cases:
  assumes "len \<in> {1, 2, 4, 8}" "var_int_len v = Some n" "n \<le> len"
  obtains enc where "append_var_int_with_len out v len = Some (out @ enc)" "length enc = len"
    "is_varint enc (unat v)"
proof (cases "n = len")
  case True
  have v: "v \<le> MAX_VARINT"
    using assms(2) var_int_len_None_iff [of v] by (simp add: not_less)
  with True assms show ?thesis
    by (intro that [of "var_int_bytes v"])
      (simp_all add: append_var_int_with_len_def append_var_int_eq var_int_len_eq is_varint_var_int_bytes)
next
  case False
  with assms have "n < len" by simp
  moreover have "n \<ge> 1"
    using var_int_len_le_8 [OF assms(2)] by auto
  ultimately obtain b :: u8 where
    b: "(len = 2 \<and> b = 0x40) \<or> (len = 4 \<and> b = 0x80) \<or> (len = 8 \<and> b = 0xc0)"
    using assms(1) by auto
  have padded: "is_varint (b # replicate (len - n - 1) 0 @ be_bytes v n) (unat v)"
    by (rule is_varint_padded [OF assms(2) \<open>n < len\<close> b])
  have "append_var_int_with_len out v len = Some (out @ b # replicate (len - n - 1) 0 @ be_bytes v n)"
    unfolding append_var_int_with_len_def
    using b assms(2) \<open>n < len\<close> by (elim disjE conjE) simp_all
  from that [OF this _ padded] \<open>n < len\<close> show ?thesis
    by simp
qed

section \<open>Properties of the wire primitives\<close>

text \<open>
  C20: Decoding follows RFC 9000 on every input. With the next bytes of the source starting with
  \<open>b\<close>, \<^verbatim>\<open>read_var_int\<close> needs as many bytes as the two top bits of \<open>b\<close> announce; with fewer it fails
  with the error of the source, otherwise it consumes exactly those and returns their value
  without overflow, whatever source it reads from.
\<close>

theorem read_var_int_refines_rfc9000:
  assumes "byte_source rd view adv eof"
  shows "case view s of
      [] \<Rightarrow> fst (read_var_int rd s) = Err (Proto_Io (eof s))
    | b # _ \<Rightarrow>
        if length (view s) < varint_width b then fst (read_var_int rd s) = Err (Proto_Io (eof s))
        else \<exists>v. read_var_int rd s = (Ok v, adv (varint_width b) s)
               \<and> unat v = varint_value (take (varint_width b) (view s))"
proof (cases "view s")
  case Nil
  with byte_source.fails_read_var_int [OF assms, of s] show ?thesis
    by (simp add: fails_def)
next
  case (Cons b bs)
  let ?enc = "take (varint_width b) (view s)"
  show ?thesis
  proof (cases "length (view s) < varint_width b")
    case True
    with Cons byte_source.fails_read_var_int [OF assms, of s] show ?thesis
      by (simp add: fails_def)
  next
    case False
    have "0 < varint_width b"
      by (simp add: varint_width_def)
    with Cons False have enc: "is_varint ?enc (varint_value ?enc)"
      by (auto simp: is_varint_def take_Cons' min_def)
    have "view s = ?enc @ drop (varint_width b) (view s)"
      by simp
    from parsesD [OF byte_source.parses_is_varint [OF assms enc] this] False
    have "read_var_int rd s = (Ok (of_nat (varint_value ?enc)), adv (varint_width b) s)"
      by (simp add: min_def)
    moreover have "unat (of_nat (varint_value ?enc) :: u64) = varint_value ?enc"
      using is_varint_le_MAX [OF enc]
      by (simp add: unsigned_of_nat take_bit_eq_mod max_varint_defs)
    ultimately show ?thesis
      using Cons False by auto
  qed
qed

theorem read_var_int_refines_rfc9000_witness:
  "case cursor_view (cursor_new [0x40, 0x25, 0xff]) of
      [] \<Rightarrow> False
    | b # _ \<Rightarrow> varint_width b = 2
        \<and> (\<exists>v. read_var_int cursor_read_exact (cursor_new [0x40, 0x25, 0xff])
                 = (Ok v, cursor_adv 2 (cursor_new [0x40, 0x25, 0xff])) \<and> unat v = 37)"
  using read_var_int_refines_rfc9000 [OF cur.byte_source_axioms, of "cursor_new [0x40, 0x25, 0xff]"]
  by (simp add: cursor_new_def cursor_view_def varint_width_def varint_value_def)

text \<open>
  What \<^verbatim>\<open>append_var_int\<close> writes, \<^verbatim>\<open>read_var_int\<close> reads back, from any source and whatever
  follows: the decoder returns the value and stops right after its encoding. The encoding is an
  RFC 9000 encoding of the value, none is shorter, and \<^verbatim>\<open>var_int_len\<close> is its length.
\<close>

theorem var_int_roundtrip:
  assumes "byte_source rd view adv eof" and "v \<le> MAX_VARINT"
  shows "\<exists>enc. append_var_int out v = Some (out @ enc)
    \<and> var_int_len v = Some (length enc)
    \<and> is_varint enc (unat v)
    \<and> (\<forall>other. is_varint other (unat v) \<longrightarrow> length enc \<le> length other)
    \<and> (\<forall>s rest. view s = enc @ rest \<longrightarrow> read_var_int rd s = (Ok v, adv (length enc) s))"
  using byte_source.parses_var_int [OF assms] append_var_int_is_varint [OF assms(2), of out]
    length_var_int_bytes_minimal [OF assms(2)]
  by (intro exI [of _ "var_int_bytes v"]) (auto simp: parses_def)

theorem var_int_roundtrip_witness:
  "append_var_int [7] 15293 = Some [7, 0x7b, 0xbd]
   \<and> read_var_int cursor_read_exact (cursor_new [0x7b, 0xbd, 1])
      = (Ok 15293, cursor_adv 2 (cursor_new [0x7b, 0xbd, 1]))"
proof -
  have enc: "append_var_int [7] 15293 = Some [7, 0x7b, 0xbd]"
    by (simp add: append_var_int_def max_varint_defs)
  have "(15293 :: u64) \<le> MAX_VARINT"
    by (simp add: max_varint_defs)
  from var_int_roundtrip [OF cur.byte_source_axioms this, of "[7]"] enc
  have "cursor_view s = [0x7b, 0xbd] @ rest
      \<Longrightarrow> read_var_int cursor_read_exact s = (Ok 15293, cursor_adv (Suc (Suc 0)) s)" for s rest
    by auto
  from this [of "cursor_new [0x7b, 0xbd, 1]" "[1]"] enc show ?thesis
    by (simp add: cursor_view_def cursor_new_def cursor_adv_def)
qed

text \<open>
  The encoders panic exactly on the values a variable-length integer cannot hold, above
  \<open>2 ^ 62 - 1\<close>, and \<^verbatim>\<open>append_var_int_with_len\<close> panics exactly on those, on a width that is not 1,
  2, 4 or 8 and on one too small for the value; in every other case it appends an encoding of
  the value of exactly the requested width.
\<close>

theorem var_int_encoders_panic:
  "(append_var_int out v = None \<longleftrightarrow> unat v \<ge> 2 ^ 62)
   \<and> (var_int_len v = None \<longleftrightarrow> unat v \<ge> 2 ^ 62)
   \<and> (case append_var_int_with_len out v len of
        None \<Rightarrow> len \<notin> {1, 2, 4, 8} \<or> unat v \<ge> 2 ^ (8 * len - 2)
      | Some out' \<Rightarrow> len \<in> {1, 2, 4, 8} \<and> unat v < 2 ^ (8 * len - 2)
          \<and> (\<exists>enc. out' = out @ enc \<and> length enc = len \<and> is_varint enc (unat v)))"
  (is "_ \<and> _ \<and> ?with_len")
proof -
  have "MAX_VARINT < v \<longleftrightarrow> unat v \<ge> 2 ^ 62"
    by (auto simp: max_varint_defs word_less_nat_alt)
  moreover have ?with_len
  proof (cases "len \<in> {1, 2, 4, 8} \<and> unat v < 2 ^ (8 * len - 2)")
    case True
    then obtain n where n: "var_int_len v = Some n" "n \<le> len"
      using var_int_len_fits by blast
    obtain enc where "append_var_int_with_len out v len = Some (out @ enc)" "length enc = len"
      "is_varint enc (unat v)"
      by (rule append_var_int_with_len_cases [OF conjunct1 [OF True] n])
    with True show ?thesis by simp
  next
    case False
    then consider "len \<notin> {1, 2, 4, 8}" | "\<nexists>n. var_int_len v = Some n \<and> n \<le> len"
      using var_int_len_fits by blast
    then have "append_var_int_with_len out v len = None"
      unfolding append_var_int_with_len_def
      by cases (simp, cases "var_int_len v", simp_all add: not_le)
    with False show ?thesis
      by (simp only: option.case not_less de_Morgan_conj)
  qed
  ultimately show ?thesis
    by (simp only: append_var_int_None_iff var_int_len_None_iff)
qed

theorem var_int_encoders_panic_witness:
  "append_var_int_with_len [] 0x1234 4 = Some [0x80, 0, 0x12, 0x34]
   \<and> is_varint [0x80, 0, 0x12, 0x34] 0x1234"
proof -
  have "append_var_int_with_len [] 0x1234 4 = Some [0x80, 0, 0x12, 0x34]"
    by (simp add: append_var_int_with_len_def var_int_len_def max_varint_defs upt_rec)
  with var_int_encoders_panic [of "[]" "0x1234" 4] show ?thesis
    by simp
qed

text \<open>
  SSH strings round trip: \<^verbatim>\<open>append_ssh_bytes\<close> panics on no string a reader accepts,
  \<^verbatim>\<open>ssh_string_len\<close> is the length of what it appends, and \<^verbatim>\<open>read_ssh_bytes\<close> returns the string
  from any source and stops right behind it.
\<close>

theorem ssh_bytes_roundtrip:
  assumes "byte_source rd view adv eof" and "length bs \<le> 16 * 1024 * 1024"
  shows "\<exists>enc. append_ssh_bytes out bs = Some (out @ enc) \<and> ssh_string_len bs = Some (length enc)
    \<and> (\<forall>s rest. view s = enc @ rest \<longrightarrow> read_ssh_bytes rd s = (Ok bs, adv (length enc) s))"
proof -
  have ok: "ssh_string_ok bs"
    using assms(2) by (simp add: ssh_string_ok_def MAX_SSH_STRING_LEN_def)
  from byte_source.parses_ssh_bytes [OF assms(1) ok] append_ssh_bytes_eq [OF ssh_string_ok_le [OF ok]]
  show ?thesis
    by (intro exI [of _ "ssh_bytes_enc bs"]) (auto simp: parses_def)
qed

theorem ssh_bytes_roundtrip_witness:
  "read_ssh_bytes cursor_read_exact (cursor_new [2, 104, 105, 33])
     = (Ok [104, 105], cursor_adv 3 (cursor_new [2, 104, 105, 33]))"
proof -
  have "append_ssh_bytes [] [104, 105] = Some [2, 104, 105]"
    by (simp add: append_ssh_bytes_def append_var_int_def max_varint_defs)
  with ssh_bytes_roundtrip [OF cur.byte_source_axioms, of "[104, 105]" "[]"]
  show ?thesis
    by (simp add: cursor_view_def cursor_new_def numeral_3_eq_3)
qed

text \<open>
  A declared length above 16 MiB is refused before any byte of the string is read or
  allocated: \<^verbatim>\<open>read_ssh_bytes\<close> returns \<^verbatim>\<open>InvalidLength\<close> with that length and has consumed the
  length prefix only. Every string it does return has at most 16 MiB.
\<close>

theorem oversized_ssh_bytes_refused:
  assumes "byte_source rd view adv eof"
  shows "(is_varint enc n \<and> n > 16 * 1024 * 1024 \<and> view s = enc @ rest
      \<longrightarrow> read_ssh_bytes rd s = (Err (InvalidLength (of_nat n)), adv (length enc) s))
    \<and> (read_ssh_bytes rd t = (Ok bs, t') \<longrightarrow> length bs \<le> 16 * 1024 * 1024)"
proof (intro conjI impI)
  assume n: "is_varint enc n \<and> n > 16 * 1024 * 1024 \<and> view s = enc @ rest"
  then have "MAX_SSH_STRING_LEN < of_nat n"
    using is_varint_le_MAX [of enc n]
    by (simp add: word_less_nat_alt unsigned_of_nat take_bit_eq_mod max_varint_defs
        MAX_SSH_STRING_LEN_def)
  with n parsesD [OF byte_source.parses_is_varint [OF assms], of enc n s rest]
  show "read_ssh_bytes rd s = (Err (InvalidLength (of_nat n)), adv (length enc) s)"
    by (simp add: read_ssh_bytes_def rbind_def checked_ssh_string_length_def rlift_def rfail_def)
next
  assume "read_ssh_bytes rd t = (Ok bs, t')"
  with byte_source.yields_read_ssh_bytes [OF assms] have "ssh_string_ok bs"
    by (auto simp: yields_def)
  then show "length bs \<le> 16 * 1024 * 1024"
    by (simp add: ssh_string_ok_def MAX_SSH_STRING_LEN_def)
qed

theorem oversized_ssh_bytes_refused_witness:
  "read_ssh_bytes cursor_read_exact (cursor_new [0x81, 0, 0, 1, 9])
     = (Err (InvalidLength 16777217), cursor_adv 4 (cursor_new [0x81, 0, 0, 1, 9]))"
proof -
  have "is_varint [0x81, 0, 0, 1] 16777217"
    by (simp add: is_varint_def varint_width_def varint_value_def)
  with oversized_ssh_bytes_refused [OF cur.byte_source_axioms, of "[0x81, 0, 0, 1]" 16777217
      "cursor_new [0x81, 0, 0, 1, 9]" "[9]"]
  show ?thesis
    by (simp add: cursor_view_def cursor_new_def cursor_adv_def)
qed

end
