(* ===== verification/Ssh_Message.thy ===== *)
theory Ssh_Message
  imports Wire
begin

text \<open>
  The channel messages of \<^verbatim>\<open>crates/ssh3-proto/src/message.rs\<close>: one record per message and
  request struct, one datatype per enum, and for each its parser, its encoder and the length the
  encoder announces. The specification of an encoding is a list of fields; a message is read
  back field by field.
\<close>

section \<open>Message numbers\<close>

definition SSH_MSG_DISCONNECT :: u64 where "SSH_MSG_DISCONNECT = 1"
definition SSH_MSG_IGNORE :: u64 where "SSH_MSG_IGNORE = 2"
definition SSH_MSG_UNIMPLEMENTED :: u64 where "SSH_MSG_UNIMPLEMENTED = 3"
definition SSH_MSG_DEBUG :: u64 where "SSH_MSG_DEBUG = 4"
definition SSH_MSG_SERVICE_REQUEST :: u64 where "SSH_MSG_SERVICE_REQUEST = 5"
definition SSH_MSG_SERVICE_ACCEPT :: u64 where "SSH_MSG_SERVICE_ACCEPT = 6"
definition SSH_MSG_KEXINIT :: u64 where "SSH_MSG_KEXINIT = 20"
definition SSH_MSG_NEWKEYS :: u64 where "SSH_MSG_NEWKEYS = 21"
definition SSH_MSG_USERAUTH_REQUEST :: u64 where "SSH_MSG_USERAUTH_REQUEST = 50"
definition SSH_MSG_USERAUTH_FAILURE :: u64 where "SSH_MSG_USERAUTH_FAILURE = 51"
definition SSH_MSG_USERAUTH_SUCCESS :: u64 where "SSH_MSG_USERAUTH_SUCCESS = 52"
definition SSH_MSG_USERAUTH_BANNER :: u64 where "SSH_MSG_USERAUTH_BANNER = 53"
definition SSH_MSG_GLOBAL_REQUEST :: u64 where "SSH_MSG_GLOBAL_REQUEST = 80"
definition SSH_MSG_REQUEST_SUCCESS :: u64 where "SSH_MSG_REQUEST_SUCCESS = 81"
definition SSH_MSG_REQUEST_FAILURE :: u64 where "SSH_MSG_REQUEST_FAILURE = 82"
definition SSH_MSG_CHANNEL_OPEN :: u64 where "SSH_MSG_CHANNEL_OPEN = 90"
definition SSH_MSG_CHANNEL_OPEN_CONFIRMATION :: u64 where "SSH_MSG_CHANNEL_OPEN_CONFIRMATION = 91"
definition SSH_MSG_CHANNEL_OPEN_FAILURE :: u64 where "SSH_MSG_CHANNEL_OPEN_FAILURE = 92"
definition SSH_MSG_CHANNEL_WINDOW_ADJUST :: u64 where "SSH_MSG_CHANNEL_WINDOW_ADJUST = 93"
definition SSH_MSG_CHANNEL_DATA :: u64 where "SSH_MSG_CHANNEL_DATA = 94"
definition SSH_MSG_CHANNEL_EXTENDED_DATA :: u64 where "SSH_MSG_CHANNEL_EXTENDED_DATA = 95"
definition SSH_MSG_CHANNEL_EOF :: u64 where "SSH_MSG_CHANNEL_EOF = 96"
definition SSH_MSG_CHANNEL_CLOSE :: u64 where "SSH_MSG_CHANNEL_CLOSE = 97"
definition SSH_MSG_CHANNEL_REQUEST :: u64 where "SSH_MSG_CHANNEL_REQUEST = 98"
definition SSH_MSG_CHANNEL_SUCCESS :: u64 where "SSH_MSG_CHANNEL_SUCCESS = 99"
definition SSH_MSG_CHANNEL_FAILURE :: u64 where "SSH_MSG_CHANNEL_FAILURE = 100"

definition SSH_EXTENDED_DATA_NONE :: u64 where "SSH_EXTENDED_DATA_NONE = 0"
definition SSH_EXTENDED_DATA_STDERR :: u64 where "SSH_EXTENDED_DATA_STDERR = 1"

lemmas ssh_msg_defs =
  SSH_MSG_CHANNEL_OPEN_CONFIRMATION_def SSH_MSG_CHANNEL_OPEN_FAILURE_def SSH_MSG_CHANNEL_DATA_def
  SSH_MSG_CHANNEL_EXTENDED_DATA_def SSH_MSG_CHANNEL_REQUEST_def SSH_EXTENDED_DATA_NONE_def

section \<open>Addresses and forwarding\<close>

text \<open>\<^verbatim>\<open>IpAddr\<close>: the octets of the address, 4 or 16 of them.\<close>

datatype ip_addr = V4 bytes | V6 bytes

fun octets :: "ip_addr \<Rightarrow> bytes" where
  "octets (V4 a) = a"
| "octets (V6 a) = a"

fun ip_addr_ok :: "ip_addr \<Rightarrow> bool" where
  "ip_addr_ok (V4 a) = (length a = 4)"
| "ip_addr_ok (V6 a) = (length a = 16)"

datatype forwarding_protocol = Udp | Tcp

fun protocol_as_u64 :: "forwarding_protocol \<Rightarrow> u64" where
  "protocol_as_u64 Udp = 0"
| "protocol_as_u64 Tcp = 1"

definition protocol_try_from :: "u64 \<Rightarrow> proto_error + forwarding_protocol" where
  "protocol_try_from v =
     (if v = 0 then Ok Udp else if v = 1 then Ok Tcp else Err (InvalidForwardingProtocol v))"

datatype address_family = Ipv4 | Ipv6

fun octet_len :: "address_family \<Rightarrow> nat" where
  "octet_len Ipv4 = 4"
| "octet_len Ipv6 = 16"

fun family_as_u64 :: "address_family \<Rightarrow> u64" where
  "family_as_u64 Ipv4 = 4"
| "family_as_u64 Ipv6 = 6"

fun from_ip :: "ip_addr \<Rightarrow> address_family" where
  "from_ip (V4 a) = Ipv4"
| "from_ip (V6 a) = Ipv6"

definition family_try_from :: "u64 \<Rightarrow> proto_error + address_family" where
  "family_try_from v =
     (if v = 4 then Ok Ipv4 else if v = 6 then Ok Ipv6 else Err (InvalidAddressFamily v))"

fun ip_of_octets :: "address_family \<Rightarrow> bytes \<Rightarrow> ip_addr" where
  "ip_of_octets Ipv4 os = V4 os"
| "ip_of_octets Ipv6 os = V6 os"

record forwarding_request =
  fwd_protocol :: forwarding_protocol
  fwd_ip_address :: ip_addr
  fwd_port :: u16

definition forwarding_parse :: "'s read_exact_fn \<Rightarrow> ('s, proto_error, forwarding_request) reader" where
  "forwarding_parse rd =
     rbind (read_var_int rd) (\<lambda>p. rbind (rlift (protocol_try_from p)) (\<lambda>protocol.
     rbind (read_var_int rd) (\<lambda>f. rbind (rlift (family_try_from f)) (\<lambda>family.
     rbind (rmap_err Proto_Io (rd (octet_len family))) (\<lambda>os.
     rbind (rmap_err Proto_Io (rd 2)) (\<lambda>port.
     rret \<lparr>fwd_protocol = protocol, fwd_ip_address = ip_of_octets family os,
           fwd_port = u16_from_be_bytes port\<rparr>))))))"

definition forwarding_encoded_len :: "forwarding_request \<Rightarrow> nat option" where
  "forwarding_encoded_len r = (let family = from_ip (fwd_ip_address r) in do {
     a \<leftarrow> var_int_len (protocol_as_u64 (fwd_protocol r));
     b \<leftarrow> var_int_len (family_as_u64 family);
     Some (a + b + octet_len family + 2)
   })"

definition forwarding_encode :: "bytes \<Rightarrow> forwarding_request \<Rightarrow> bytes option" where
  "forwarding_encode out r = (let family = from_ip (fwd_ip_address r) in do {
     out \<leftarrow> append_var_int out (protocol_as_u64 (fwd_protocol r));
     out \<leftarrow> append_var_int out (family_as_u64 family);
     let out = out @ octets (fwd_ip_address r);
     Some (out @ u16_to_be_bytes (fwd_port r))
   })"

section \<open>Channel requests\<close>

record pty_request =
  pty_term :: bytes
  pty_char_width :: u64
  pty_char_height :: u64
  pty_pixel_width :: u64
  pty_pixel_height :: u64
  pty_encoded_terminal_modes :: bytes

definition pty_parse :: "'s read_exact_fn \<Rightarrow> ('s, proto_error, pty_request) reader" where
  "pty_parse rd =
     rbind (read_ssh_bytes rd) (\<lambda>trm.
     rbind (read_var_int rd) (\<lambda>cw.
     rbind (read_var_int rd) (\<lambda>ch.
     rbind (read_var_int rd) (\<lambda>pw.
     rbind (read_var_int rd) (\<lambda>ph.
     rbind (read_ssh_bytes rd) (\<lambda>modes.
     rret \<lparr>pty_term = trm, pty_char_width = cw, pty_char_height = ch, pty_pixel_width = pw,
           pty_pixel_height = ph, pty_encoded_terminal_modes = modes\<rparr>))))))"

definition pty_encoded_len :: "pty_request \<Rightarrow> nat option" where
  "pty_encoded_len r = do {
     a \<leftarrow> ssh_string_len (pty_term r);
     b \<leftarrow> var_int_len (pty_char_width r);
     c \<leftarrow> var_int_len (pty_char_height r);
     d \<leftarrow> var_int_len (pty_pixel_width r);
     e \<leftarrow> var_int_len (pty_pixel_height r);
     f \<leftarrow> ssh_string_len (pty_encoded_terminal_modes r);
     Some (a + b + c + d + e + f)
   }"

definition pty_encode :: "bytes \<Rightarrow> pty_request \<Rightarrow> bytes option" where
  "pty_encode out r = do {
     out \<leftarrow> append_ssh_bytes out (pty_term r);
     out \<leftarrow> append_var_int out (pty_char_width r);
     out \<leftarrow> append_var_int out (pty_char_height r);
     out \<leftarrow> append_var_int out (pty_pixel_width r);
     out \<leftarrow> append_var_int out (pty_pixel_height r);
     append_ssh_bytes out (pty_encoded_terminal_modes r)
   }"

record x11_request =
  x11_single_connection :: bool
  x11_authentication_protocol :: bytes
  x11_authentication_cookie :: bytes
  x11_screen_number :: u64

definition x11_parse :: "'s read_exact_fn \<Rightarrow> ('s, proto_error, x11_request) reader" where
  "x11_parse rd =
     rbind (read_bool rd) (\<lambda>single.
     rbind (read_ssh_bytes rd) (\<lambda>protocol.
     rbind (read_ssh_bytes rd) (\<lambda>cookie.
     rbind (read_var_int rd) (\<lambda>screen.
     rret \<lparr>x11_single_connection = single, x11_authentication_protocol = protocol,
           x11_authentication_cookie = cookie, x11_screen_number = screen\<rparr>))))"

definition x11_encoded_len :: "x11_request \<Rightarrow> nat option" where
  "x11_encoded_len r = do {
     a \<leftarrow> ssh_string_len (x11_authentication_protocol r);
     b \<leftarrow> ssh_string_len (x11_authentication_cookie r);
     c \<leftarrow> var_int_len (x11_screen_number r);
     Some (1 + a + b + c)
   }"

definition x11_encode :: "bytes \<Rightarrow> x11_request \<Rightarrow> bytes option" where
  "x11_encode out r = do {
     let out = write_bool out (x11_single_connection r);
     out \<leftarrow> append_ssh_bytes out (x11_authentication_protocol r);
     out \<leftarrow> append_ssh_bytes out (x11_authentication_cookie r);
     append_var_int out (x11_screen_number r)
   }"

record exec_request =
  exec_command :: bytes

definition exec_parse :: "'s read_exact_fn \<Rightarrow> ('s, proto_error, exec_request) reader" where
  "exec_parse rd = rbind (read_ssh_bytes rd) (\<lambda>command. rret \<lparr>exec_command = command\<rparr>)"

definition exec_encoded_len :: "exec_request \<Rightarrow> nat option" where
  "exec_encoded_len r = ssh_string_len (exec_command r)"

definition exec_encode :: "bytes \<Rightarrow> exec_request \<Rightarrow> bytes option" where
  "exec_encode out r = append_ssh_bytes out (exec_command r)"

record subsystem_request =
  subsystem_name :: bytes

definition subsystem_parse :: "'s read_exact_fn \<Rightarrow> ('s, proto_error, subsystem_request) reader" where
  "subsystem_parse rd = rbind (read_ssh_bytes rd) (\<lambda>name. rret \<lparr>subsystem_name = name\<rparr>)"

definition subsystem_encoded_len :: "subsystem_request \<Rightarrow> nat option" where
  "subsystem_encoded_len r = ssh_string_len (subsystem_name r)"

definition subsystem_encode :: "bytes \<Rightarrow> subsystem_request \<Rightarrow> bytes option" where
  "subsystem_encode out r = append_ssh_bytes out (subsystem_name r)"

record window_change_request =
  win_char_width :: u64
  win_char_height :: u64
  win_pixel_width :: u64
  win_pixel_height :: u64

definition window_change_parse ::
    "'s read_exact_fn \<Rightarrow> ('s, proto_error, window_change_request) reader" where
  "window_change_parse rd =
     rbind (read_var_int rd) (\<lambda>cw.
     rbind (read_var_int rd) (\<lambda>ch.
     rbind (read_var_int rd) (\<lambda>pw.
     rbind (read_var_int rd) (\<lambda>ph.
     rret \<lparr>win_char_width = cw, win_char_height = ch, win_pixel_width = pw,
           win_pixel_height = ph\<rparr>))))"

definition window_change_encoded_len :: "window_change_request \<Rightarrow> nat option" where
  "window_change_encoded_len r = do {
     a \<leftarrow> var_int_len (win_char_width r);
     b \<leftarrow> var_int_len (win_char_height r);
     c \<leftarrow> var_int_len (win_pixel_width r);
     d \<leftarrow> var_int_len (win_pixel_height r);
     Some (a + b + c + d)
   }"

definition window_change_encode :: "bytes \<Rightarrow> window_change_request \<Rightarrow> bytes option" where
  "window_change_encode out r = do {
     out \<leftarrow> append_var_int out (win_char_width r);
     out \<leftarrow> append_var_int out (win_char_height r);
     out \<leftarrow> append_var_int out (win_pixel_width r);
     append_var_int out (win_pixel_height r)
   }"

record signal_request =
  sig_name_without_sig :: bytes

definition signal_parse :: "'s read_exact_fn \<Rightarrow> ('s, proto_error, signal_request) reader" where
  "signal_parse rd = rbind (read_ssh_bytes rd) (\<lambda>name. rret \<lparr>sig_name_without_sig = name\<rparr>)"

definition signal_encoded_len :: "signal_request \<Rightarrow> nat option" where
  "signal_encoded_len r = ssh_string_len (sig_name_without_sig r)"

definition signal_encode :: "bytes \<Rightarrow> signal_request \<Rightarrow> bytes option" where
  "signal_encode out r = append_ssh_bytes out (sig_name_without_sig r)"

record exit_status_request =
  exit_status :: u64

definition exit_status_parse :: "'s read_exact_fn \<Rightarrow> ('s, proto_error, exit_status_request) reader" where
  "exit_status_parse rd = rbind (read_var_int rd) (\<lambda>st. rret \<lparr>exit_status = st\<rparr>)"

definition exit_status_encoded_len :: "exit_status_request \<Rightarrow> nat option" where
  "exit_status_encoded_len r = var_int_len (exit_status r)"

definition exit_status_encode :: "bytes \<Rightarrow> exit_status_request \<Rightarrow> bytes option" where
  "exit_status_encode out r = append_var_int out (exit_status r)"

record exit_signal_request =
  exs_signal_name_without_sig :: bytes
  exs_core_dumped :: bool
  exs_error_message_utf8 :: bytes
  exs_language_tag :: bytes

definition exit_signal_parse :: "'s read_exact_fn \<Rightarrow> ('s, proto_error, exit_signal_request) reader" where
  "exit_signal_parse rd =
     rbind (read_ssh_bytes rd) (\<lambda>name.
     rbind (read_bool rd) (\<lambda>core.
     rbind (read_ssh_bytes rd) (\<lambda>msg.
     rbind (read_ssh_bytes rd) (\<lambda>lang.
     rret \<lparr>exs_signal_name_without_sig = name, exs_core_dumped = core,
           exs_error_message_utf8 = msg, exs_language_tag = lang\<rparr>))))"

definition exit_signal_encoded_len :: "exit_signal_request \<Rightarrow> nat option" where
  "exit_signal_encoded_len r = do {
     a \<leftarrow> ssh_string_len (exs_signal_name_without_sig r);
     b \<leftarrow> ssh_string_len (exs_error_message_utf8 r);
     c \<leftarrow> ssh_string_len (exs_language_tag r);
     Some (a + 1 + b + c)
   }"

definition exit_signal_encode :: "bytes \<Rightarrow> exit_signal_request \<Rightarrow> bytes option" where
  "exit_signal_encode out r = do {
     out \<leftarrow> append_ssh_bytes out (exs_signal_name_without_sig r);
     let out = write_bool out (exs_core_dumped r);
     out \<leftarrow> append_ssh_bytes out (exs_error_message_utf8 r);
     append_ssh_bytes out (exs_language_tag r)
   }"

datatype channel_request =
    Pty pty_request
  | X11 x11_request
  | Shell
  | Exec exec_request
  | Subsystem subsystem_request
  | WindowChange window_change_request
  | Signal signal_request
  | ExitStatus exit_status_request
  | ExitSignal exit_signal_request
  | ForwardPort forwarding_request

definition channel_request_parse ::
    "'s read_exact_fn \<Rightarrow> bytes \<Rightarrow> ('s, proto_error, channel_request) reader" where
  "channel_request_parse rd request_type =
     (if request_type = bstr ''pty-req'' then rbind (pty_parse rd) (\<lambda>r. rret (Pty r))
      else if request_type = bstr ''x11-req'' then rbind (x11_parse rd) (\<lambda>r. rret (X11 r))
      else if request_type = bstr ''shell'' then rret Shell
      else if request_type = bstr ''exec'' then rbind (exec_parse rd) (\<lambda>r. rret (Exec r))
      else if request_type = bstr ''subsystem'' then
        rbind (subsystem_parse rd) (\<lambda>r. rret (Subsystem r))
      else if request_type = bstr ''window-change'' then
        rbind (window_change_parse rd) (\<lambda>r. rret (WindowChange r))
      else if request_type = bstr ''signal'' then rbind (signal_parse rd) (\<lambda>r. rret (Signal r))
      else if request_type = bstr ''exit-status'' then
        rbind (exit_status_parse rd) (\<lambda>r. rret (ExitStatus r))
      else if request_type = bstr ''exit-signal'' then
        rbind (exit_signal_parse rd) (\<lambda>r. rret (ExitSignal r))
      else if request_type = bstr ''forward-port'' then
        rbind (forwarding_parse rd) (\<lambda>r. rret (ForwardPort r))
      else rfail (UnknownRequestType request_type))"

fun request_type :: "channel_request \<Rightarrow> bytes" where
  "request_type (Pty _) = bstr ''pty-req''"
| "request_type (X11 _) = bstr ''x11-req''"
| "request_type Shell = bstr ''shell''"
| "request_type (Exec _) = bstr ''exec''"
| "request_type (Subsystem _) = bstr ''subsystem''"
| "request_type (WindowChange _) = bstr ''window-change''"
| "request_type (Signal _) = bstr ''signal''"
| "request_type (ExitStatus _) = bstr ''exit-status''"
| "request_type (ExitSignal _) = bstr ''exit-signal''"
| "request_type (ForwardPort _) = bstr ''forward-port''"

fun encoded_payload_len :: "channel_request \<Rightarrow> nat option" where
  "encoded_payload_len (Pty r) = pty_encoded_len r"
| "encoded_payload_len (X11 r) = x11_encoded_len r"
| "encoded_payload_len Shell = Some 0"
| "encoded_payload_len (Exec r) = exec_encoded_len r"
| "encoded_payload_len (Subsystem r) = subsystem_encoded_len r"
| "encoded_payload_len (WindowChange r) = window_change_encoded_len r"
| "encoded_payload_len (Signal r) = signal_encoded_len r"
| "encoded_payload_len (ExitStatus r) = exit_status_encoded_len r"
| "encoded_payload_len (ExitSignal r) = exit_signal_encoded_len r"
| "encoded_payload_len (ForwardPort r) = forwarding_encoded_len r"

fun encode_payload :: "bytes \<Rightarrow> channel_request \<Rightarrow> bytes option" where
  "encode_payload out (Pty r) = pty_encode out r"
| "encode_payload out (X11 r) = x11_encode out r"
| "encode_payload out Shell = Some out"
| "encode_payload out (Exec r) = exec_encode out r"
| "encode_payload out (Subsystem r) = subsystem_encode out r"
| "encode_payload out (WindowChange r) = window_change_encode out r"
| "encode_payload out (Signal r) = signal_encode out r"
| "encode_payload out (ExitStatus r) = exit_status_encode out r"
| "encode_payload out (ExitSignal r) = exit_signal_encode out r"
| "encode_payload out (ForwardPort r) = forwarding_encode out r"

section \<open>Messages\<close>

record channel_request_message =
  want_reply :: bool
  request :: channel_request

record channel_open_confirmation_message =
  conf_max_packet_size :: u64

record channel_open_failure_message =
  reason_code :: u64
  fail_error_message_utf8 :: bytes
  fail_language_tag :: bytes

record data_message =
  data_type :: u64
  data :: bytes

datatype message =
    ChannelRequest channel_request_message
  | ChannelOpenConfirmation channel_open_confirmation_message
  | ChannelOpenFailure channel_open_failure_message
  | Data data_message

definition request_parse_payload ::
    "'s read_exact_fn \<Rightarrow> ('s, proto_error, channel_request_message) reader" where
  "request_parse_payload rd =
     rbind (read_ssh_bytes rd) (\<lambda>request_type.
     rbind (read_bool rd) (\<lambda>reply.
     rbind (channel_request_parse rd request_type) (\<lambda>req.
     rret \<lparr>want_reply = reply, request = req\<rparr>)))"

definition confirmation_parse_payload ::
    "'s read_exact_fn \<Rightarrow> ('s, proto_error, channel_open_confirmation_message) reader" where
  "confirmation_parse_payload rd =
     rbind (read_var_int rd) (\<lambda>n. rret \<lparr>conf_max_packet_size = n\<rparr>)"

definition failure_parse_payload ::
    "'s read_exact_fn \<Rightarrow> ('s, proto_error, channel_open_failure_message) reader" where
  "failure_parse_payload rd =
     rbind (read_var_int rd) (\<lambda>code.
     rbind (read_ssh_bytes rd) (\<lambda>msg.
     rbind (read_ssh_bytes rd) (\<lambda>lang.
     rret \<lparr>reason_code = code, fail_error_message_utf8 = msg, fail_language_tag = lang\<rparr>)))"

definition parse_data_payload :: "'s read_exact_fn \<Rightarrow> ('s, proto_error, data_message) reader" where
  "parse_data_payload rd =
     rbind (read_ssh_bytes rd) (\<lambda>d. rret \<lparr>data_type = SSH_EXTENDED_DATA_NONE, data = d\<rparr>)"

definition parse_extended_payload :: "'s read_exact_fn \<Rightarrow> ('s, proto_error, data_message) reader" where
  "parse_extended_payload rd =
     rbind (read_var_int rd) (\<lambda>ty.
     rbind (read_ssh_bytes rd) (\<lambda>d. rret \<lparr>data_type = ty, data = d\<rparr>))"

definition message_parse :: "'s read_exact_fn \<Rightarrow> ('s, proto_error, message) reader" where
  "message_parse rd = rbind (read_var_int rd) (\<lambda>kind.
     if kind = SSH_MSG_CHANNEL_REQUEST then
       rbind (request_parse_payload rd) (\<lambda>m. rret (ChannelRequest m))
     else if kind = SSH_MSG_CHANNEL_OPEN_CONFIRMATION then
       rbind (confirmation_parse_payload rd) (\<lambda>m. rret (ChannelOpenConfirmation m))
     else if kind = SSH_MSG_CHANNEL_OPEN_FAILURE then
       rbind (failure_parse_payload rd) (\<lambda>m. rret (ChannelOpenFailure m))
     else if kind = SSH_MSG_CHANNEL_DATA then
       rbind (parse_data_payload rd) (\<lambda>m. rret (Data m))
     else if kind = SSH_MSG_CHANNEL_EXTENDED_DATA then
       rbind (parse_extended_payload rd) (\<lambda>m. rret (Data m))
     else rfail (UnknownMessageType kind))"

definition request_encoded_len :: "channel_request_message \<Rightarrow> nat option" where
  "request_encoded_len m = do {
     a \<leftarrow> var_int_len SSH_MSG_CHANNEL_REQUEST;
     b \<leftarrow> ssh_string_len (request_type (request m));
     c \<leftarrow> encoded_payload_len (request m);
     Some (a + b + 1 + c)
   }"

definition request_encode :: "bytes \<Rightarrow> channel_request_message \<Rightarrow> bytes option" where
  "request_encode out m = do {
     out \<leftarrow> append_var_int out SSH_MSG_CHANNEL_REQUEST;
     out \<leftarrow> append_ssh_bytes out (request_type (request m));
     let out = write_bool out (want_reply m);
     encode_payload out (request m)
   }"

definition confirmation_encoded_len :: "channel_open_confirmation_message \<Rightarrow> nat option" where
  "confirmation_encoded_len m = do {
     a \<leftarrow> var_int_len SSH_MSG_CHANNEL_OPEN_CONFIRMATION;
     b \<leftarrow> var_int_len (conf_max_packet_size m);
     Some (a + b)
   }"

definition confirmation_encode :: "bytes \<Rightarrow> channel_open_confirmation_message \<Rightarrow> bytes option" where
  "confirmation_encode out m = do {
     out \<leftarrow> append_var_int out SSH_MSG_CHANNEL_OPEN_CONFIRMATION;
     append_var_int out (conf_max_packet_size m)
   }"

definition failure_encoded_len :: "channel_open_failure_message \<Rightarrow> nat option" where
  "failure_encoded_len m = do {
     a \<leftarrow> var_int_len SSH_MSG_CHANNEL_OPEN_FAILURE;
     b \<leftarrow> var_int_len (reason_code m);
     c \<leftarrow> ssh_string_len (fail_error_message_utf8 m);
     d \<leftarrow> ssh_string_len (fail_language_tag m);
     Some (a + b + c + d)
   }"

definition failure_encode :: "bytes \<Rightarrow> channel_open_failure_message \<Rightarrow> bytes option" where
  "failure_encode out m = do {
     out \<leftarrow> append_var_int out SSH_MSG_CHANNEL_OPEN_FAILURE;
     out \<leftarrow> append_var_int out (reason_code m);
     out \<leftarrow> append_ssh_bytes out (fail_error_message_utf8 m);
     append_ssh_bytes out (fail_language_tag m)
   }"

definition data_encoded_len :: "data_message \<Rightarrow> nat option" where
  "data_encoded_len m =
     (if data_type m = SSH_EXTENDED_DATA_NONE then do {
        a \<leftarrow> var_int_len SSH_MSG_CHANNEL_DATA;
        b \<leftarrow> ssh_string_len (data m);
        Some (a + b)
      } else do {
        a \<leftarrow> var_int_len SSH_MSG_CHANNEL_EXTENDED_DATA;
        b \<leftarrow> var_int_len (data_type m);
        c \<leftarrow> ssh_string_len (data m);
        Some (a + b + c)
      })"

definition data_encode :: "bytes \<Rightarrow> data_message \<Rightarrow> bytes option" where
  "data_encode out m = do {
     out \<leftarrow> (if data_type m = SSH_EXTENDED_DATA_NONE then append_var_int out SSH_MSG_CHANNEL_DATA
            else do {
              out \<leftarrow> append_var_int out SSH_MSG_CHANNEL_EXTENDED_DATA;
              append_var_int out (data_type m)
            });
     append_ssh_bytes out (data m)
   }"

fun encoded_len :: "message \<Rightarrow> nat option" where
  "encoded_len (ChannelRequest m) = request_encoded_len m"
| "encoded_len (ChannelOpenConfirmation m) = confirmation_encoded_len m"
| "encoded_len (ChannelOpenFailure m) = failure_encoded_len m"
| "encoded_len (Data m) = data_encoded_len m"

fun encode :: "bytes \<Rightarrow> message \<Rightarrow> bytes option" where
  "encode out (ChannelRequest m) = request_encode out m"
| "encode out (ChannelOpenConfirmation m) = confirmation_encode out m"
| "encode out (ChannelOpenFailure m) = failure_encode out m"
| "encode out (Data m) = data_encode out m"

definition to_vec :: "message \<Rightarrow> bytes option" where
  "to_vec m = do { _ \<leftarrow> encoded_len m; encode [] m }"

section \<open>Specification: messages as lists of fields\<close>

abbreviation varint_ok :: "u64 \<Rightarrow> bool" where
  "varint_ok v \<equiv> v \<le> MAX_VARINT"

definition bool_byte :: "bool \<Rightarrow> bytes" where
  "bool_byte b = [if b then 1 else 0]"

fun payload_fields :: "channel_request \<Rightarrow> bytes list" where
  "payload_fields (Pty r) =
     [ssh_bytes_enc (pty_term r), var_int_bytes (pty_char_width r), var_int_bytes (pty_char_height r),
      var_int_bytes (pty_pixel_width r), var_int_bytes (pty_pixel_height r),
      ssh_bytes_enc (pty_encoded_terminal_modes r)]"
| "payload_fields (X11 r) =
     [bool_byte (x11_single_connection r), ssh_bytes_enc (x11_authentication_protocol r),
      ssh_bytes_enc (x11_authentication_cookie r), var_int_bytes (x11_screen_number r)]"
| "payload_fields Shell = []"
| "payload_fields (Exec r) = [ssh_bytes_enc (exec_command r)]"
| "payload_fields (Subsystem r) = [ssh_bytes_enc (subsystem_name r)]"
| "payload_fields (WindowChange r) =
     [var_int_bytes (win_char_width r), var_int_bytes (win_char_height r),
      var_int_bytes (win_pixel_width r), var_int_bytes (win_pixel_height r)]"
| "payload_fields (Signal r) = [ssh_bytes_enc (sig_name_without_sig r)]"
| "payload_fields (ExitStatus r) = [var_int_bytes (exit_status r)]"
| "payload_fields (ExitSignal r) =
     [ssh_bytes_enc (exs_signal_name_without_sig r), bool_byte (exs_core_dumped r),
      ssh_bytes_enc (exs_error_message_utf8 r), ssh_bytes_enc (exs_language_tag r)]"
| "payload_fields (ForwardPort r) =
     [var_int_bytes (protocol_as_u64 (fwd_protocol r)),
      var_int_bytes (family_as_u64 (from_ip (fwd_ip_address r))),
      octets (fwd_ip_address r), u16_to_be_bytes (fwd_port r)]"

fun message_fields :: "message \<Rightarrow> bytes list" where
  "message_fields (ChannelRequest m) =
     [var_int_bytes 98, ssh_bytes_enc (request_type (request m)), bool_byte (want_reply m),
      concat (payload_fields (request m))]"
| "message_fields (ChannelOpenConfirmation m) =
     [var_int_bytes 91, var_int_bytes (conf_max_packet_size m)]"
| "message_fields (ChannelOpenFailure m) =
     [var_int_bytes 92, var_int_bytes (reason_code m), ssh_bytes_enc (fail_error_message_utf8 m),
      ssh_bytes_enc (fail_language_tag m)]"
| "message_fields (Data m) =
     (if data_type m = 0 then [var_int_bytes 94, ssh_bytes_enc (data m)]
      else [var_int_bytes 95, var_int_bytes (data_type m), ssh_bytes_enc (data m)])"

text \<open>What a message must satisfy to be on the wire: integers below \<open>2 ^ 62\<close>, strings of at most
  16 MiB, addresses with as many octets as their family has.\<close>

fun payload_ok :: "channel_request \<Rightarrow> bool" where
  "payload_ok (Pty r) \<longleftrightarrow>
     ssh_string_ok (pty_term r) \<and> varint_ok (pty_char_width r) \<and> varint_ok (pty_char_height r)
     \<and> varint_ok (pty_pixel_width r) \<and> varint_ok (pty_pixel_height r)
     \<and> ssh_string_ok (pty_encoded_terminal_modes r)"
| "payload_ok (X11 r) \<longleftrightarrow>
     ssh_string_ok (x11_authentication_protocol r) \<and> ssh_string_ok (x11_authentication_cookie r)
     \<and> varint_ok (x11_screen_number r)"
| "payload_ok Shell \<longleftrightarrow> True"
| "payload_ok (Exec r) \<longleftrightarrow> ssh_string_ok (exec_command r)"
| "payload_ok (Subsystem r) \<longleftrightarrow> ssh_string_ok (subsystem_name r)"
| "payload_ok (WindowChange r) \<longleftrightarrow>
     varint_ok (win_char_width r) \<and> varint_ok (win_char_height r) \<and> varint_ok (win_pixel_width r)
     \<and> varint_ok (win_pixel_height r)"
| "payload_ok (Signal r) \<longleftrightarrow> ssh_string_ok (sig_name_without_sig r)"
| "payload_ok (ExitStatus r) \<longleftrightarrow> varint_ok (exit_status r)"
| "payload_ok (ExitSignal r) \<longleftrightarrow>
     ssh_string_ok (exs_signal_name_without_sig r) \<and> ssh_string_ok (exs_error_message_utf8 r)
     \<and> ssh_string_ok (exs_language_tag r)"
| "payload_ok (ForwardPort r) \<longleftrightarrow> ip_addr_ok (fwd_ip_address r)"

fun message_ok :: "message \<Rightarrow> bool" where
  "message_ok (ChannelRequest m) \<longleftrightarrow> payload_ok (request m)"
| "message_ok (ChannelOpenConfirmation m) \<longleftrightarrow> varint_ok (conf_max_packet_size m)"
| "message_ok (ChannelOpenFailure m) \<longleftrightarrow>
     varint_ok (reason_code m) \<and> ssh_string_ok (fail_error_message_utf8 m)
     \<and> ssh_string_ok (fail_language_tag m)"
| "message_ok (Data m) \<longleftrightarrow> varint_ok (data_type m) \<and> ssh_string_ok (data m)"

section \<open>Encoders write the fields\<close>

lemma protocol_try_from_as_u64 [simp]: "protocol_try_from (protocol_as_u64 p) = Ok p"
  by (cases p) (simp_all add: protocol_try_from_def)

lemma family_try_from_as_u64 [simp]: "family_try_from (family_as_u64 f) = Ok f"
  by (cases f) (simp_all add: family_try_from_def)

lemma small_varint_ok [simp]:
  "varint_ok (protocol_as_u64 p)" "varint_ok (family_as_u64 f)"
  "varint_ok 90" "varint_ok 91" "varint_ok 92" "varint_ok 94" "varint_ok 95" "varint_ok 98"
  by (cases p; cases f; simp add: max_varint_defs)+

lemma ip_of_octets_octets [simp]: "ip_of_octets (from_ip ip) (octets ip) = ip"
  by (cases ip) simp_all

lemma length_octets: "ip_addr_ok ip \<Longrightarrow> length (octets ip) = octet_len (from_ip ip)"
  by (cases ip) simp_all

lemma ip_of_octets_ok: "length os = octet_len f \<Longrightarrow> ip_addr_ok (ip_of_octets f os)"
  by (cases f) simp_all

lemma append_ssh_bytes_ok:
  "ssh_string_ok bs \<Longrightarrow> append_ssh_bytes out bs = Some (out @ ssh_bytes_enc bs)"
  "ssh_string_ok bs \<Longrightarrow> ssh_string_len bs = Some (length (ssh_bytes_enc bs))"
  by (simp_all add: append_ssh_bytes_eq ssh_string_ok_le)

lemma write_bool_eq: "write_bool out b = out @ bool_byte b"
  by (simp add: write_bool_def bool_byte_def)

lemma length_bool_byte [simp]: "length (bool_byte b) = 1"
  by (simp add: bool_byte_def)

lemmas encode_simps =
  append_ssh_bytes_ok append_var_int_eq var_int_len_eq write_bool_eq length_octets

lemmas payload_encode_defs =
  pty_encode_def pty_encoded_len_def x11_encode_def x11_encoded_len_def exec_encode_def
  exec_encoded_len_def subsystem_encode_def subsystem_encoded_len_def window_change_encode_def
  window_change_encoded_len_def signal_encode_def signal_encoded_len_def exit_status_encode_def
  exit_status_encoded_len_def exit_signal_encode_def exit_signal_encoded_len_def
  forwarding_encode_def forwarding_encoded_len_def

lemma encode_payload_fields:
  assumes "payload_ok r"
  shows "encode_payload out r = Some (out @ concat (payload_fields r))"
    and "encoded_payload_len r = Some (length (concat (payload_fields r)))"
  using assms by (cases r; simp add: payload_encode_defs encode_simps Let_def)+

lemma ssh_string_ok_request_type [simp]: "ssh_string_ok (request_type r)"
  by (cases r) (simp_all add: ssh_string_ok_def MAX_SSH_STRING_LEN_def)

lemmas message_encode_defs =
  request_encode_def request_encoded_len_def confirmation_encode_def confirmation_encoded_len_def
  failure_encode_def failure_encoded_len_def data_encode_def data_encoded_len_def

lemma encode_message_fields:
  assumes "message_ok m"
  shows "encode out m = Some (out @ concat (message_fields m))"
    and "encoded_len m = Some (length (concat (message_fields m)))"
proof -
  note defs = message_encode_defs encode_simps encode_payload_fields ssh_msg_defs Let_def
  show "encode out m = Some (out @ concat (message_fields m))"
    using assms by (cases m) (simp_all add: defs)
  show "encoded_len m = Some (length (concat (message_fields m)))"
    using assms by (cases m) (simp_all add: defs)
qed

section \<open>Parsers read the fields back\<close>

lemmas payload_parse_defs =
  pty_parse_def x11_parse_def exec_parse_def subsystem_parse_def window_change_parse_def
  signal_parse_def exit_status_parse_def exit_signal_parse_def

text \<open>The branches of \<^verbatim>\<open>Message::parse\<close> after the message number.\<close>

abbreviation message_body :: "'s read_exact_fn \<Rightarrow> u64 \<Rightarrow> ('s, proto_error, message) reader" where
  "message_body rd kind \<equiv>
     if kind = SSH_MSG_CHANNEL_REQUEST then
       rbind (request_parse_payload rd) (\<lambda>m. rret (ChannelRequest m))
     else if kind = SSH_MSG_CHANNEL_OPEN_CONFIRMATION then
       rbind (confirmation_parse_payload rd) (\<lambda>m. rret (ChannelOpenConfirmation m))
     else if kind = SSH_MSG_CHANNEL_OPEN_FAILURE then
       rbind (failure_parse_payload rd) (\<lambda>m. rret (ChannelOpenFailure m))
     else if kind = SSH_MSG_CHANNEL_DATA then
       rbind (parse_data_payload rd) (\<lambda>m. rret (Data m))
     else if kind = SSH_MSG_CHANNEL_EXTENDED_DATA then
       rbind (parse_extended_payload rd) (\<lambda>m. rret (Data m))
     else rfail (UnknownMessageType kind)"

lemma message_body_simps:
  "message_body rd 98 = rbind (read_ssh_bytes rd) (\<lambda>t. rbind (read_bool rd) (\<lambda>reply.
     rbind (channel_request_parse rd t) (\<lambda>req.
     rret (ChannelRequest \<lparr>want_reply = reply, request = req\<rparr>))))"
  "message_body rd 91 = rbind (read_var_int rd) (\<lambda>n.
     rret (ChannelOpenConfirmation \<lparr>conf_max_packet_size = n\<rparr>))"
  "message_body rd 92 = rbind (read_var_int rd) (\<lambda>code. rbind (read_ssh_bytes rd) (\<lambda>msg.
     rbind (read_ssh_bytes rd) (\<lambda>lang. rret (ChannelOpenFailure
       \<lparr>reason_code = code, fail_error_message_utf8 = msg, fail_language_tag = lang\<rparr>))))"
  "message_body rd 94 = rbind (read_ssh_bytes rd) (\<lambda>d. rret (Data \<lparr>data_type = 0, data = d\<rparr>))"
  "message_body rd 95 = rbind (read_var_int rd) (\<lambda>ty. rbind (read_ssh_bytes rd) (\<lambda>d.
     rret (Data \<lparr>data_type = ty, data = d\<rparr>)))"
  by (simp_all add: ssh_msg_defs request_parse_payload_def confirmation_parse_payload_def
      failure_parse_payload_def parse_data_payload_def parse_extended_payload_def rbind_assoc)

context byte_source
begin

lemma decodes_bool_byte: "decodes view adv eof Proto_Io (read_bool rd) (bool_byte b) b"
  unfolding bool_byte_def by (rule decodes_bool)

lemmas decodes_fields =
  decodes_rbind_concat [OF decodes_var_int] decodes_rbind_concat [OF decodes_ssh_bytes]
  decodes_rbind_concat [OF decodes_bool_byte] decodes_rret_concat

lemma decodes_forwarding:
  assumes "ip_addr_ok (fwd_ip_address r)"
  shows "decodes view adv eof Proto_Io (forwarding_parse rd) (concat (payload_fields (ForwardPort r))) r"
  unfolding forwarding_parse_def payload_fields.simps
  by (intro decodes_fields decodes_rlift_rbind protocol_try_from_as_u64
      family_try_from_as_u64 small_varint_ok
      decodes_rbind_concat [OF decodes_rmap_err [OF decodes_read_exact]])
    (simp_all add: length_octets [OF assms])+

lemma decodes_payload:
  assumes "payload_ok r"
  shows "decodes view adv eof Proto_Io (channel_request_parse rd (request_type r)) (concat (payload_fields r)) r"
proof (cases r)
  case (ForwardPort f)
  with assms have "decodes view adv eof Proto_Io (forwarding_parse rd) (concat (payload_fields r)) f"
    using decodes_forwarding [of f] by simp
  from decodes_rbind [OF this decodes_rret, of ForwardPort] ForwardPort show ?thesis
    by (simp add: channel_request_parse_def)
qed (use assms in \<open>simp only: channel_request_parse_def payload_parse_defs rbind_assoc rbind_rret
       payload_fields.simps request_type.simps bstr_eq_iff,
     simp only: list.inject char.inject simp_thms if_True if_False,
     intro decodes_fields; simp\<close>)+

lemma decodes_message_body:
  assumes "varint_ok k" "decodes view adv eof Proto_Io (message_body rd k) (concat es) m"
  shows "decodes view adv eof Proto_Io (message_parse rd) (concat (var_int_bytes k # es)) m"
  unfolding message_parse_def
  by (rule decodes_rbind_concat [OF decodes_var_int [OF assms(1)]]) (rule assms(2))

lemma decodes_message:
  assumes "message_ok m"
  shows "decodes view adv eof Proto_Io (message_parse rd) (concat (message_fields m)) m"
proof (cases m)
  case (ChannelRequest r)
  with assms have ok: "payload_ok (request r)"
    by simp
  show ?thesis
    unfolding ChannelRequest message_fields.simps
    by (rule decodes_message_body, simp, subst message_body_simps)
      (intro decodes_fields decodes_rbind_concat [OF decodes_payload [OF ok]]; simp)
next
  case (ChannelOpenConfirmation r)
  with assms show ?thesis
    unfolding ChannelOpenConfirmation message_fields.simps
    by (intro decodes_message_body, simp, subst message_body_simps) (intro decodes_fields; simp)
next
  case (ChannelOpenFailure r)
  with assms show ?thesis
    unfolding ChannelOpenFailure message_fields.simps
    by (intro decodes_message_body, simp, subst message_body_simps) (intro decodes_fields; simp)
next
  case (Data r)
  with assms have ok: "varint_ok (data_type r)" "ssh_string_ok (data r)"
    by simp_all
  have "decodes view adv eof Proto_Io (message_parse rd) (concat [var_int_bytes 94, ssh_bytes_enc (data r)]) m"
    if "data_type r = 0"
    unfolding Data
    by (rule decodes_message_body, simp, subst message_body_simps)
      (intro decodes_fields; use ok that in simp)
  moreover have "decodes view adv eof Proto_Io (message_parse rd)
      (concat [var_int_bytes 95, var_int_bytes (data_type r), ssh_bytes_enc (data r)]) m"
    unfolding Data
    by (rule decodes_message_body, simp, subst message_body_simps) (intro decodes_fields; use ok in simp)
  ultimately show ?thesis
    unfolding Data message_fields.simps by simp
qed

lemmas yields_fields =
  yields_rbind [OF yields_read_var_int] yields_rbind [OF yields_read_ssh_bytes]
  yields_rbind [OF yields_read_bool] yields_rret yields_rfail

lemma yields_forwarding: "yields (forwarding_parse rd) (\<lambda>r. ip_addr_ok (fwd_ip_address r))"
  unfolding forwarding_parse_def protocol_try_from_def family_try_from_def if_distrib [of rlift]
    if_distrib [of "\<lambda>p. rbind p _"] rlift_Inr rlift_Inl rbind_rret rbind_rfail
  by (intro yields_fields yields_if yields_rbind [OF yields_rmap_err [OF yields_read_exact]])
    (auto simp: ip_of_octets_ok)

lemma yields_channel_request: "yields (channel_request_parse rd t) payload_ok"
  unfolding channel_request_parse_def payload_parse_defs rbind_assoc rbind_rret
  by (intro yields_if yields_fields yields_rbind [OF yields_forwarding]) simp_all

lemma yields_message: "yields (message_parse rd) message_ok"
  unfolding message_parse_def request_parse_payload_def confirmation_parse_payload_def
    failure_parse_payload_def parse_data_payload_def parse_extended_payload_def rbind_assoc rbind_rret
  by (intro yields_if yields_fields yields_rbind [OF yields_channel_request])
    (simp_all add: SSH_EXTENDED_DATA_NONE_def)

lemma consumes_channel_request [consume_intros]: "consumes view adv (channel_request_parse rd t)"
  unfolding channel_request_parse_def payload_parse_defs forwarding_parse_def protocol_try_from_def
    family_try_from_def if_distrib [of rlift] rlift_Inr rlift_Inl
  by (intro consume_intros)

lemma progresses_message: "progresses view adv (message_parse rd)"
  unfolding message_parse_def request_parse_payload_def confirmation_parse_payload_def
    failure_parse_payload_def parse_data_payload_def parse_extended_payload_def
  by (intro progresses_rbind [OF progresses_read_var_int] consume_intros)

end

section \<open>Properties of the messages\<close>

text \<open>
  C4: Every well-formed message round trips. \<^verbatim>\<open>to_vec\<close> does not panic, \<^verbatim>\<open>encoded_len\<close> is the
  length of what it returns, and \<^verbatim>\<open>Message::parse\<close> reads the message back from any byte source,
  stopping right behind it.
\<close>

theorem message_roundtrip:
  assumes "byte_source rd view adv eof" and "message_ok m"
  shows "\<exists>enc. to_vec m = Some enc \<and> encode out m = Some (out @ enc)
    \<and> encoded_len m = Some (length enc)
    \<and> (\<forall>s rest. view s = enc @ rest \<longrightarrow> message_parse rd s = (Ok m, adv (length enc) s))"
  using encode_message_fields [OF assms(2)]
    byte_source.decodes_message [OF assms]
  by (intro exI [of _ "concat (message_fields m)"])
    (auto simp: to_vec_def decodes_def dest: parsesD)

theorem message_roundtrip_witness:
  "\<exists>enc. to_vec (ChannelRequest \<lparr>want_reply = True, request = Exec \<lparr>exec_command = bstr ''ls''\<rparr>\<rparr>)
       = Some enc
    \<and> fst (message_parse cursor_read_exact (cursor_new (enc @ [1, 2])))
       = Ok (ChannelRequest \<lparr>want_reply = True, request = Exec \<lparr>exec_command = bstr ''ls''\<rparr>\<rparr>)"
proof -
  have "message_ok (ChannelRequest \<lparr>want_reply = True, request = Exec \<lparr>exec_command = bstr ''ls''\<rparr>\<rparr>)"
    by (simp add: ssh_string_ok_def MAX_SSH_STRING_LEN_def)
  from message_roundtrip [OF cur.byte_source_axioms this] show ?thesis
    by fastforce
qed

text \<open>
  C34: A message that is cut off is never accepted: on a source that holds a strict prefix of the
  encoding of a well-formed message, \<^verbatim>\<open>Message::parse\<close> fails with the end-of-source error, whichever
  field the input ends in.
\<close>

theorem truncated_message_refused:
  assumes "byte_source rd view adv eof" and "message_ok m"
    and "to_vec m = Some (view s @ missing)" and "missing \<noteq> []"
  shows "fst (message_parse rd s) = Err (Proto_Io (eof s))"
proof -
  have "view s @ missing = concat (message_fields m)"
    using assms(3) encode_message_fields [OF assms(2)] by (simp add: to_vec_def)
  with byte_source.decodes_message [OF assms(1,2)] assms(4) show ?thesis
    by (auto simp: decodes_def fails_def)
qed

theorem truncated_message_refused_witness:
  "fst (message_parse cursor_read_exact (cursor_new [0x40, 0x5e, 3, 104, 105]))
     = Err (Proto_Io eof_error)"
proof -
  let ?m = "Data \<lparr>data_type = 0, data = [104, 105, 33]\<rparr>"
  have "message_ok ?m"
    by (simp add: max_varint_defs ssh_string_ok_def MAX_SSH_STRING_LEN_def)
  moreover have "to_vec ?m = Some (cursor_view (cursor_new [0x40, 0x5e, 3, 104, 105]) @ [33])"
    by (simp add: to_vec_def message_encode_defs ssh_msg_defs append_var_int_def var_int_len_def
        append_ssh_bytes_def ssh_string_len_def max_varint_defs)
  ultimately show ?thesis
    using truncated_message_refused [OF cur.byte_source_axioms, of ?m] by simp
qed

text \<open>
  What a peer sends can always be sent back: every message that \<^verbatim>\<open>Message::parse\<close> accepts, from
  any input, is well formed (integers below \<open>2 ^ 62\<close>, strings of at most 16 MiB, addresses of 4 or
  16 octets), so encoding it again does not panic.
\<close>

theorem parsed_message_ok:
  assumes "byte_source rd view adv eof" and "message_parse rd s = (Ok m, s')"
  shows "message_ok m \<and> to_vec m \<noteq> None"
proof -
  have "message_ok m"
    using byte_source.yields_message [OF assms(1)] assms(2) by (rule yieldsD)
  with encode_message_fields [OF this] show ?thesis
    by (simp add: to_vec_def)
qed

theorem parsed_message_ok_witness:
  "message_ok (ChannelOpenConfirmation \<lparr>conf_max_packet_size = 37\<rparr>)
   \<and> to_vec (ChannelOpenConfirmation \<lparr>conf_max_packet_size = 37\<rparr>) \<noteq> None"
proof -
  have "message_parse cursor_read_exact (cursor_new [0x40, 91, 37])
      = (Ok (ChannelOpenConfirmation \<lparr>conf_max_packet_size = 37\<rparr>), cursor_adv 3 (cursor_new [0x40, 91, 37]))"
    by (simp add: message_parse_def confirmation_parse_payload_def read_var_int_def read_byte_def
        rbind_def rmap_err_def rret_def rfail_def cursor_read_exact_def cursor_view_def cursor_new_def
        cursor_adv_def ssh_msg_defs Let_def)
  from parsed_message_ok [OF cur.byte_source_axioms this] show ?thesis .
qed

text \<open>
  Unknown kinds are refused, by name: a message number other than the five the protocol uses
  is \<^verbatim>\<open>UnknownMessageType\<close> with that number, and a channel request whose type is none of the ten
  known ones is \<^verbatim>\<open>UnknownRequestType\<close> with that type.
\<close>

theorem unknown_message_refused:
  assumes "byte_source rd view adv eof"
  shows "(view s = var_int_bytes kind @ rest \<and> varint_ok kind \<and> kind \<notin> {91, 92, 94, 95, 98}
       \<longrightarrow> message_parse rd s = (Err (UnknownMessageType kind), adv (length (var_int_bytes kind)) s))
    \<and> (view s = concat [var_int_bytes 98, ssh_bytes_enc ty, bool_byte reply] @ rest
         \<and> ssh_string_ok ty \<and> ty \<notin> range request_type
       \<longrightarrow> fst (message_parse rd s) = Err (UnknownRequestType ty))"
proof (intro conjI impI)
  assume kind: "view s = var_int_bytes kind @ rest \<and> varint_ok kind \<and> kind \<notin> {91, 92, 94, 95, 98}"
  then have "read_var_int rd s = (Ok kind, adv (length (var_int_bytes kind)) s)"
    using byte_source.parses_var_int [OF assms] by (auto dest: parsesD)
  with kind show "message_parse rd s
      = (Err (UnknownMessageType kind), adv (length (var_int_bytes kind)) s)"
    by (simp add: message_parse_def rbind_Ok ssh_msg_defs rfail_def)
next
  assume ty: "view s = concat [var_int_bytes 98, ssh_bytes_enc ty, bool_byte reply] @ rest
    \<and> ssh_string_ok ty \<and> ty \<notin> range request_type"
  have unknown: "channel_request_parse rd ty = rfail (UnknownRequestType ty)"
  proof -
    have "\<forall>r. ty \<noteq> request_type r"
      using ty by auto
    then have "ty \<notin> {bstr ''pty-req'', bstr ''x11-req'', bstr ''shell'', bstr ''exec'',
        bstr ''subsystem'', bstr ''window-change'', bstr ''signal'', bstr ''exit-status'',
        bstr ''exit-signal'', bstr ''forward-port''}"
      by (metis insertE empty_iff request_type.simps)
    then show ?thesis
      by (simp add: channel_request_parse_def)
  qed
  have "decodes view adv eof Proto_Io
      (rbind (read_var_int rd) (\<lambda>k. rbind (read_ssh_bytes rd) (\<lambda>t. rbind (read_bool rd) (\<lambda>b. rret (k, t, b)))))
      (concat [var_int_bytes 98, ssh_bytes_enc ty, bool_byte reply]) (98, ty, reply)"
    by (intro byte_source.decodes_fields [OF assms]) (use ty in simp_all)
  from parsesD [OF byte_source.decodes_parses [OF assms this]] ty
  obtain s1 s2 s3 where "read_var_int rd s = (Ok 98, s1)" "read_ssh_bytes rd s1 = (Ok ty, s2)"
    "read_bool rd s2 = (Ok reply, s3)"
    by (fastforce simp: rret_def elim!: rbind_OkE)
  then show "fst (message_parse rd s) = Err (UnknownRequestType ty)"
    by (simp add: message_parse_def request_parse_payload_def SSH_MSG_CHANNEL_REQUEST_def rbind_assoc
        rbind_Ok unknown rfail_def)
qed

theorem unknown_message_refused_witness:
  "message_parse cursor_read_exact (cursor_new [7]) = (Err (UnknownMessageType 7), cursor_adv 1 (cursor_new [7]))"
proof -
  have enc: "var_int_bytes 7 = [7]"
    by (simp add: var_int_bytes_def append_var_int_def max_varint_defs)
  have "varint_ok 7"
    by (simp add: max_varint_defs)
  with unknown_message_refused [OF cur.byte_source_axioms, of "cursor_new [7]" 7 "[]"] enc
  show ?thesis
    by simp
qed

end
