(* ===== verification/Channel_Header.thy ===== *)
theory Channel_Header
  imports Ssh_Message
begin

text \<open>
  Channel headers and forwarding payloads of \<^verbatim>\<open>crates/ssh3-proto/src/channel.rs\<close>: what the opener
  of a channel writes first on its stream, and the target address a forwarding channel carries
  right behind its header.
\<close>

section \<open>Operations\<close>

definition SSH_FRAME_TYPE :: u64 where "SSH_FRAME_TYPE = 0xaf3627e6"

record channel_header =
  hdr_conversation_stream_id :: u64
  hdr_channel_type :: bytes
  hdr_max_packet_size :: u64

definition header_encode :: "channel_header \<Rightarrow> bytes option \<Rightarrow> bytes option" where
  "header_encode h additional_bytes = do {
     out \<leftarrow> append_var_int [] SSH_FRAME_TYPE;
     out \<leftarrow> append_var_int out (hdr_conversation_stream_id h);
     out \<leftarrow> append_ssh_bytes out (hdr_channel_type h);
     out \<leftarrow> append_var_int out (hdr_max_packet_size h);
     Some (case additional_bytes of None \<Rightarrow> out | Some additional_bytes \<Rightarrow> out @ additional_bytes)
   }"

definition header_parse_payload :: "'s read_exact_fn \<Rightarrow> ('s, proto_error, channel_header) reader" where
  "header_parse_payload rd =
     rbind (read_var_int rd) (\<lambda>id.
     rbind (read_ssh_bytes rd) (\<lambda>ty.
     rbind (read_var_int rd) (\<lambda>n.
     rret \<lparr>hdr_conversation_stream_id = id, hdr_channel_type = ty, hdr_max_packet_size = n\<rparr>)))"

text \<open>\<^verbatim>\<open>SocketAddr\<close>: the address and port, and for IPv6 the flow information and scope id.\<close>

datatype socket_addr = SocketAddrV4 bytes u16 | SocketAddrV6 bytes u16 u32 u32

definition build_forwarding_additional_bytes :: "ip_addr \<Rightarrow> u16 \<Rightarrow> bytes option" where
  "build_forwarding_additional_bytes remote_addr port = do {
     out \<leftarrow> append_var_int [] (family_as_u64 (from_ip remote_addr));
     let out = out @ octets remote_addr;
     Some (out @ u16_to_be_bytes port)
   }"

definition parse_forwarding_payload :: "'s read_exact_fn \<Rightarrow> ('s, proto_error, socket_addr) reader" where
  "parse_forwarding_payload rd =
     rbind (read_var_int rd) (\<lambda>f. rbind (rlift (family_try_from f)) (\<lambda>family.
     rbind (rmap_err Proto_Io (rd (octet_len family))) (\<lambda>os.
     rbind (rmap_err Proto_Io (rd 2)) (\<lambda>port.
     rret (case family of
         Ipv4 \<Rightarrow> SocketAddrV4 os (u16_from_be_bytes port)
       | Ipv6 \<Rightarrow> SocketAddrV6 os (u16_from_be_bytes port) 0 0)))))"

definition parse_udp_forwarding_payload :: "'s read_exact_fn \<Rightarrow> ('s, proto_error, socket_addr) reader" where
  "parse_udp_forwarding_payload rd = parse_forwarding_payload rd"

definition parse_tcp_forwarding_payload :: "'s read_exact_fn \<Rightarrow> ('s, proto_error, socket_addr) reader" where
  "parse_tcp_forwarding_payload rd = parse_forwarding_payload rd"

section \<open>Specification\<close>

definition header_fields :: "channel_header \<Rightarrow> bytes list" where
  "header_fields h =
     [var_int_bytes (hdr_conversation_stream_id h), ssh_bytes_enc (hdr_channel_type h),
      var_int_bytes (hdr_max_packet_size h)]"

definition header_ok :: "channel_header \<Rightarrow> bool" where
  "header_ok h \<longleftrightarrow> varint_ok (hdr_conversation_stream_id h) \<and> ssh_string_ok (hdr_channel_type h)
     \<and> varint_ok (hdr_max_packet_size h)"

fun socket_addr_of :: "ip_addr \<Rightarrow> u16 \<Rightarrow> socket_addr" where
  "socket_addr_of (V4 a) port = SocketAddrV4 a port"
| "socket_addr_of (V6 a) port = SocketAddrV6 a port 0 0"

definition forwarding_fields :: "ip_addr \<Rightarrow> u16 \<Rightarrow> bytes list" where
  "forwarding_fields ip port =
     [var_int_bytes (family_as_u64 (from_ip ip)), octets ip, u16_to_be_bytes port]"

section \<open>Lemmas\<close>

lemma varint_ok_SSH_FRAME_TYPE [simp]: "varint_ok SSH_FRAME_TYPE"
  by (simp add: SSH_FRAME_TYPE_def max_varint_defs)

lemma header_encode_fields:
  assumes "header_ok h"
  shows "header_encode h extra
    = Some (var_int_bytes SSH_FRAME_TYPE @ concat (header_fields h) @ (case extra of None \<Rightarrow> [] | Some e \<Rightarrow> e))"
  using assms by (cases extra) (simp_all add: header_encode_def header_ok_def header_fields_def encode_simps)

lemma build_forwarding_fields:
  "build_forwarding_additional_bytes ip port = Some (concat (forwarding_fields ip port))"
  by (simp add: build_forwarding_additional_bytes_def forwarding_fields_def encode_simps)

lemma socket_addr_of_octets:
  "(case from_ip ip of Ipv4 \<Rightarrow> SocketAddrV4 (octets ip) p | Ipv6 \<Rightarrow> SocketAddrV6 (octets ip) p 0 0)
     = socket_addr_of ip p"
  by (cases ip) simp_all

context byte_source
begin

lemma decodes_header:
  assumes "header_ok h"
  shows "decodes view adv eof Proto_Io (header_parse_payload rd) (concat (header_fields h)) h"
  unfolding header_parse_payload_def header_fields_def
  by (intro decodes_fields) (use assms in \<open>simp_all add: header_ok_def\<close>)

lemma decodes_forwarding_payload:
  assumes "ip_addr_ok ip"
  shows "decodes view adv eof Proto_Io (parse_forwarding_payload rd) (concat (forwarding_fields ip port))
    (socket_addr_of ip port)"
  unfolding parse_forwarding_payload_def forwarding_fields_def
  by (intro decodes_fields decodes_rlift_rbind family_try_from_as_u64 small_varint_ok
      decodes_rbind_concat [OF decodes_rmap_err [OF decodes_read_exact]])
    (simp_all add: length_octets [OF assms] socket_addr_of_octets)+

lemma yields_header: "yields (header_parse_payload rd) header_ok"
  unfolding header_parse_payload_def
  by (intro yields_fields) (simp add: header_ok_def)

end

section \<open>Properties\<close>

text \<open>
  A channel opened for forwarding is understood by the peer. On the bytes that
  \<^verbatim>\<open>ChannelHeader::encode\<close> writes with the address bytes of \<^verbatim>\<open>build_forwarding_additional_bytes\<close>,
  reading the frame type, then \<^verbatim>\<open>parse_payload\<close>, then \<^verbatim>\<open>parse_forwarding_payload\<close> returns the SSH frame type,
  the header and the socket address, and stops at the first byte of the channel's own data.
\<close>

theorem forwarding_header_roundtrip:
  assumes "byte_source rd view adv eof" and "header_ok h" and "ip_addr_ok ip"
  shows "\<exists>extra enc. build_forwarding_additional_bytes ip port = Some extra
    \<and> header_encode h (Some extra) = Some enc
    \<and> (\<forall>s rest. view s = enc @ rest \<longrightarrow>
         rbind (read_var_int rd) (\<lambda>ty. rbind (header_parse_payload rd) (\<lambda>h.
         rbind (parse_forwarding_payload rd) (\<lambda>a. rret (ty, h, a)))) s
         = (Ok (SSH_FRAME_TYPE, h, socket_addr_of ip port), adv (length enc) s))"
proof -
  let ?extra = "concat (forwarding_fields ip port)"
  let ?enc = "concat [var_int_bytes SSH_FRAME_TYPE, concat (header_fields h), ?extra]"
  have "decodes view adv eof Proto_Io
     (rbind (read_var_int rd) (\<lambda>ty. rbind (header_parse_payload rd) (\<lambda>h.
         rbind (parse_forwarding_payload rd) (\<lambda>a. rret (ty, h, a))))) ?enc
     (SSH_FRAME_TYPE, h, socket_addr_of ip port)"
    using byte_source.decodes_header [OF assms(1,2)]
      byte_source.decodes_forwarding_payload [OF assms(1,3)]
    by (intro byte_source.decodes_fields [OF assms(1)] byte_source.decodes_rbind_concat [OF assms(1)])
      (simp_all add: byte_source.decodes_rret [OF assms(1)])
  from byte_source.decodes_parses [OF assms(1) this] show ?thesis
    by (intro exI [of _ ?extra] exI [of _ ?enc])
      (auto simp: header_encode_fields [OF assms(2)] build_forwarding_fields dest: parsesD)
qed

theorem forwarding_header_roundtrip_witness:
  "\<exists>extra enc. build_forwarding_additional_bytes (V4 [127, 0, 0, 1]) 80 = Some extra
    \<and> header_encode \<lparr>hdr_conversation_stream_id = 4, hdr_channel_type = bstr ''direct-tcp'',
        hdr_max_packet_size = 30000\<rparr> (Some extra) = Some enc
    \<and> fst (rbind (read_var_int cursor_read_exact) (\<lambda>ty. rbind (header_parse_payload cursor_read_exact) (\<lambda>h.
         rbind (parse_forwarding_payload cursor_read_exact) (\<lambda>a. rret (ty, h, a)))) (cursor_new (enc @ [9])))
       = Ok (SSH_FRAME_TYPE, \<lparr>hdr_conversation_stream_id = 4, hdr_channel_type = bstr ''direct-tcp'',
           hdr_max_packet_size = 30000\<rparr>, SocketAddrV4 [127, 0, 0, 1] 80)"
proof -
  have "header_ok \<lparr>hdr_conversation_stream_id = 4, hdr_channel_type = bstr ''direct-tcp'',
      hdr_max_packet_size = 30000\<rparr>"
    by (simp add: header_ok_def max_varint_defs ssh_string_ok_def MAX_SSH_STRING_LEN_def)
  from forwarding_header_roundtrip [OF cur.byte_source_axioms this, of "V4 [127, 0, 0, 1]" 80]
  show ?thesis
    by fastforce
qed

end
