(* ===== verification/Datagram_Queue.thy ===== *)
theory Datagram_Queue
  imports Ssh3_Prelude
begin

text \<open>
  The queues of \<^verbatim>\<open>crates/ssh3-core/src/queue.rs\<close>: the unbounded queue of accepted channels and the
  bounded datagram queue. Each operation is atomic (it holds the queue's mutex). A
  \<^verbatim>\<open>tokio::sync::Notify\<close> is the number of its \<^verbatim>\<open>notify_one\<close> calls so far; an \<^verbatim>\<open>async\<close> operation is its
  loop body run up to the next \<^verbatim>\<open>await\<close>, so that a waiting task is one whose last run was \<open>Pending\<close>
  and that may be run again at any time.
\<close>

section \<open>Operations\<close>

datatype 'a poll = Ready 'a | Pending

record 'a accept_queue =
  aq_queue :: "'a list"
  aq_notify :: nat

definition aq_new :: "'a accept_queue" where
  "aq_new = \<lparr>aq_queue = [], aq_notify = 0\<rparr>"

definition aq_add :: "'a accept_queue \<Rightarrow> 'a \<Rightarrow> 'a accept_queue" where
  "aq_add q item = q\<lparr>aq_queue := aq_queue q @ [item], aq_notify := aq_notify q + 1\<rparr>"

definition aq_next :: "'a accept_queue \<Rightarrow> 'a option \<times> 'a accept_queue" where
  "aq_next q = (case aq_queue q of
       [] \<Rightarrow> (None, q)
     | item # rest \<Rightarrow> (Some item, q\<lparr>aq_queue := rest\<rparr>))"

definition aq_wait_next :: "'a accept_queue \<Rightarrow> 'a poll \<times> 'a accept_queue" where
  "aq_wait_next q = (case aq_next q of
       (Some item, q) \<Rightarrow> (Ready item, q)
     | (None, q) \<Rightarrow> (Pending, q))"

record datagram_queue =
  dq_queue :: "bytes list"
  dq_capacity :: nat
  dq_not_empty :: nat
  dq_not_full :: nat

definition dq_new :: "nat \<Rightarrow> datagram_queue" where
  "dq_new capacity = \<lparr>dq_queue = [], dq_capacity = capacity, dq_not_empty = 0, dq_not_full = 0\<rparr>"

definition dq_add :: "datagram_queue \<Rightarrow> bytes \<Rightarrow> bool \<times> datagram_queue" where
  "dq_add q datagram =
     (if length (dq_queue q) \<ge> dq_capacity q then (False, q)
      else (True, q\<lparr>dq_queue := dq_queue q @ [datagram], dq_not_empty := dq_not_empty q + 1\<rparr>))"

definition dq_wait_add :: "datagram_queue \<Rightarrow> bytes \<Rightarrow> unit poll \<times> datagram_queue" where
  "dq_wait_add q datagram =
     (if length (dq_queue q) < dq_capacity q
      then (Ready (), q\<lparr>dq_queue := dq_queue q @ [datagram], dq_not_empty := dq_not_empty q + 1\<rparr>)
      else (Pending, q))"

definition dq_next :: "datagram_queue \<Rightarrow> bytes option \<times> datagram_queue" where
  "dq_next q = (case dq_queue q of
       [] \<Rightarrow> (None, q)
     | datagram # rest \<Rightarrow> (Some datagram, q\<lparr>dq_queue := rest, dq_not_full := dq_not_full q + 1\<rparr>))"

definition dq_wait_next :: "datagram_queue \<Rightarrow> bytes poll \<times> datagram_queue" where
  "dq_wait_next q = (case dq_next q of
       (Some datagram, q) \<Rightarrow> (Ready datagram, q)
     | (None, q) \<Rightarrow> (Pending, q))"

section \<open>The contract of a queue\<close>

text \<open>
  A queue seen through its contents: putting appends or, when the queue is full, changes nothing;
  taking removes the oldest element or, when there is none, changes nothing.
\<close>

locale fifo =
  fixes contents :: "'q \<Rightarrow> 'a list"
    and room :: "'q \<Rightarrow> bool"
    and put :: "'q \<Rightarrow> 'a \<Rightarrow> bool \<times> 'q"
    and get :: "'q \<Rightarrow> 'a option \<times> 'q"
  assumes put_room: "room q \<Longrightarrow> put q x = (b, q') \<Longrightarrow> b \<and> contents q' = contents q @ [x]"
    and put_full: "\<not> room q \<Longrightarrow> put q x = (False, q)"
    and get_empty: "contents q = [] \<Longrightarrow> get q = (None, q)"
    and get_Cons: "contents q = x # xs \<Longrightarrow> \<exists>q'. get q = (Some x, q') \<and> contents q' = xs"

text \<open>The operations that tasks perform on one queue, in the order the mutex serialises them.\<close>

datatype 'a queue_op = Put 'a | Take

fun run_queue ::
    "('q \<Rightarrow> 'a \<Rightarrow> bool \<times> 'q) \<Rightarrow> ('q \<Rightarrow> 'a option \<times> 'q) \<Rightarrow> 'q \<Rightarrow> 'a queue_op list
     \<Rightarrow> 'a list \<times> 'a list \<times> 'q" where
  "run_queue put get q [] = ([], [], q)"
| "run_queue put get q (Put x # ops) =
     (let (accepted, q) = put q x; (ins, outs, q) = run_queue put get q ops
      in (if accepted then x # ins else ins, outs, q))"
| "run_queue put get q (Take # ops) =
     (let (taken, q) = get q; (ins, outs, q) = run_queue put get q ops
      in (ins, (case taken of None \<Rightarrow> outs | Some x \<Rightarrow> x # outs), q))"

context fifo
begin

theorem run_queue_fifo:
  "run_queue put get q ops = (ins, outs, q') \<Longrightarrow> contents q @ ins = outs @ contents q'"
proof (induction ops arbitrary: q ins outs)
  case (Cons op ops)
  show ?case
  proof (cases op)
    case (Put x)
    with Cons.prems obtain b q1 ins1 where b: "put q x = (b, q1)"
      and r: "run_queue put get q1 ops = (ins1, outs, q')" "ins = (if b then x # ins1 else ins1)"
      by (auto split: prod.splits)
    have "contents q1 @ ins1 = outs @ contents q'"
      by (rule Cons.IH [OF r(1)])
    with b r(2) put_room [OF _ b] put_full [of q x] show ?thesis
      by (cases "room q") auto
  next
    case Take
    with Cons.prems obtain t q1 outs1 where t: "get q = (t, q1)"
      and r: "run_queue put get q1 ops = (ins, outs1, q')"
        "outs = (case t of None \<Rightarrow> outs1 | Some x \<Rightarrow> x # outs1)"
      by (auto split: prod.splits)
    have "contents q1 @ ins = outs1 @ contents q'"
      by (rule Cons.IH [OF r(1)])
    with t r(2) get_empty [of q] get_Cons [of q] show ?thesis
      by (cases "contents q") fastforce+
  qed
qed simp

end

interpretation aq: fifo aq_queue "\<lambda>_. True" "\<lambda>q x. (True, aq_add q x)" aq_next
  by unfold_locales (auto simp: aq_add_def aq_next_def)

interpretation dq: fifo dq_queue "\<lambda>q. length (dq_queue q) < dq_capacity q" dq_add dq_next
  by unfold_locales (auto simp: dq_add_def dq_next_def split: if_splits)

section \<open>The datagram queue under any schedule\<close>

datatype datagram_op = Add bytes | WaitAdd bytes | Next | WaitNext

fun run_datagrams ::
    "datagram_queue \<Rightarrow> datagram_op list \<Rightarrow> bytes list \<times> bytes list \<times> datagram_queue" where
  "run_datagrams q [] = ([], [], q)"
| "run_datagrams q (Add d # ops) =
     (let (added, q) = dq_add q d; (ins, outs, q) = run_datagrams q ops
      in (if added then d # ins else ins, outs, q))"
| "run_datagrams q (WaitAdd d # ops) =
     (let (res, q) = dq_wait_add q d; (ins, outs, q) = run_datagrams q ops
      in (case res of Ready _ \<Rightarrow> d # ins | Pending \<Rightarrow> ins, outs, q))"
| "run_datagrams q (Next # ops) =
     (let (res, q) = dq_next q; (ins, outs, q) = run_datagrams q ops
      in (ins, case res of None \<Rightarrow> outs | Some d \<Rightarrow> d # outs, q))"
| "run_datagrams q (WaitNext # ops) =
     (let (res, q) = dq_wait_next q; (ins, outs, q) = run_datagrams q ops
      in (ins, case res of Ready d \<Rightarrow> d # outs | Pending \<Rightarrow> outs, q))"

fun queue_op_of :: "datagram_op \<Rightarrow> bytes queue_op" where
  "queue_op_of (Add d) = Put d"
| "queue_op_of (WaitAdd d) = Put d"
| "queue_op_of Next = Take"
| "queue_op_of WaitNext = Take"

lemma dq_wait_add_eq:
  "dq_wait_add q d = (if fst (dq_add q d) then Ready () else Pending, snd (dq_add q d))"
  by (simp add: dq_wait_add_def dq_add_def)

lemma dq_wait_next_eq:
  "dq_wait_next q = (case fst (dq_next q) of None \<Rightarrow> Pending | Some d \<Rightarrow> Ready d, snd (dq_next q))"
  by (simp add: dq_wait_next_def split: prod.splits option.splits)

lemma run_datagrams_run_queue:
  "run_datagrams q ops = run_queue dq_add dq_next q (map queue_op_of ops)"
  by (induction q ops rule: run_datagrams.induct)
    (auto simp: dq_wait_add_eq dq_wait_next_eq split: prod.splits option.splits)

lemma dq_add_counts:
  "dq_add q d = (b, q') \<Longrightarrow> dq_capacity q' = dq_capacity q \<and> dq_not_full q' = dq_not_full q
     \<and> dq_not_empty q' = dq_not_empty q + (if b then 1 else 0)
     \<and> (length (dq_queue q) \<le> dq_capacity q \<longrightarrow> length (dq_queue q') \<le> dq_capacity q)"
  by (auto simp: dq_add_def split: if_splits)

lemma dq_next_counts:
  "dq_next q = (r, q') \<Longrightarrow> dq_capacity q' = dq_capacity q \<and> dq_not_empty q' = dq_not_empty q
     \<and> dq_not_full q' = dq_not_full q + (if r = None then 0 else 1)
     \<and> length (dq_queue q') \<le> length (dq_queue q)"
  by (auto simp: dq_next_def split: list.splits)

lemma run_queue_counts:
  assumes "run_queue dq_add dq_next q ops = (ins, outs, q')" "length (dq_queue q) \<le> dq_capacity q"
  shows "length (dq_queue q') \<le> dq_capacity q \<and> dq_capacity q' = dq_capacity q
     \<and> dq_not_empty q' = dq_not_empty q + length ins \<and> dq_not_full q' = dq_not_full q + length outs"
  using assms
proof (induction ops arbitrary: q ins outs)
  case (Cons op ops)
  show ?case
  proof (cases op)
    case (Put d)
    with Cons.prems obtain b q1 ins1 where b: "dq_add q d = (b, q1)"
      and r: "run_queue dq_add dq_next q1 ops = (ins1, outs, q')" "ins = (if b then d # ins1 else ins1)"
      by (auto split: prod.splits)
    with Cons.IH [OF r(1)] dq_add_counts [OF b] Cons.prems(2) show ?thesis
      by auto
  next
    case Take
    with Cons.prems obtain t q1 outs1 where t: "dq_next q = (t, q1)"
      and r: "run_queue dq_add dq_next q1 ops = (ins, outs1, q')"
        "outs = (case t of None \<Rightarrow> outs1 | Some x \<Rightarrow> x # outs1)"
      by (auto split: prod.splits)
    with Cons.IH [OF r(1)] dq_next_counts [OF t] Cons.prems(2) show ?thesis
      by (auto split: option.splits)
  qed
qed simp

section \<open>Properties of the queues\<close>

text \<open>
  C23: The datagram queue is a bounded FIFO under every interleaving of its four operations by any
  number of tasks: the datagrams it accepted are, in order, those it delivered followed by those
  it still holds; it never holds more than its capacity; and every accepted datagram raised
  \<^verbatim>\<open>not_empty\<close> once and every delivered one \<^verbatim>\<open>not_full\<close> once.
\<close>

theorem datagram_queue_fifo:
  assumes "run_datagrams (dq_new capacity) ops = (accepted, delivered, q)"
  shows "accepted = delivered @ dq_queue q \<and> length (dq_queue q) \<le> capacity
    \<and> dq_not_empty q = length accepted \<and> dq_not_full q = length delivered"
proof -
  have run: "run_queue dq_add dq_next (dq_new capacity) (map queue_op_of ops) = (accepted, delivered, q)"
    using assms by (simp add: run_datagrams_run_queue)
  from dq.run_queue_fifo [OF run] run_queue_counts [OF run] show ?thesis
    by (simp add: dq_new_def)
qed

theorem datagram_queue_fifo_witness:
  "\<exists>q. run_datagrams (dq_new 1) [Add [1], WaitAdd [2], Next, WaitAdd [2], WaitNext, WaitNext]
       = ([[1], [2]], [[1], [2]], q)
     \<and> dq_queue q = [] \<and> dq_not_empty q = 2"
proof -
  let ?q = "\<lparr>dq_queue = [], dq_capacity = 1, dq_not_empty = 2, dq_not_full = 2\<rparr>"
  have run: "run_datagrams (dq_new 1) [Add [1], WaitAdd [2], Next, WaitAdd [2], WaitNext, WaitNext]
      = ([[1], [2]], [[1], [2]], ?q)"
    by (simp add: dq_new_def dq_add_def dq_wait_add_def dq_wait_next_def dq_next_def)
  from datagram_queue_fifo [OF run] run show ?thesis
    by auto
qed

text \<open>
  Waiting on a datagram queue ends as soon as the other side moves. A \<^verbatim>\<open>wait_next\<close> that is pending
  leaves the queue empty and untouched; the next accepted datagram raises \<^verbatim>\<open>not_empty\<close> and the
  waiter, run again, returns exactly that datagram. A \<^verbatim>\<open>wait_add\<close> that is pending leaves the queue
  untouched; the next delivered datagram raises \<^verbatim>\<open>not_full\<close> and the waiter, run again, is done.
\<close>

theorem datagram_queue_wakeups:
  "(dq_wait_next q = (Pending, q1) \<and> dq_capacity q > 0 \<longrightarrow>
      q1 = q \<and> (let (added, q2) = dq_add q1 d in added \<and> dq_not_empty q2 = dq_not_empty q1 + 1
        \<and> fst (dq_wait_next q2) = Ready d))
   \<and> (dq_wait_add q d = (Pending, q1) \<and> length (dq_queue q) \<le> dq_capacity q \<and> dq_capacity q > 0 \<longrightarrow>
      q1 = q \<and> (let (e, q2) = dq_next q1 in e \<noteq> None \<and> dq_not_full q2 = dq_not_full q1 + 1
        \<and> fst (dq_wait_add q2 d) = Ready ()))"
  by (auto simp: dq_wait_next_def dq_next_def dq_add_def dq_wait_add_def split: list.splits if_splits)

theorem datagram_queue_wakeups_witness:
  "let (added, q2) = dq_add (dq_new 1) [7] in added \<and> fst (dq_wait_next q2) = Ready [7]"
  using datagram_queue_wakeups [of "dq_new 1" "dq_new 1" "[7]"]
  by (auto simp: dq_wait_next_def dq_next_def dq_new_def)

text \<open>
  The accept queue hands channels out in the order they were added, each exactly once, whatever
  the order in which adders and takers run.
\<close>

theorem accept_queue_fifo:
  assumes "run_queue (\<lambda>q x. (True, aq_add q x)) aq_next aq_new ops = (added, taken, q)"
  shows "added = taken @ aq_queue q"
  using aq.run_queue_fifo [OF assms] by (simp add: aq_new_def)

theorem accept_queue_fifo_witness:
  "[1 :: nat, 2] = [1] @ aq_queue \<lparr>aq_queue = [2 :: nat], aq_notify = 2\<rparr>"
  by (rule accept_queue_fifo [of "[Take, Put 1, Put 2, Take]"])
    (simp add: aq_new_def aq_add_def aq_next_def)

end
