(* ===== verification/Channel.thy ===== *)
theory Channel
  imports Channel_Header Datagram_Queue
begin

text \<open>
  Channels: \<^verbatim>\<open>crates/ssh3-core/src/channel.rs\<close> over the stream traits of \<^verbatim>\<open>transport.rs\<close>. A
  \<^verbatim>\<open>ReceiveStream\<close> is a state with a \<open>read_exact\<close> operation (a byte source), a \<^verbatim>\<open>SendStream\<close> a state with
  a \<open>write_all\<close> operation. The queue of a channel is an \<^verbatim>\<open>Arc\<close>, so a channel holds an address in a heap of
  queues: tasks that wait keep the address they started with.
\<close>

section \<open>Streams and queues\<close>

type_synonym 'w write_all_fn = "bytes \<Rightarrow> 'w \<Rightarrow> (io_error + unit) \<times> 'w"
type_synonym 'w close_fn = "'w \<Rightarrow> (io_error + unit) \<times> 'w"
type_synonym 'd send_datagram_fn = "bytes \<Rightarrow> 'd \<Rightarrow> (io_error + unit) \<times> 'd"
type_synonym 'r cancel_read_fn = "u64 \<Rightarrow> 'r \<Rightarrow> 'r"

text \<open>The in-memory streams of \<^verbatim>\<open>transport::testutil\<close>.\<close>

record bytes_receive_stream =
  brs_inner :: cursor
  brs_cancelled :: "u64 list"

definition brs_new :: "bytes \<Rightarrow> bytes_receive_stream" where
  "brs_new bs = \<lparr>brs_inner = cursor_new bs, brs_cancelled = []\<rparr>"

definition brs_read_exact :: "bytes_receive_stream read_exact_fn" where
  "brs_read_exact n r = (case cursor_read_exact n (brs_inner r) of (res, c) \<Rightarrow> (res, r\<lparr>brs_inner := c\<rparr>))"

definition brs_cancel_read :: "bytes_receive_stream cancel_read_fn" where
  "brs_cancel_read code r = r\<lparr>brs_cancelled := brs_cancelled r @ [code]\<rparr>"

record recording_send_stream =
  rss_bytes :: bytes
  rss_closed :: bool

definition rss_new :: recording_send_stream where
  "rss_new = \<lparr>rss_bytes = [], rss_closed = False\<rparr>"

definition rss_write_all :: "recording_send_stream write_all_fn" where
  "rss_write_all buf w = (Ok (), w\<lparr>rss_bytes := rss_bytes w @ buf\<rparr>)"

definition rss_close :: "recording_send_stream close_fn" where
  "rss_close w = (Ok (), w\<lparr>rss_closed := True\<rparr>)"

definition rds_send_datagram :: "bytes list send_datagram_fn" where
  "rds_send_datagram datagram sent = (Ok (), sent @ [datagram])"

text \<open>The heap of \<^verbatim>\<open>Arc<DatagramQueue>\<close>.\<close>

record queue_heap =
  qh_next :: nat
  qh_queues :: "nat \<Rightarrow> datagram_queue"

definition queue_alloc :: "datagram_queue \<Rightarrow> queue_heap \<Rightarrow> nat \<times> queue_heap" where
  "queue_alloc q h =
     (qh_next h, h\<lparr>qh_next := qh_next h + 1, qh_queues := (qh_queues h)(qh_next h := q)\<rparr>)"

definition queue_update :: "nat \<Rightarrow> (datagram_queue \<Rightarrow> 'a \<times> datagram_queue) \<Rightarrow> queue_heap \<Rightarrow> 'a \<times> queue_heap" where
  "queue_update q f h = (case f (qh_queues h q) of
     (r, q') \<Rightarrow> (r, h\<lparr>qh_queues := (qh_queues h)(q := q')\<rparr>))"

section \<open>Channel state\<close>

record channel_info =
  info_max_packet_size :: u64
  info_conversation_stream_id :: u64
  info_conversation_id :: bytes
  info_channel_id :: u64
  info_channel_type :: bytes

record channel_open_failure =
  cof_reason_code :: u64
  cof_error_message_utf8 :: bytes

datatype channel_error =
    Ch_Io io_error
  | Ch_Proto proto_error
  | OpenFailure channel_open_failure
  | NonConfirmed message
  | DatagramSenderMissing u64
  | MaxPacketSizeTooSmall u64 nat

record conversation_datagram_sender =
  cds_control_stream_id :: u64
  cds_channel_id :: u64

record ('r, 'w) channel =
  info :: channel_info
  confirm_sent :: bool
  confirm_received :: bool
  header :: "bytes option"
  datagram_sender :: "conversation_datagram_sender option"
  recv :: 'r
  send :: 'w
  datagrams_queue :: nat

text \<open>\<^verbatim>\<open>Arc<Channel>\<close> is an address in a heap of channels.\<close>

datatype accepted_channel =
    Accepted nat
  | UdpForwarding nat socket_addr
  | TcpForwarding nat socket_addr

fun accepted_channel_ref :: "accepted_channel \<Rightarrow> nat" where
  "accepted_channel_ref (Accepted c) = c"
| "accepted_channel_ref (UdpForwarding c _) = c"
| "accepted_channel_ref (TcpForwarding c _) = c"

fun into_channel :: "accepted_channel \<Rightarrow> nat" where
  "into_channel (Accepted c) = c"
| "into_channel (UdpForwarding c _) = c"
| "into_channel (TcpForwarding c _) = c"

fun accepted_remote_addr :: "accepted_channel \<Rightarrow> socket_addr option" where
  "accepted_remote_addr (Accepted _) = None"
| "accepted_remote_addr (UdpForwarding _ a) = Some a"
| "accepted_remote_addr (TcpForwarding _ a) = Some a"

definition channel_new ::
    "u64 \<Rightarrow> bytes \<Rightarrow> u64 \<Rightarrow> bytes \<Rightarrow> u64 \<Rightarrow> 'r \<Rightarrow> 'w \<Rightarrow> conversation_datagram_sender option \<Rightarrow> bool \<Rightarrow> bool
     \<Rightarrow> bool \<Rightarrow> nat \<Rightarrow> bytes option \<Rightarrow> queue_heap \<Rightarrow> (('r, 'w) channel \<times> queue_heap) option" where
  "channel_new conversation_stream_id conversation_id channel_id channel_type max_packet_size r w
       dsender send_header cs cr datagrams_queue_size additional_header_bytes h = do {
     hdr \<leftarrow> (if send_header then do {
               enc \<leftarrow> header_encode \<lparr>hdr_conversation_stream_id = conversation_stream_id,
                 hdr_channel_type = channel_type, hdr_max_packet_size = max_packet_size\<rparr>
                 additional_header_bytes;
               Some (Some enc)
             } else Some None);
     let (q, h) = queue_alloc (dq_new datagrams_queue_size) h;
     Some (\<lparr>info = \<lparr>info_max_packet_size = max_packet_size,
               info_conversation_stream_id = conversation_stream_id,
               info_conversation_id = conversation_id, info_channel_id = channel_id,
               info_channel_type = channel_type\<rparr>,
            confirm_sent = cs, confirm_received = cr, header = hdr, datagram_sender = dsender,
            recv = r, send = w, datagrams_queue = q\<rparr>, h)
   }"

section \<open>Reading messages\<close>

definition core_read_byte :: "'r read_exact_fn \<Rightarrow> ('r, channel_error, u8) reader" where
  "core_read_byte rd = rbind (rmap_err Ch_Io (rd 1)) (\<lambda>byte. rret (byte ! 0))"

definition core_read_var_int :: "'r read_exact_fn \<Rightarrow> ('r, channel_error, u64) reader" where
  "core_read_var_int rd =
     rbind (core_read_byte rd) (\<lambda>first_byte.
       let len = push_bit (unat (drop_bit 6 (first_byte AND 0xc0))) (1 :: 32 word);
           b1 = first_byte AND 0x3f
       in if len = 1 then rret (ucast b1)
     else rbind (core_read_byte rd) (\<lambda>b2.
       if len = 2 then rret (ucast b2 + push_bit 8 (ucast b1))
     else rbind (core_read_byte rd) (\<lambda>b3. rbind (core_read_byte rd) (\<lambda>b4.
       if len = 4 then
         rret (ucast b4 + push_bit 8 (ucast b3) + push_bit 16 (ucast b2) + push_bit 24 (ucast b1))
     else rbind (core_read_byte rd) (\<lambda>b5. rbind (core_read_byte rd) (\<lambda>b6.
          rbind (core_read_byte rd) (\<lambda>b7. rbind (core_read_byte rd) (\<lambda>b8.
         rret (ucast b8 + push_bit 8 (ucast b7) + push_bit 16 (ucast b6) + push_bit 24 (ucast b5)
               + push_bit 32 (ucast b4) + push_bit 40 (ucast b3) + push_bit 48 (ucast b2)
               + push_bit 56 (ucast b1))))))))))"

definition core_read_ssh_bytes :: "'r read_exact_fn \<Rightarrow> ('r, channel_error, bytes) reader" where
  "core_read_ssh_bytes rd =
     rbind (core_read_var_int rd) (\<lambda>len.
     rbind (rlift (map_sum Ch_Proto id (checked_ssh_string_length len))) (\<lambda>len.
     rmap_err Ch_Io (rd len)))"

definition core_read_bool :: "'r read_exact_fn \<Rightarrow> ('r, channel_error, bool) reader" where
  "core_read_bool rd = rbind (core_read_byte rd) (\<lambda>value.
     if value = 0 then rret False else if value = 1 then rret True
     else rfail (Ch_Proto (InvalidBool value)))"

definition core_read_channel_request ::
    "'r read_exact_fn \<Rightarrow> ('r, channel_error, channel_request_message) reader" where
  "core_read_channel_request rd =
     rbind (core_read_ssh_bytes rd) (\<lambda>request_type.
     rbind (core_read_bool rd) (\<lambda>reply.
     rbind
      (if request_type = bstr ''pty-req'' then
         rbind (core_read_ssh_bytes rd) (\<lambda>trm. rbind (core_read_var_int rd) (\<lambda>cw.
         rbind (core_read_var_int rd) (\<lambda>ch. rbind (core_read_var_int rd) (\<lambda>pw.
         rbind (core_read_var_int rd) (\<lambda>ph. rbind (core_read_ssh_bytes rd) (\<lambda>modes.
         rret (Pty \<lparr>pty_term = trm, pty_char_width = cw, pty_char_height = ch, pty_pixel_width = pw,
           pty_pixel_height = ph, pty_encoded_terminal_modes = modes\<rparr>)))))))
       else if request_type = bstr ''x11-req'' then
         rbind (core_read_bool rd) (\<lambda>single. rbind (core_read_ssh_bytes rd) (\<lambda>protocol.
         rbind (core_read_ssh_bytes rd) (\<lambda>cookie. rbind (core_read_var_int rd) (\<lambda>screen.
         rret (X11 \<lparr>x11_single_connection = single, x11_authentication_protocol = protocol,
           x11_authentication_cookie = cookie, x11_screen_number = screen\<rparr>)))))
       else if request_type = bstr ''shell'' then rret Shell
       else if request_type = bstr ''exec'' then
         rbind (core_read_ssh_bytes rd) (\<lambda>command. rret (Exec \<lparr>exec_command = command\<rparr>))
       else if request_type = bstr ''subsystem'' then
         rbind (core_read_ssh_bytes rd) (\<lambda>name. rret (Subsystem \<lparr>subsystem_name = name\<rparr>))
       else if request_type = bstr ''window-change'' then
         rbind (core_read_var_int rd) (\<lambda>cw. rbind (core_read_var_int rd) (\<lambda>ch.
         rbind (core_read_var_int rd) (\<lambda>pw. rbind (core_read_var_int rd) (\<lambda>ph.
         rret (WindowChange \<lparr>win_char_width = cw, win_char_height = ch, win_pixel_width = pw,
           win_pixel_height = ph\<rparr>)))))
       else if request_type = bstr ''signal'' then
         rbind (core_read_ssh_bytes rd) (\<lambda>name. rret (Signal \<lparr>sig_name_without_sig = name\<rparr>))
       else if request_type = bstr ''exit-status'' then
         rbind (core_read_var_int rd) (\<lambda>st. rret (ExitStatus \<lparr>exit_status = st\<rparr>))
       else if request_type = bstr ''exit-signal'' then
         rbind (core_read_ssh_bytes rd) (\<lambda>name. rbind (core_read_bool rd) (\<lambda>core.
         rbind (core_read_ssh_bytes rd) (\<lambda>msg. rbind (core_read_ssh_bytes rd) (\<lambda>lang.
         rret (ExitSignal \<lparr>exs_signal_name_without_sig = name, exs_core_dumped = core,
           exs_error_message_utf8 = msg, exs_language_tag = lang\<rparr>)))))
       else if request_type = bstr ''forward-port'' then
         rbind (core_read_var_int rd) (\<lambda>p. rbind (rlift (map_sum Ch_Proto id (protocol_try_from p))) (\<lambda>protocol.
         rbind (core_read_var_int rd) (\<lambda>f. rbind (rlift (map_sum Ch_Proto id (family_try_from f))) (\<lambda>family.
         rbind (rmap_err Ch_Io (rd (case family of Ipv4 \<Rightarrow> 4 | Ipv6 \<Rightarrow> 16))) (\<lambda>os.
         rbind (rmap_err Ch_Io (rd 2)) (\<lambda>port.
         rret (ForwardPort \<lparr>fwd_protocol = protocol,
           fwd_ip_address = (case family of Ipv4 \<Rightarrow> V4 os | Ipv6 \<Rightarrow> V6 os),
           fwd_port = u16_from_be_bytes port\<rparr>)))))))
       else rfail (Ch_Proto (UnknownRequestType request_type)))
     (\<lambda>req. rret \<lparr>want_reply = reply, request = req\<rparr>)))"

definition parse_message :: "'r read_exact_fn \<Rightarrow> ('r, channel_error, message) reader" where
  "parse_message rd = rbind (core_read_var_int rd) (\<lambda>message_type.
     if message_type = SSH_MSG_CHANNEL_REQUEST then
       rbind (core_read_channel_request rd) (\<lambda>m. rret (ChannelRequest m))
     else if message_type = SSH_MSG_CHANNEL_OPEN_CONFIRMATION then
       rbind (core_read_var_int rd) (\<lambda>n. rret (ChannelOpenConfirmation \<lparr>conf_max_packet_size = n\<rparr>))
     else if message_type = SSH_MSG_CHANNEL_OPEN_FAILURE then
       rbind (core_read_var_int rd) (\<lambda>code. rbind (core_read_ssh_bytes rd) (\<lambda>msg.
       rbind (core_read_ssh_bytes rd) (\<lambda>lang.
       rret (ChannelOpenFailure \<lparr>reason_code = code, fail_error_message_utf8 = msg,
         fail_language_tag = lang\<rparr>))))
     else if message_type = SSH_MSG_CHANNEL_DATA then
       rbind (core_read_ssh_bytes rd) (\<lambda>d.
       rret (Data \<lparr>data_type = SSH_EXTENDED_DATA_NONE, data = d\<rparr>))
     else if message_type = SSH_MSG_CHANNEL_EXTENDED_DATA then
       rbind (core_read_var_int rd) (\<lambda>ty. rbind (core_read_ssh_bytes rd) (\<lambda>d.
       rret (Data \<lparr>data_type = ty, data = d\<rparr>)))
     else rfail (Ch_Proto (UnknownMessageType message_type)))"

text \<open>Reading a message from the channel's receive stream, which stays locked meanwhile.\<close>

definition recv_message :: "'r read_exact_fn \<Rightarrow> (('r, 'w) channel, channel_error, message) reader" where
  "recv_message rd c = (case parse_message rd (recv c) of (res, r) \<Rightarrow> (res, c\<lparr>recv := r\<rparr>))"

definition wait_for_confirmation :: "'r read_exact_fn \<Rightarrow> (('r, 'w) channel, channel_error, unit) reader" where
  "wait_for_confirmation rd c =
     (if confirm_received c then (Ok (), c)
      else rbind (recv_message rd) (\<lambda>m. case m of
          ChannelOpenConfirmation _ \<Rightarrow> (\<lambda>c. (Ok (), c\<lparr>confirm_received := True\<rparr>))
        | ChannelOpenFailure f \<Rightarrow> rfail (OpenFailure \<lparr>cof_reason_code = reason_code f,
            cof_error_message_utf8 = fail_error_message_utf8 f\<rparr>)
        | other \<Rightarrow> rfail (NonConfirmed other)) c)"

text \<open>A peer may send confirmations forever, so the loop of \<^verbatim>\<open>next_message\<close> may not end: \<open>None\<close>.\<close>

partial_function (option) next_message ::
    "'r read_exact_fn \<Rightarrow> ('r, 'w) channel \<Rightarrow> ((channel_error + message) \<times> ('r, 'w) channel) option" where
  "next_message rd c = (case recv_message rd c of
       (Err e, c) \<Rightarrow> Some (Err e, c)
     | (Ok (ChannelOpenConfirmation _), c) \<Rightarrow> next_message rd (c\<lparr>confirm_received := True\<rparr>)
     | (Ok (ChannelOpenFailure f), c) \<Rightarrow> Some (Err (OpenFailure \<lparr>cof_reason_code = reason_code f,
            cof_error_message_utf8 = fail_error_message_utf8 f\<rparr>), c)
     | (Ok other, c) \<Rightarrow>
         if \<not> confirm_sent c then Some (Err (NonConfirmed other), c) else Some (Ok other, c))"

section \<open>Sending\<close>

definition send_write_all :: "'w write_all_fn \<Rightarrow> bytes \<Rightarrow> (('r, 'w) channel, channel_error, unit) op" where
  "send_write_all wr buf c = (case wr buf (send c) of
     (res, w) \<Rightarrow> Some (map_sum Ch_Io id res, c\<lparr>send := w\<rparr>))"

definition maybe_send_header :: "'w write_all_fn \<Rightarrow> (('r, 'w) channel, channel_error, unit) op" where
  "maybe_send_header wr c = (case header c of
       None \<Rightarrow> Some (Ok (), c)
     | Some bytes \<Rightarrow> send_write_all wr bytes (c\<lparr>header := None\<rparr>))"

text \<open>\<^verbatim>\<open>slice::chunks\<close>: pieces of \<open>n\<close> elements, the last one possibly shorter; a size of 0 panics, which
  \<^verbatim>\<open>write_data\<close> excludes.\<close>

fun chunks :: "nat \<Rightarrow> 'a list \<Rightarrow> 'a list list" where
  "chunks n xs = (if xs = [] \<or> n = 0 then [] else take n xs # chunks n (drop n xs))"

declare chunks.simps [simp del]

fun write_chunks ::
    "'w write_all_fn \<Rightarrow> u64 \<Rightarrow> nat \<Rightarrow> bytes list \<Rightarrow> (('r, 'w) channel, channel_error, nat) op" where
  "write_chunks wr ty written [] = pret written"
| "write_chunks wr ty written (chunk # rest) =
     pbind (pvalue (to_vec (Data \<lparr>data_type = ty, data = chunk\<rparr>))) (\<lambda>encoded.
     pbind (send_write_all wr encoded) (\<lambda>_. write_chunks wr ty (written + length encoded) rest))"

definition write_data ::
    "'w write_all_fn \<Rightarrow> bytes \<Rightarrow> u64 \<Rightarrow> (('r, 'w) channel, channel_error, nat) op" where
  "write_data wr data_buf ty =
     pbind (maybe_send_header wr) (\<lambda>_.
     pbind (pvalue (data_encoded_len \<lparr>data_type = ty, data = []\<rparr>)) (\<lambda>overhead c.
       let max_packet_size = info_max_packet_size (info c) in
       if max_packet_size < of_nat overhead
       then Some (Err (MaxPacketSizeTooSmall max_packet_size overhead), c)
       else let max_payload = unat (max_packet_size - of_nat overhead)
            in write_chunks wr ty 0 (chunks (max max_payload 1) data_buf) c))"

definition send_message :: "'w write_all_fn \<Rightarrow> message \<Rightarrow> (('r, 'w) channel, channel_error, unit) op" where
  "send_message wr m =
     pbind (maybe_send_header wr) (\<lambda>_. pbind (pvalue (to_vec m)) (\<lambda>encoded. send_write_all wr encoded))"

definition confirm_channel :: "'w write_all_fn \<Rightarrow> u64 \<Rightarrow> (('r, 'w) channel, channel_error, unit) op" where
  "confirm_channel wr max_packet_size =
     pbind (send_message wr (ChannelOpenConfirmation \<lparr>conf_max_packet_size = max_packet_size\<rparr>))
       (\<lambda>_. pupdate (\<lambda>c. c\<lparr>confirm_sent := True\<rparr>))"

definition send_request ::
    "'w write_all_fn \<Rightarrow> channel_request_message \<Rightarrow> (('r, 'w) channel, channel_error, unit) op" where
  "send_request wr m = send_message wr (ChannelRequest m)"

definition cds_send ::
    "'d send_datagram_fn \<Rightarrow> conversation_datagram_sender \<Rightarrow> bytes \<Rightarrow> ('d, io_error, unit) op" where
  "cds_send sd s datagram =
     pbind (pvalue (do {
       buf \<leftarrow> append_var_int [] (cds_control_stream_id s);
       append_var_int buf (cds_channel_id s)
     })) (\<lambda>buf d. Some (sd (buf @ datagram) d))"

definition channel_send_datagram ::
    "'w write_all_fn \<Rightarrow> 'd send_datagram_fn \<Rightarrow> bytes \<Rightarrow> (('r, 'w) channel \<times> 'd, channel_error, unit) op" where
  "channel_send_datagram wr sd datagram =
     pbind (\<lambda>(c, d). case maybe_send_header wr c of
         None \<Rightarrow> None | Some (res, c) \<Rightarrow> Some (res, (c, d))) (\<lambda>_ (c, d).
       case datagram_sender c of
         None \<Rightarrow> Some (Err (DatagramSenderMissing (info_channel_id (info c))), (c, d))
       | Some s \<Rightarrow> (case cds_send sd s datagram d of
           None \<Rightarrow> None
         | Some (res, d) \<Rightarrow> Some (map_sum Ch_Io id res, (c, d))))"

definition cancel_read :: "'r cancel_read_fn \<Rightarrow> ('r, 'w) channel \<Rightarrow> ('r, 'w) channel" where
  "cancel_read cancel c = c\<lparr>recv := cancel 42 (recv c)\<rparr>"

definition channel_close :: "'w close_fn \<Rightarrow> (('r, 'w) channel, channel_error, unit) op" where
  "channel_close cl c = (case cl (send c) of (res, w) \<Rightarrow> Some (map_sum Ch_Io id res, c\<lparr>send := w\<rparr>))"

definition set_datagram_sender ::
    "conversation_datagram_sender \<Rightarrow> ('r, 'w) channel \<Rightarrow> ('r, 'w) channel" where
  "set_datagram_sender s c = c\<lparr>datagram_sender := Some s\<rparr>"

definition set_datagram_queue :: "nat \<Rightarrow> ('r, 'w) channel \<Rightarrow> ('r, 'w) channel" where
  "set_datagram_queue q c = c\<lparr>datagrams_queue := q\<rparr>"

section \<open>Datagrams of a channel\<close>

text \<open>
  \<^verbatim>\<open>wait_add_datagram\<close> and \<^verbatim>\<open>receive_datagram\<close> read the address of the queue once and then wait on that
  queue: \<open>wait_add_datagram\<close> is the first run, and a run after a wait is \<open>queue_update\<close> at the same
  address.
\<close>

definition wait_add_datagram ::
    "bytes \<Rightarrow> ('r, 'w) channel \<Rightarrow> queue_heap \<Rightarrow> unit poll \<times> queue_heap" where
  "wait_add_datagram datagram c h = queue_update (datagrams_queue c) (\<lambda>q. dq_wait_add q datagram) h"

definition channel_add_datagram ::
    "bytes \<Rightarrow> ('r, 'w) channel \<Rightarrow> queue_heap \<Rightarrow> bool \<times> queue_heap" where
  "channel_add_datagram datagram c h = queue_update (datagrams_queue c) (\<lambda>q. dq_add q datagram) h"

definition receive_datagram :: "('r, 'w) channel \<Rightarrow> queue_heap \<Rightarrow> bytes poll \<times> queue_heap" where
  "receive_datagram c h = queue_update (datagrams_queue c) dq_wait_next h"

section \<open>The two parsers agree\<close>

text \<open>How \<^verbatim>\<open>ChannelError\<close> presents the errors of the wire layer.\<close>

fun core_error :: "proto_error \<Rightarrow> channel_error" where
  "core_error (Proto_Io e) = Ch_Io e"
| "core_error e = Ch_Proto e"

lemma core_read_byte_eq: "core_read_byte rd = rmap_err core_error (read_byte rd)"
  by (simp add: core_read_byte_def read_byte_def result_simps)

lemma core_read_var_int_eq: "core_read_var_int rd = rmap_err core_error (read_var_int rd)"
  unfolding core_read_var_int_def read_var_int_def
  by (simp only: result_simps core_read_byte_eq Let_def)

lemma core_checked_length_eq:
  "map_sum Ch_Proto id (checked_ssh_string_length n) = map_sum core_error id (checked_ssh_string_length n)"
  by (simp add: checked_ssh_string_length_def)

lemma core_read_ssh_bytes_eq: "core_read_ssh_bytes rd = rmap_err core_error (read_ssh_bytes rd)"
  unfolding core_read_ssh_bytes_def read_ssh_bytes_def
  by (simp add: result_simps core_read_var_int_eq core_checked_length_eq)

lemma core_read_bool_eq: "core_read_bool rd = rmap_err core_error (read_bool rd)"
  unfolding core_read_bool_def read_bool_def
  by (simp only: result_simps core_read_byte_eq core_error.simps)

lemmas core_read_eqs =
  core_read_byte_eq core_read_var_int_eq core_read_ssh_bytes_eq core_read_bool_eq

lemma core_try_from_eq:
  "map_sum Ch_Proto id (protocol_try_from p) = map_sum core_error id (protocol_try_from p)"
  "map_sum Ch_Proto id (family_try_from f) = map_sum core_error id (family_try_from f)"
  by (simp_all add: protocol_try_from_def family_try_from_def)

lemma address_family_case_eq:
  "(case f of Ipv4 \<Rightarrow> 4 | Ipv6 \<Rightarrow> 16) = octet_len f"
  "(case f of Ipv4 \<Rightarrow> V4 os | Ipv6 \<Rightarrow> V6 os) = ip_of_octets f os"
  by (cases f; simp)+

lemma core_read_channel_request_eq:
  "core_read_channel_request rd = rmap_err core_error (request_parse_payload rd)"
  unfolding core_read_channel_request_def request_parse_payload_def channel_request_parse_def
    payload_parse_defs forwarding_parse_def
  by (simp only: result_simps rbind_assoc rbind_rret core_read_eqs core_try_from_eq
      address_family_case_eq core_error.simps)

lemma parse_message_eq: "parse_message rd = rmap_err core_error (message_parse rd)"
  unfolding parse_message_def message_parse_def confirmation_parse_payload_def
    failure_parse_payload_def parse_data_payload_def parse_extended_payload_def
  by (simp only: result_simps rbind_assoc rbind_rret core_read_eqs core_read_channel_request_eq
      core_error.simps)

section \<open>Streams\<close>

text \<open>
  A send stream writes in order: a successful \<^verbatim>\<open>write_all\<close> has appended its whole buffer, a failed one
  some prefix of it.
\<close>

locale send_stream =
  fixes wr :: "'w write_all_fn"
    and written :: "'w \<Rightarrow> bytes"
  assumes write_all_ok: "wr buf w = (Ok (), w') \<Longrightarrow> written w' = written w @ buf"
    and write_all_err: "wr buf w = (Err e, w') \<Longrightarrow> \<exists>k\<le>length buf. written w' = written w @ take k buf"

interpretation rss: send_stream rss_write_all rss_bytes
  by unfold_locales (auto simp: rss_write_all_def)

interpretation brs: byte_source brs_read_exact "\<lambda>r. cursor_view (brs_inner r)"
  "\<lambda>n r. r\<lparr>brs_inner := cursor_adv n (brs_inner r)\<rparr>" "\<lambda>_. eof_error"
proof unfold_locales
  fix n s
  show "length (cursor_view (brs_inner s)) < n \<Longrightarrow> \<exists>s'. brs_read_exact n s = (Err eof_error, s')"
    using cur.read_exact_short [of "brs_inner s" n] by (auto simp: brs_read_exact_def)
qed (simp_all add: brs_read_exact_def cur.read_exact_ok cur.view_adv cur.adv_adv cur.adv_0)

context send_stream
begin

lemma send_write_all_ok:
  assumes "send_write_all wr buf c = Some (Ok (), c')"
  shows "written (send c') = written (send c) @ buf" "header c' = header c" "info c' = info c"
proof -
  obtain w where "wr buf (send c) = (Ok (), w)" "c' = c\<lparr>send := w\<rparr>"
    using assms by (auto simp: send_write_all_def map_sum_def split: prod.splits sum.splits)
  then show "written (send c') = written (send c) @ buf" "header c' = header c" "info c' = info c"
    by (simp_all add: write_all_ok)
qed

lemma maybe_send_header_ok:
  assumes "maybe_send_header wr c = Some (Ok (), c')"
  shows "written (send c') = written (send c) @ (case header c of None \<Rightarrow> [] | Some h \<Rightarrow> h)"
    "header c' = None" "info c' = info c"
  using assms
  by (auto simp: maybe_send_header_def dest: send_write_all_ok split: option.splits)

end

section \<open>Writing data in chunks\<close>

lemma chunks_Nil [simp]: "chunks n [] = []"
  by (simp add: chunks.simps)

lemma concat_chunks: "n > 0 \<Longrightarrow> concat (chunks n xs) = xs"
proof (induction n xs rule: chunks.induct)
  case (1 n xs)
  then show ?case
    by (cases "xs = []") (simp_all add: chunks.simps [of n xs])
qed

lemma chunks_length: "ys \<in> set (chunks n xs) \<Longrightarrow> 0 < length ys \<and> length ys \<le> n"
proof (induction n xs rule: chunks.induct)
  case (1 n xs)
  then show ?case
    by (cases "xs = [] \<or> n = 0") (auto simp: chunks.simps [of n xs])
qed

lemma data_to_vec:
  assumes "varint_ok ty" "length d \<le> unat MAX_VARINT"
  shows "to_vec (Data \<lparr>data_type = ty, data = d\<rparr>)
    = Some (concat (message_fields (Data \<lparr>data_type = ty, data = d\<rparr>)))"
  using assms
  by (simp add: to_vec_def message_encode_defs ssh_msg_defs append_var_int_eq var_int_len_eq
      append_ssh_bytes_eq)

text \<open>The overhead that \<^verbatim>\<open>write_data\<close> reserves: everything but the data, with one byte for its length.\<close>

lemma data_overhead:
  assumes "data_encoded_len \<lparr>data_type = ty, data = []\<rparr> = Some overhead"
  shows "varint_ok ty"
    and "overhead = (if ty = 0 then 3 else 3 + length (var_int_bytes ty))"
proof -
  have small: "var_int_len 94 = Some 2" "var_int_len 95 = Some 2" "ssh_string_len [] = Some 1"
    by (simp_all add: var_int_len_def ssh_string_len_def max_varint_defs)
  show ok: "varint_ok ty"
    using assms small var_int_len_None_iff [of ty]
    by (auto simp: data_encoded_len_def ssh_msg_defs not_less max_varint_defs split: if_splits bind_splits)
  show "overhead = (if ty = 0 then 3 else 3 + length (var_int_bytes ty))"
    using assms small var_int_len_eq [OF ok] by (auto simp: data_encoded_len_def ssh_msg_defs)
qed

lemma length_var_int_bytes_94 [simp]: "length (var_int_bytes 94) = 2" "length (var_int_bytes 95) = 2"
  by (simp_all add: var_int_bytes_def append_var_int_def max_varint_defs)

lemma length_var_int_bytes_le:
  "n < 2 ^ 30 \<Longrightarrow> length (var_int_bytes (of_nat n)) \<le> 4"
  by (simp add: var_int_bytes_def append_var_int_def max_varint_defs word_le_nat_alt unsigned_of_nat
      take_bit_eq_mod)

context send_stream
begin

lemma write_chunks_ok:
  assumes "write_chunks wr ty k chs c = Some (Ok n, c')"
  shows "\<exists>encs. map (\<lambda>ch. to_vec (Data \<lparr>data_type = ty, data = ch\<rparr>)) chs = map Some encs
    \<and> written (send c') = written (send c) @ concat encs \<and> n = k + length (concat encs)
    \<and> header c' = header c \<and> info c' = info c"
  using assms
proof (induction chs arbitrary: k c)
  case (Cons ch chs)
  from Cons.prems obtain e c1 where e: "to_vec (Data \<lparr>data_type = ty, data = ch\<rparr>) = Some e"
    and w: "send_write_all wr e c = Some (Ok (), c1)"
    and r: "write_chunks wr ty (k + length e) chs c1 = Some (Ok n, c')"
    by (auto elim!: pbind_OkE pvalue_OkE)
  from Cons.IH [OF r] obtain encs where
    "map (\<lambda>ch. to_vec (Data \<lparr>data_type = ty, data = ch\<rparr>)) chs = map Some encs"
    "written (send c') = written (send c1) @ concat encs" "n = k + length e + length (concat encs)"
    "header c' = header c1" "info c' = info c1"
    by auto
  with e send_write_all_ok [OF w] show ?case
    by (intro exI [of _ "e # encs"]) simp
qed (auto simp: pret_def)

lemma write_data_ok:
  assumes "write_data wr buf ty c = Some (Ok n, c')"
  obtains overhead chs encs where
    "data_encoded_len \<lparr>data_type = ty, data = []\<rparr> = Some overhead"
    "of_nat overhead \<le> info_max_packet_size (info c)"
    "chs = chunks (max (unat (info_max_packet_size (info c) - of_nat overhead)) 1) buf"
    "map (\<lambda>ch. to_vec (Data \<lparr>data_type = ty, data = ch\<rparr>)) chs = map Some encs"
    "written (send c') = written (send c) @ (case header c of None \<Rightarrow> [] | Some h \<Rightarrow> h) @ concat encs"
    "n = length (concat encs)" "header c' = None" "info c' = info c"
proof -
  from assms obtain overhead c1 where hd: "maybe_send_header wr c = Some (Ok (), c1)"
    and ov: "data_encoded_len \<lparr>data_type = ty, data = []\<rparr> = Some overhead"
    and le: "\<not> info_max_packet_size (info c1) < of_nat overhead"
    and w: "write_chunks wr ty 0 (chunks (max (unat (info_max_packet_size (info c1) - of_nat overhead)) 1) buf) c1
      = Some (Ok n, c')"
    by (auto simp: write_data_def Let_def elim!: pbind_OkE pvalue_OkE split: if_splits)
  from maybe_send_header_ok [OF hd] write_chunks_ok [OF w] ov le show ?thesis
    by (auto simp: not_less intro: that)
qed

end

end
