(* ===== verification/Channel_Laws.thy ===== *)
theory Channel_Laws
  imports Channel
begin

text \<open>
  Laws of a channel: what arrives at a peer that reads what a channel has written, that the
  header is on the wire exactly once and before everything else, and how confirmations are
  received. The last section shows the one ordering that concurrent senders do not keep.
\<close>

section \<open>Sequences of messages\<close>

text \<open>A peer that reads \<open>n\<close> values one after the other.\<close>

fun read_n :: "nat \<Rightarrow> ('s, 'e, 'a) reader \<Rightarrow> ('s, 'e, 'a list) reader" where
  "read_n 0 p = rret []"
| "read_n (Suc n) p = rbind p (\<lambda>a. rbind (read_n n p) (\<lambda>as. rret (a # as)))"

datatype send_op =
    SendHeader
  | SendMessage message
  | SendRequest channel_request_message
  | Confirm u64
  | WriteData bytes u64

fun exec_send :: "'w write_all_fn \<Rightarrow> send_op \<Rightarrow> (('r, 'w) channel, channel_error, unit) op" where
  "exec_send wr SendHeader = maybe_send_header wr"
| "exec_send wr (SendMessage m) = send_message wr m"
| "exec_send wr (SendRequest r) = send_request wr r"
| "exec_send wr (Confirm n) = confirm_channel wr n"
| "exec_send wr (WriteData buf ty) = pbind (write_data wr buf ty) (\<lambda>_. pret ())"

fun run_sends :: "'w write_all_fn \<Rightarrow> send_op list \<Rightarrow> (('r, 'w) channel, channel_error, unit) op" where
  "run_sends wr [] = pret ()"
| "run_sends wr (op # ops) = pbind (exec_send wr op) (\<lambda>_. run_sends wr ops)"

text \<open>A channel over in-memory streams, for concrete runs.\<close>

definition memory_channel ::
    "u64 \<Rightarrow> bytes option \<Rightarrow> bytes \<Rightarrow> (bytes_receive_stream, recording_send_stream) channel" where
  "memory_channel mps hdr incoming =
     \<lparr>info = \<lparr>info_max_packet_size = mps, info_conversation_stream_id = 0, info_conversation_id = [],
        info_channel_id = 4, info_channel_type = bstr ''session''\<rparr>,
      confirm_sent = True, confirm_received = False, header = hdr, datagram_sender = None,
      recv = brs_new incoming, send = rss_new, datagrams_queue = 0\<rparr>"

context byte_source
begin

lemma decodes_read_n:
  assumes "list_all2 (decodes view adv eof g p) encs vals"
  shows "decodes view adv eof g (read_n (length vals) p) (concat encs) vals"
  using assms
proof (induction rule: list_all2_induct)
  case (Cons e encs v vals)
  have "decodes view adv eof g (rbind (read_n (length vals) p) (\<lambda>as. rret (v # as))) (concat encs @ []) (v # vals)"
    by (rule decodes_rbind [OF Cons.IH decodes_rret])
  from decodes_rbind [OF Cons.hyps(1), of "\<lambda>v. rbind (read_n (length vals) p) (\<lambda>as. rret (v # as))"] this
  show ?case
    by simp
qed (simp add: decodes_rret)

lemma decodes_parse_message:
  "message_ok m \<Longrightarrow> decodes view adv eof Ch_Io (parse_message rd) (concat (message_fields m)) m"
  unfolding parse_message_eq using decodes_rmap_err [OF decodes_message, of m core_error] by simp

end

context send_stream
begin

lemma send_message_ok:
  assumes "send_message wr m c = Some (Ok (), c')"
  obtains e where "to_vec m = Some e" "header c' = None" "info c' = info c"
    "written (send c') = written (send c) @ (case header c of None \<Rightarrow> [] | Some h \<Rightarrow> h) @ e"
proof -
  from assms obtain e c1 where "maybe_send_header wr c = Some (Ok (), c1)" "to_vec m = Some e"
    "send_write_all wr e c1 = Some (Ok (), c')"
    by (auto simp: send_message_def elim!: pbind_OkE pvalue_OkE)
  with maybe_send_header_ok send_write_all_ok show ?thesis
    by (fastforce intro: that)
qed

lemma exec_send_ok:
  assumes "exec_send wr op c = Some (Ok (), c')"
  shows "\<exists>msgs encs. map to_vec msgs = map Some encs \<and> header c' = None
    \<and> written (send c') = written (send c) @ (case header c of None \<Rightarrow> [] | Some h \<Rightarrow> h) @ concat encs"
proof -
  have msg: ?thesis if "send_message wr m c = Some (Ok (), c1)" "send c' = send c1" "header c' = header c1"
    for m c1
  proof -
    from that(1) obtain e where "to_vec m = Some e" "header c1 = None"
      "written (send c1) = written (send c) @ (case header c of None \<Rightarrow> [] | Some h \<Rightarrow> h) @ e"
      by (rule send_message_ok)
    with that show ?thesis
      by (intro exI [of _ "[m]"] exI [of _ "[e]"]) simp
  qed
  show ?thesis
  proof (cases op)
    case SendHeader
    with assms maybe_send_header_ok [of c c'] show ?thesis
      by (intro exI [of _ "[]"]) simp
  next
    case (SendMessage m)
    with assms msg show ?thesis by simp
  next
    case (SendRequest r)
    with assms msg show ?thesis by (simp add: send_request_def)
  next
    case (Confirm n)
    with assms msg show ?thesis
      by (auto simp: confirm_channel_def pupdate_def elim!: pbind_OkE)
  next
    case (WriteData buf ty)
    with assms obtain n where "write_data wr buf ty c = Some (Ok n, c')"
      by (auto elim!: pbind_OkE)
    then show ?thesis
    proof (rule write_data_ok)
      fix chs encs
      assume "map (\<lambda>ch. to_vec (Data \<lparr>data_type = ty, data = ch\<rparr>)) chs = map Some encs"
        "written (send c') = written (send c) @ (case header c of None \<Rightarrow> [] | Some h \<Rightarrow> h) @ concat encs"
        "header c' = None"
      then show ?thesis
        by (intro exI [of _ "map (\<lambda>ch. Data \<lparr>data_type = ty, data = ch\<rparr>) chs"] exI [of _ encs])
          (simp add: comp_def)
    qed
  qed
qed

lemma run_sends_ok:
  assumes "run_sends wr ops c = Some (Ok (), c')" "header c = None"
  shows "\<exists>msgs encs. map to_vec msgs = map Some encs \<and> header c' = None
    \<and> written (send c') = written (send c) @ concat encs"
  using assms
proof (induction ops arbitrary: c)
  case (Cons op ops)
  then obtain c1 where e: "exec_send wr op c = Some (Ok (), c1)" and r: "run_sends wr ops c1 = Some (Ok (), c')"
    by (auto elim!: pbind_OkE)
  from exec_send_ok [OF e] Cons.prems(2) obtain msgs1 encs1 where
    1: "map to_vec msgs1 = map Some encs1" "header c1 = None"
      "written (send c1) = written (send c) @ concat encs1"
    by auto
  from Cons.IH [OF r 1(2)] obtain msgs2 encs2 where
    "map to_vec msgs2 = map Some encs2" "header c' = None"
    "written (send c') = written (send c1) @ concat encs2"
    by auto
  with 1 show ?case
    by (intro exI [of _ "msgs1 @ msgs2"] exI [of _ "encs1 @ encs2"]) simp
qed (auto simp: pret_def intro: exI [of _ "[]"])

end

section \<open>Receiving\<close>

lemma recv_message_Ok:
  "parse_message rd (recv c) = (Ok m, r) \<Longrightarrow> recv_message rd c = (Ok m, c\<lparr>recv := r\<rparr>)"
  by (simp add: recv_message_def)

fun is_confirmation :: "message \<Rightarrow> bool" where
  "is_confirmation (ChannelOpenConfirmation _) = True"
| "is_confirmation _ = False"

text \<open>What a channel makes of a message that is not a confirmation.\<close>

fun message_result :: "bool \<Rightarrow> message \<Rightarrow> channel_error + message" where
  "message_result sent (ChannelOpenFailure f) = Err (OpenFailure \<lparr>cof_reason_code = reason_code f,
     cof_error_message_utf8 = fail_error_message_utf8 f\<rparr>)"
| "message_result sent m = (if sent then Ok m else Err (NonConfirmed m))"

lemma next_message_confirmation:
  assumes "recv_message rd c = (Ok m, c1)" "is_confirmation m"
  shows "next_message rd c = next_message rd (c1\<lparr>confirm_received := True\<rparr>)"
  using assms by (cases m) (simp_all add: next_message.simps [of rd c])

lemma next_message_other:
  assumes "recv_message rd c = (Ok m, c1)" "\<not> is_confirmation m"
  shows "next_message rd c = Some (message_result (confirm_sent c1) m, c1)"
  using assms by (cases m) (simp_all add: next_message.simps [of rd c])

lemma next_message_Err:
  "recv_message rd c = (Err e, c1) \<Longrightarrow> next_message rd c = Some (Err e, c1)"
  by (simp add: next_message.simps [of rd c])

context byte_source
begin

lemma recv_message_progress:
  assumes "recv_message rd c = (Ok m, c1)"
  shows "length (view (recv c1)) < length (view (recv c))" "confirm_sent c1 = confirm_sent c"
proof -
  obtain r where "parse_message rd (recv c) = (Ok m, r)" "c1 = c\<lparr>recv := r\<rparr>"
    using assms by (auto simp: recv_message_def split: prod.splits)
  then show "length (view (recv c1)) < length (view (recv c))" "confirm_sent c1 = confirm_sent c"
    using progresses_view [OF progresses_message, of "recv c" m r]
    by (simp_all add: parse_message_eq rmap_err_Ok_iff)
qed

lemma next_message_returns: "\<exists>res. next_message rd c = Some res"
proof (induction "length (view (recv c))" arbitrary: c rule: less_induct)
  case less
  obtain res c1 where r: "recv_message rd c = (res, c1)"
    by (cases "recv_message rd c")
  show ?case
  proof (cases res)
    case (Inl e)
    with r show ?thesis by (simp add: next_message_Err)
  next
    case (Inr m)
    with r have ok: "recv_message rd c = (Ok m, c1)" by simp
    show ?thesis
    proof (cases "is_confirmation m")
      case True
      have "\<exists>res. next_message rd (c1\<lparr>confirm_received := True\<rparr>) = Some res"
        by (rule less) (use recv_message_progress [OF ok] in simp)
      with next_message_confirmation [OF ok True] show ?thesis by simp
    qed (simp add: next_message_other [OF ok])
  qed
qed

lemma recv_message_decodes:
  assumes "message_ok m" "view (recv c) = concat (message_fields m) @ rest"
  shows "recv_message rd c = (Ok m, c\<lparr>recv := adv (length (concat (message_fields m))) (recv c)\<rparr>)"
  using decodes_parses [OF decodes_parse_message [OF assms(1)]] assms(2)
  by (intro recv_message_Ok) (auto dest: parsesD)

lemma next_message_skips:
  assumes "\<forall>m\<in>set confs. message_ok m \<and> is_confirmation m" "message_ok m" "\<not> is_confirmation m"
    and "view (recv c) = concat (map (\<lambda>m. concat (message_fields m)) confs) @ concat (message_fields m) @ rest"
  shows "next_message rd c = Some (message_result (confirm_sent c) m,
    c\<lparr>confirm_received := confirm_received c \<or> confs \<noteq> [],
      recv := adv (length (concat (map (\<lambda>m. concat (message_fields m)) (confs @ [m])))) (recv c)\<rparr>)"
  using assms
proof (induction confs arbitrary: c)
  case Nil
  from recv_message_decodes [of m c rest] Nil show ?case
    by (simp add: next_message_other)
next
  case (Cons k confs)
  let ?n = "length (concat (message_fields k))"
  let ?c1 = "c\<lparr>recv := adv ?n (recv c)\<rparr>"
  have r: "recv_message rd c = (Ok k, ?c1)"
    using Cons.prems by (intro recv_message_decodes) auto
  have "view (recv (?c1\<lparr>confirm_received := True\<rparr>))
      = concat (map (\<lambda>m. concat (message_fields m)) confs) @ concat (message_fields m) @ rest"
    using Cons.prems(4) by (simp add: view_adv)
  from Cons.IH [OF _ Cons.prems(2,3) this] Cons.prems next_message_confirmation [OF r]
  show ?case
    by (simp add: adv_adv add.assoc)
qed

lemma next_message_Ok:
  assumes "next_message rd c = Some (Ok m, c1)"
  shows "length (view (recv c1)) < length (view (recv c)) \<and> message_ok m"
  using assms
proof (induction "length (view (recv c))" arbitrary: c rule: less_induct)
  case less
  from less.prems obtain k c2 where r: "recv_message rd c = (Ok k, c2)"
    by (cases "recv_message rd c"; cases "fst (recv_message rd c)") (auto simp: next_message_Err)
  note progress = recv_message_progress(1) [OF r]
  show ?case
  proof (cases "is_confirmation k")
    case True
    with less.prems have "next_message rd (c2\<lparr>confirm_received := True\<rparr>) = Some (Ok m, c1)"
      by (simp add: next_message_confirmation [OF r])
    from less.hyps [OF _ this] progress show ?thesis
      by simp
  next
    case False
    with less.prems have "m = k" "c1 = c2"
      by (cases k; auto simp: next_message_other [OF r] split: if_splits)+
    moreover have "message_ok k"
      using r yieldsD [OF yields_message]
      by (auto simp: recv_message_def parse_message_eq rmap_err_Ok_iff split: prod.splits)
    ultimately show ?thesis
      using progress by simp
  qed
qed

end

declare next_message.simps [code]

section \<open>Writing returns\<close>

lemma send_write_all_returns:
  "\<exists>res c'. send_write_all wr buf c = Some (res, c') \<and> recv c' = recv c"
  by (cases "wr buf (send c)") (simp add: send_write_all_def)

lemma write_chunks_returns:
  assumes "varint_ok ty" "\<forall>ch\<in>set chs. length ch \<le> unat MAX_VARINT"
  shows "\<exists>res c'. write_chunks wr ty n chs c = Some (res, c') \<and> recv c' = recv c"
  using assms(2)
proof (induction chs arbitrary: n c)
  case (Cons ch chs)
  let ?enc = "concat (message_fields (Data \<lparr>data_type = ty, data = ch\<rparr>))"
  obtain res c1 where w: "send_write_all wr ?enc c = Some (res, c1)" "recv c1 = recv c"
    using send_write_all_returns by blast
  with Cons.prems Cons.IH [of "n + length ?enc" c1] data_to_vec [OF assms(1), of ch] show ?case
    by (cases res) (simp_all add: pbind_def pret_def del: message_fields.simps)
qed (simp add: pret_def)

lemma chunks_length_le: "ch \<in> set (chunks n xs) \<Longrightarrow> length ch \<le> length xs"
proof (induction n xs rule: chunks.induct)
  case (1 n xs)
  show ?case
  proof (cases "xs = [] \<or> n = 0")
    case False
    with 1 have "ch = take n xs \<or> length ch \<le> length (drop n xs)"
      by (auto simp: chunks.simps [of n xs])
    then show ?thesis
      by auto
  qed (use 1 in \<open>simp add: chunks.simps [of n xs]\<close>)
qed

lemma data_encoded_len_empty:
  assumes "varint_ok ty"
  shows "\<exists>overhead. data_encoded_len \<lparr>data_type = ty, data = []\<rparr> = Some overhead"
proof -
  have "var_int_len 94 = Some 2" "var_int_len 95 = Some 2" "ssh_string_len [] = Some 1"
    by (simp_all add: var_int_len_def ssh_string_len_def max_varint_defs)
  then show ?thesis
    using var_int_len_eq [OF assms] by (cases "ty = 0") (simp_all add: data_encoded_len_def ssh_msg_defs)
qed

lemma write_data_returns:
  assumes "varint_ok ty" "length buf \<le> unat MAX_VARINT"
  shows "\<exists>res c'. write_data wr buf ty c = Some (res, c') \<and> recv c' = recv c"
proof -
  obtain r1 c1 where h: "maybe_send_header wr c = Some (r1, c1)" "recv c1 = recv c"
    using send_write_all_returns [of wr "the (header c)" "c\<lparr>header := None\<rparr>"]
    by (cases "header c") (auto simp: maybe_send_header_def)
  obtain overhead where ov: "data_encoded_len \<lparr>data_type = ty, data = []\<rparr> = Some overhead"
    using data_encoded_len_empty [OF assms(1)] by blast
  have "\<forall>ch\<in>set (chunks k buf). length ch \<le> unat MAX_VARINT" for k
    using assms(2) chunks_length_le order_trans by blast
  from write_chunks_returns [OF assms(1) this,
      of wr 0 "max (unat (info_max_packet_size (info c1) - of_nat overhead)) 1" c1] ov h
  show ?thesis
    by (cases r1) (simp_all add: write_data_def pbind_def pret_def Let_def)
qed

section \<open>Packets\<close>

lemma packets_of_chunks:
  assumes "varint_ok ty" "\<forall>ch\<in>set chs. length ch \<le> unat MAX_VARINT"
    and "map (\<lambda>ch. to_vec (Data \<lparr>data_type = ty, data = ch\<rparr>)) chs = map Some encs"
  shows "encs = map (\<lambda>ch. concat (message_fields (Data \<lparr>data_type = ty, data = ch\<rparr>))) chs"
  using assms(2,3)
proof (induction chs arbitrary: encs)
  case (Cons ch chs)
  then obtain e es where "encs = e # es" "to_vec (Data \<lparr>data_type = ty, data = ch\<rparr>) = Some e"
    "map (\<lambda>ch. to_vec (Data \<lparr>data_type = ty, data = ch\<rparr>)) chs = map Some es"
    by (cases encs) auto
  with Cons data_to_vec [OF assms(1), of ch] show ?case
    by simp
qed simp

lemma length_packet:
  assumes "data_encoded_len \<lparr>data_type = ty, data = []\<rparr> = Some overhead"
  shows "length ch \<le> 63 \<Longrightarrow>
      length (concat (message_fields (Data \<lparr>data_type = ty, data = ch\<rparr>))) = overhead + length ch"
    and "length ch < 2 ^ 30 \<Longrightarrow>
      length (concat (message_fields (Data \<lparr>data_type = ty, data = ch\<rparr>))) \<le> overhead + 3 + length ch"
proof -
  have "length (var_int_bytes (of_nat n)) = 1" if "n \<le> 63" for n
    using that by (simp add: var_int_bytes_def append_var_int_def max_varint_defs word_le_nat_alt
        unsigned_of_nat take_bit_eq_mod)
  then show "length ch \<le> 63 \<Longrightarrow>
      length (concat (message_fields (Data \<lparr>data_type = ty, data = ch\<rparr>))) = overhead + length ch"
    using data_overhead(2) [OF assms] by (simp add: ssh_bytes_enc_def)
  show "length ch < 2 ^ 30 \<Longrightarrow>
      length (concat (message_fields (Data \<lparr>data_type = ty, data = ch\<rparr>))) \<le> overhead + 3 + length ch"
    using data_overhead(2) [OF assms] length_var_int_bytes_le [of "length ch"]
    by (simp add: ssh_bytes_enc_def)
qed

lemma length_packet_bound:
  assumes "data_encoded_len \<lparr>data_type = ty, data = []\<rparr> = Some overhead" "overhead \<le> mps"
    and "length ch \<le> max (mps - overhead) 1" "mps < 2 ^ 30"
  shows "length (concat (message_fields (Data \<lparr>data_type = ty, data = ch\<rparr>))) \<le> mps + 3"
proof (cases "length ch \<le> 63")
  case True
  with length_packet(1) [OF assms(1) True] assms(2,3) show ?thesis by linarith
next
  case False
  with assms(3,4) have "length ch < 2 ^ 30" by linarith
  with length_packet(2) [OF assms(1) this] assms(2,3) False show ?thesis by linarith
qed

lemma max_payload:
  assumes "data_encoded_len \<lparr>data_type = ty, data = []\<rparr> = Some overhead" "of_nat overhead \<le> mps"
  shows "unat (mps - of_nat overhead :: u64) = unat mps - overhead" "overhead \<le> unat mps"
proof -
  have "overhead < 2 ^ 64"
    using data_overhead [OF assms(1)] is_varint_length [OF is_varint_var_int_bytes, of ty]
    by auto
  then have "unat (of_nat overhead :: u64) = overhead"
    by (simp add: unsigned_of_nat take_bit_eq_mod)
  with assms(2) show "unat (mps - of_nat overhead :: u64) = unat mps - overhead" "overhead \<le> unat mps"
    by (simp_all add: unat_sub word_le_nat_alt)
qed

text \<open>The packets of a successful write: data messages that carry the buffer.\<close>

definition data_packet :: "data_message \<Rightarrow> bytes" where
  "data_packet m = concat (message_fields (Data m))"

context send_stream
begin

lemma write_data_packets:
  assumes "info_max_packet_size (info c) \<le> MAX_SSH_STRING_LEN"
    and "write_data wr buf ty c = Some (Ok n, c')"
  obtains msgs where "\<forall>m\<in>set msgs. message_ok (Data m)" "concat (map data msgs) = buf"
    "\<forall>m\<in>set msgs. data_type m = ty"
    "\<forall>m\<in>set msgs. length (data_packet m) \<le> unat (info_max_packet_size (info c)) + 3"
    "written (send c') = written (send c) @ (case header c of None \<Rightarrow> [] | Some h \<Rightarrow> h) @ concat (map data_packet msgs)"
    "n = length (concat (map data_packet msgs))" "header c' = None" "info c' = info c"
proof -
  let ?mps = "info_max_packet_size (info c)"
  have mps: "unat ?mps \<le> 16 * 1024 * 1024"
    using assms(1) by (simp add: word_le_nat_alt MAX_SSH_STRING_LEN_def)
  obtain overhead chs encs where
    ov: "data_encoded_len \<lparr>data_type = ty, data = []\<rparr> = Some overhead" "of_nat overhead \<le> ?mps"
    and chs: "chs = chunks (max (unat (?mps - of_nat overhead)) 1) buf"
    and encs: "map (\<lambda>ch. to_vec (Data \<lparr>data_type = ty, data = ch\<rparr>)) chs = map Some encs"
    and out: "written (send c') = written (send c) @ (case header c of None \<Rightarrow> [] | Some h \<Rightarrow> h) @ concat encs"
      "n = length (concat encs)" "header c' = None" "info c' = info c"
    by (rule write_data_ok [OF assms(2)])
  define msgs where "msgs = map (\<lambda>ch. \<lparr>data_type = ty, data = ch\<rparr>) chs"
  note ty = data_overhead(1) [OF ov(1)]
  have len: "length ch \<le> max (unat ?mps - overhead) 1" if "ch \<in> set chs" for ch
    using chunks_length [of ch] that max_payload [OF ov] unfolding chs by simp
  have fits: "\<forall>ch\<in>set chs. length ch \<le> 16 * 1024 * 1024"
    using len mps by fastforce
  have encs_eq: "encs = map data_packet msgs"
    unfolding msgs_def map_map comp_def data_packet_def
    by (rule packets_of_chunks [OF ty _ encs]) (use fits in \<open>fastforce simp: max_varint_defs\<close>)
  have "\<forall>m\<in>set msgs. length (data_packet m) \<le> unat ?mps + 3"
    unfolding msgs_def data_packet_def set_map ball_simps
    using length_packet_bound [OF ov(1) max_payload(2) [OF ov] len] mps by fastforce
  moreover have "\<forall>m\<in>set msgs. message_ok (Data m)"
    using fits ty by (auto simp: msgs_def ssh_string_ok_def MAX_SSH_STRING_LEN_def)
  moreover have "concat (map data msgs) = buf" "\<forall>m\<in>set msgs. data_type m = ty"
    by (simp_all add: msgs_def comp_def chs concat_chunks)
  ultimately show ?thesis
    using out that [of msgs] unfolding encs_eq by blast
qed

end

text \<open>A stream whose writes succeed.\<close>

locale reliable_stream = send_stream +
  assumes write_succeeds: "\<exists>w'. wr buf w = (Ok (), w')"
begin

lemma send_write_all_succeeds: "\<exists>w. send_write_all wr buf c = Some (Ok (), c\<lparr>send := w\<rparr>)"
  using write_succeeds [of buf "send c"] by (auto simp: send_write_all_def)

lemma maybe_send_header_succeeds: "\<exists>w. maybe_send_header wr c = Some (Ok (), c\<lparr>header := None, send := w\<rparr>)"
proof (cases "header c")
  case None
  then have "c = c\<lparr>header := None, send := send c\<rparr>"
    by simp
  with None show ?thesis
    unfolding maybe_send_header_def by (metis option.simps(4))
qed (use send_write_all_succeeds [of "the (header c)" "c\<lparr>header := None\<rparr>"] in \<open>simp add: maybe_send_header_def\<close>)

lemma write_chunks_succeeds:
  assumes "varint_ok ty" "\<forall>ch\<in>set chs. length ch \<le> unat MAX_VARINT"
  shows "\<exists>m w. write_chunks wr ty n chs c = Some (Ok m, c\<lparr>send := w\<rparr>)"
  using assms(2)
proof (induction chs arbitrary: n c)
  case Nil
  have "c = c\<lparr>send := send c\<rparr>"
    by simp
  then show ?case
    unfolding write_chunks.simps pret_def by metis
next
  case (Cons ch chs)
  let ?enc = "concat (message_fields (Data \<lparr>data_type = ty, data = ch\<rparr>))"
  obtain w where "send_write_all wr ?enc c = Some (Ok (), c\<lparr>send := w\<rparr>)"
    using send_write_all_succeeds by blast
  with Cons.prems Cons.IH [of "n + length ?enc" "c\<lparr>send := w\<rparr>"] data_to_vec [OF assms(1), of ch] show ?case
    by (simp add: pbind_def pret_def del: message_fields.simps)
qed

lemma write_data_succeeds:
  assumes "varint_ok ty" "length buf \<le> unat MAX_VARINT" "12 \<le> info_max_packet_size (info c)"
  shows "\<exists>n w. write_data wr buf ty c = Some (Ok n, c\<lparr>header := None, send := w\<rparr>)"
proof -
  obtain w where h: "maybe_send_header wr c = Some (Ok (), c\<lparr>header := None, send := w\<rparr>)"
    using maybe_send_header_succeeds by blast
  obtain overhead where ov: "data_encoded_len \<lparr>data_type = ty, data = []\<rparr> = Some overhead"
    using data_encoded_len_empty [OF assms(1)] by blast
  have "overhead \<le> 11"
    using data_overhead [OF ov] is_varint_length [OF is_varint_var_int_bytes, of ty] by auto
  then have le: "\<not> info_max_packet_size (info c) < of_nat overhead"
    using assms(3) by (simp add: word_le_nat_alt word_less_nat_alt unsigned_of_nat take_bit_eq_mod)
  have "\<forall>ch\<in>set (chunks k buf). length ch \<le> unat MAX_VARINT" for k
    using assms(2) chunks_length_le order_trans by blast
  from write_chunks_succeeds [OF assms(1) this,
      of 0 "max (unat (info_max_packet_size (info c) - of_nat overhead)) 1" "c\<lparr>header := None, send := w\<rparr>"] ov h le
  show ?thesis
    by (simp add: write_data_def pbind_def pret_def Let_def)
qed

end

interpretation rss_reliable: reliable_stream rss_write_all rss_bytes
  by unfold_locales (simp add: rss_write_all_def)

section \<open>Properties of channels\<close>

text \<open>
  C21: The message parser that channels run on their asynchronous streams and \<^verbatim>\<open>Message::parse\<close> of the
  protocol crate are the same function on every stream and every input: same message, same bytes
  consumed, and the same error with I/O errors unwrapped.
\<close>

theorem channel_parser_agrees:
  "parse_message rd s = (case message_parse rd s of (res, s') \<Rightarrow> (map_sum core_error id res, s'))"
  by (simp add: parse_message_eq rmap_err_def split: prod.splits sum.splits)

text \<open>
  C11: Data written to a channel arrives. When \<^verbatim>\<open>write_data\<close> succeeds it has put on the stream the pending
  header, if any, and then packets whose total size it returns. A peer that reads as many messages
  from those bytes gets data messages of the given type whose contents concatenate to exactly the
  given buffer; no packet is more than 3 bytes larger than the maximum packet size.
\<close>

theorem write_data_delivered:
  assumes "send_stream wr written" and "byte_source rd view adv eof"
    and "info_max_packet_size (info c) \<le> MAX_SSH_STRING_LEN"
    and "write_data wr buf ty c = Some (Ok n, c')"
  shows "\<exists>packets msgs.
    written (send c') = written (send c) @ (case header c of None \<Rightarrow> [] | Some h \<Rightarrow> h) @ concat packets
    \<and> n = length (concat packets) \<and> length msgs = length packets
    \<and> concat (map data msgs) = buf \<and> (\<forall>m\<in>set msgs. data_type m = ty)
    \<and> (\<forall>p\<in>set packets. length p \<le> unat (info_max_packet_size (info c)) + 3)
    \<and> (\<forall>s rest. view s = concat packets @ rest \<longrightarrow>
         read_n (length msgs) (parse_message rd) s = (Ok (map Data msgs), adv (length (concat packets)) s))"
proof -
  obtain msgs where ok: "\<forall>m\<in>set msgs. message_ok (Data m)"
    and msgs: "concat (map data msgs) = buf" "\<forall>m\<in>set msgs. data_type m = ty"
      "\<forall>m\<in>set msgs. length (data_packet m) \<le> unat (info_max_packet_size (info c)) + 3"
      "written (send c') = written (send c) @ (case header c of None \<Rightarrow> [] | Some h \<Rightarrow> h) @ concat (map data_packet msgs)"
      "n = length (concat (map data_packet msgs))"
    by (rule send_stream.write_data_packets [OF assms(1,3,4)])
  let ?packets = "map data_packet msgs"
  have "decodes view adv eof Ch_Io (read_n (length (map Data msgs)) (parse_message rd))
      (concat ?packets) (map Data msgs)"
    unfolding data_packet_def
    by (rule byte_source.decodes_read_n [OF assms(2)])
      (use ok byte_source.decodes_parse_message [OF assms(2)] in
        \<open>simp del: message_fields.simps add: list.rel_map list.rel_refl_strong\<close>)
  from byte_source.decodes_parses [OF assms(2) this]
  have "\<forall>s rest. view s = concat ?packets @ rest \<longrightarrow>
      read_n (length msgs) (parse_message rd) s = (Ok (map Data msgs), adv (length (concat ?packets)) s)"
    by (simp only: parses_def length_map)
  with msgs show ?thesis
    by (intro exI [of _ ?packets] exI [of _ msgs]) simp
qed

lemma chunks_two: "chunks (Suc 0) [a, b] = [[a], [b]]"
  by (simp add: chunks.simps)

theorem write_data_delivered_witness:
  "\<exists>c' packets (msgs :: data_message list). write_data rss_write_all [104, 105] 0 (memory_channel 4 (Some [9]) []) = Some (Ok 8, c')
    \<and> rss_bytes (send c') = [9] @ concat packets \<and> concat (map data msgs) = [104, 105]
    \<and> (\<forall>p\<in>set packets. length p \<le> 7)"
proof -
  let ?c = "memory_channel 4 (Some [9]) []"
  let ?c' = "?c\<lparr>header := None, send := \<lparr>rss_bytes = [9, 64, 94, 1, 104, 64, 94, 1, 105], rss_closed = False\<rparr>\<rparr>"
  have run: "write_data rss_write_all [104, 105] 0 ?c = Some (Ok 8, ?c')"
    by (simp add: write_data_def maybe_send_header_def send_write_all_def rss_write_all_def pbind_def
        memory_channel_def rss_new_def data_encoded_len_def ssh_string_len_def var_int_len_def
        max_varint_defs ssh_msg_defs chunks_two to_vec_def data_encode_def append_ssh_bytes_def
        append_var_int_def pret_def)
  have "info_max_packet_size (info ?c) \<le> MAX_SSH_STRING_LEN"
    by (simp add: memory_channel_def MAX_SSH_STRING_LEN_def)
  from write_data_delivered [OF rss.send_stream_axioms brs.byte_source_axioms this run]
  obtain packets and msgs :: "data_message list" where "rss_bytes (send ?c') = rss_bytes (send ?c)
      @ (case header ?c of None \<Rightarrow> [] | Some h \<Rightarrow> h) @ concat packets"
    "concat (map data msgs) = [104, 105]"
    "\<forall>p\<in>set packets. length p \<le> unat (info_max_packet_size (info ?c)) + 3"
    by blast
  then have "rss_bytes (send ?c') = [9] @ concat packets" "concat (map data msgs) = [104, 105]"
    "\<forall>p\<in>set packets. length p \<le> 7"
    by (simp_all add: memory_channel_def rss_new_def)
  with run show ?thesis
    by blast
qed

text \<open>
  A packet can be larger than the maximum packet size of its channel: with a maximum of 100, a
  buffer of 97 bytes is written as a single packet of 101 bytes, because the overhead is computed for
  an empty payload whose length takes one byte while 97 takes two.
\<close>

theorem write_data_exceeds_max_packet_size:
  "\<exists>c'. write_data rss_write_all (replicate 97 0) 0 (memory_channel 100 None []) = Some (Ok 101, c')
    \<and> length (rss_bytes (send c')) = 101"
proof -
  have "chunks 97 (replicate 97 (0 :: u8)) = [replicate 97 0]"
    by (subst chunks.simps) simp
  then show ?thesis
    by (simp add: write_data_def maybe_send_header_def send_write_all_def rss_write_all_def pbind_def
        memory_channel_def rss_new_def data_encoded_len_def ssh_string_len_def var_int_len_def
        max_varint_defs ssh_msg_defs to_vec_def data_encode_def append_ssh_bytes_def
        append_var_int_def pret_def)
qed

text \<open>
  C22: The header goes on the wire exactly once and before everything else. A channel created with
  \<^verbatim>\<open>send_header\<close> on a fresh stream, after any non-empty sequence of sending operations performed one
  after the other, has written the encoded header followed by encodings of whole messages, and has
  no header left to send.
\<close>

theorem header_sent_once_and_first:
  assumes "send_stream wr written"
    and "channel_new stream_id conv_id chan_id ty mps r w ds True cs cr qsize extra h = Some (c, h')"
    and "run_sends wr ops c = Some (Ok (), c')" and "ops \<noteq> []"
  shows "\<exists>hdr msgs encs.
    header_encode \<lparr>hdr_conversation_stream_id = stream_id, hdr_channel_type = ty,
      hdr_max_packet_size = mps\<rparr> extra = Some hdr
    \<and> map to_vec msgs = map Some encs
    \<and> written (send c') = written w @ hdr @ concat encs \<and> header c' = None"
proof -
  obtain hdr where hdr: "header_encode \<lparr>hdr_conversation_stream_id = stream_id, hdr_channel_type = ty,
      hdr_max_packet_size = mps\<rparr> extra = Some hdr" "header c = Some hdr" "send c = w"
    using assms(2) by (auto simp: channel_new_def split: bind_splits prod.splits)
  obtain op rest where ops: "ops = op # rest"
    using assms(4) by (cases ops) auto
  with assms(3) obtain c1 where c1: "exec_send wr op c = Some (Ok (), c1)" "run_sends wr rest c1 = Some (Ok (), c')"
    by (auto elim!: pbind_OkE)
  from send_stream.exec_send_ok [OF assms(1) c1(1)] hdr obtain msgs1 encs1 where
    1: "map to_vec msgs1 = map Some encs1" "header c1 = None" "written (send c1) = written w @ hdr @ concat encs1"
    by auto
  from send_stream.run_sends_ok [OF assms(1) c1(2) 1(2)] obtain msgs2 encs2 where
    "map to_vec msgs2 = map Some encs2" "header c' = None" "written (send c') = written (send c1) @ concat encs2"
    by auto
  with 1 hdr(1) show ?thesis
    by (intro exI [of _ hdr] exI [of _ "msgs1 @ msgs2"] exI [of _ "encs1 @ encs2"]) simp
qed

theorem header_sent_once_and_first_witness:
  "\<exists>c h' c' hdr encs. channel_new 0 [] 4 (bstr ''session'') 30000 (brs_new []) rss_new None True True False 10 None
      \<lparr>qh_next = 0, qh_queues = (\<lambda>_. dq_new 0)\<rparr> = Some (c, h')
    \<and> run_sends rss_write_all [SendHeader] c = Some (Ok (), c')
    \<and> header_encode \<lparr>hdr_conversation_stream_id = 0, hdr_channel_type = bstr ''session'',
         hdr_max_packet_size = 30000\<rparr> None = Some hdr
    \<and> rss_bytes (send c') = rss_bytes rss_new @ hdr @ concat encs"
proof -
  have "header_ok \<lparr>hdr_conversation_stream_id = 0, hdr_channel_type = bstr ''session'',
      hdr_max_packet_size = 30000\<rparr>"
    by (simp add: header_ok_def max_varint_defs ssh_string_ok_def MAX_SSH_STRING_LEN_def)
  note enc = header_encode_fields [OF this, of None]
  then obtain c h' where c: "channel_new 0 [] 4 (bstr ''session'') 30000 (brs_new []) rss_new None True True False 10 None
      \<lparr>qh_next = 0, qh_queues = (\<lambda>_. dq_new 0)\<rparr> = Some (c, h')"
    by (auto simp: channel_new_def queue_alloc_def)
  obtain c' where run: "run_sends rss_write_all [SendHeader] c = Some (Ok (), c')"
    by (cases "header c")
      (simp_all add: maybe_send_header_def send_write_all_def rss_write_all_def pbind_def pret_def)
  from header_sent_once_and_first [OF rss.send_stream_axioms c run] c run show ?thesis
    by blast
qed

text \<open>
  \<^verbatim>\<open>wait_for_confirmation\<close> on every kind of incoming message. Once confirmed it returns without
  reading. Otherwise it reads exactly one message: a confirmation confirms the channel, an open
  failure is reported with its reason and text, any other message is an error that carries it; and
  a stream that ends inside the message is an I/O error and leaves the channel unconfirmed.
\<close>

theorem wait_for_confirmation_cases:
  assumes "byte_source rd view adv eof" and "message_ok m" and "to_vec m = Some enc"
  shows "(confirm_received c \<longrightarrow> wait_for_confirmation rd c = (Ok (), c))
   \<and> (\<not> confirm_received c \<and> view (recv c) = enc @ rest \<longrightarrow>
       wait_for_confirmation rd c = (let c1 = c\<lparr>recv := adv (length enc) (recv c)\<rparr> in case m of
          ChannelOpenConfirmation _ \<Rightarrow> (Ok (), c1\<lparr>confirm_received := True\<rparr>)
        | ChannelOpenFailure f \<Rightarrow> (Err (OpenFailure \<lparr>cof_reason_code = reason_code f,
            cof_error_message_utf8 = fail_error_message_utf8 f\<rparr>), c1)
        | _ \<Rightarrow> (Err (NonConfirmed m), c1)))
   \<and> (\<not> confirm_received c \<and> view (recv c) @ missing = enc \<and> missing \<noteq> [] \<longrightarrow>
       (\<exists>c1. wait_for_confirmation rd c = (Err (Ch_Io (eof (recv c))), c1) \<and> \<not> confirm_received c1))"
proof -
  have enc: "enc = concat (message_fields m)"
    using assms(3) encode_message_fields [OF assms(2)] by (simp add: to_vec_def)
  note dec = byte_source.decodes_parse_message [OF assms(1,2)]
  have "recv_message rd c = (Ok m, c\<lparr>recv := adv (length enc) (recv c)\<rparr>)" if "view (recv c) = enc @ rest"
    using byte_source.recv_message_decodes [OF assms(1,2), of c rest] that by (simp add: enc)
  moreover have "\<exists>r. recv_message rd c = (Err (Ch_Io (eof (recv c))), c\<lparr>recv := r\<rparr>)"
    if "view (recv c) @ missing = enc" "missing \<noteq> []"
  proof -
    have "fst (parse_message rd (recv c)) = Err (Ch_Io (eof (recv c)))"
      using dec that by (simp add: decodes_def fails_def enc)
    then show ?thesis
      by (auto simp: recv_message_def split: prod.splits)
  qed
  ultimately show ?thesis
    by (cases m)
      (auto simp: wait_for_confirmation_def rbind_Ok rfail_def Let_def, (simp add: rbind_def)+)
qed

theorem wait_for_confirmation_cases_witness:
  "fst (wait_for_confirmation brs_read_exact (memory_channel 100 None [0x40, 91, 37])) = Ok ()"
proof -
  let ?m = "ChannelOpenConfirmation \<lparr>conf_max_packet_size = 37\<rparr>"
  have ok: "message_ok ?m"
    by (simp add: max_varint_defs)
  have enc: "to_vec ?m = Some [0x40, 91, 37]"
    by (simp add: to_vec_def message_encode_defs ssh_msg_defs append_var_int_def var_int_len_def
        max_varint_defs)
  from wait_for_confirmation_cases [OF brs.byte_source_axioms ok enc,
      of "memory_channel 100 None [0x40, 91, 37]" "[]"]
  show ?thesis
    by (simp add: memory_channel_def brs_new_def Let_def)
qed

text \<open>
  C31: \<^verbatim>\<open>next_message\<close> always returns on a finite input, and it returns the right thing: it skips
  confirmations, recording that one was received, and stops at the first other message, which it
  returns on a channel whose confirmation was sent and refuses on any other; an open failure is
  reported as such.
\<close>

theorem next_message_skips_confirmations:
  assumes "byte_source rd view adv eof"
  shows "(\<exists>res c'. next_message rd c = Some (res, c'))
   \<and> ((\<forall>k\<in>set confs. message_ok k \<and> is_confirmation k) \<and> message_ok m \<and> \<not> is_confirmation m
      \<and> map to_vec confs = map Some encs \<and> to_vec m = Some enc
      \<and> view (recv c) = concat encs @ enc @ rest \<longrightarrow>
      next_message rd c = Some (message_result (confirm_sent c) m,
        c\<lparr>confirm_received := confirm_received c \<or> confs \<noteq> [],
          recv := adv (length (concat encs @ enc)) (recv c)\<rparr>))"
proof (intro conjI impI)
  show "\<exists>res c'. next_message rd c = Some (res, c')"
    using byte_source.next_message_returns [OF assms, of c] by auto
next
  assume a: "(\<forall>k\<in>set confs. message_ok k \<and> is_confirmation k) \<and> message_ok m \<and> \<not> is_confirmation m
      \<and> map to_vec confs = map Some encs \<and> to_vec m = Some enc
      \<and> view (recv c) = concat encs @ enc @ rest"
  have vec: "to_vec k = Some (concat (message_fields k))" if "message_ok k" for k
    using encode_message_fields [OF that] by (simp add: to_vec_def)
  have "map to_vec confs = map (\<lambda>k. Some (concat (message_fields k))) confs"
    using a vec by (intro map_cong refl) blast
  then have "map Some encs = map Some (map (\<lambda>k. concat (message_fields k)) confs)"
    using a by (simp add: comp_def)
  then have encs: "encs = map (\<lambda>k. concat (message_fields k)) confs"
    by (rule iffD1 [OF inj_map_eq_map [OF inj_Some]])
  moreover have "enc = concat (message_fields m)"
    using a vec by auto
  ultimately show "next_message rd c = Some (message_result (confirm_sent c) m,
        c\<lparr>confirm_received := confirm_received c \<or> confs \<noteq> [],
          recv := adv (length (concat encs @ enc)) (recv c)\<rparr>)"
    using byte_source.next_message_skips [OF assms, of confs m c rest] a by simp
qed

theorem next_message_skips_confirmations_witness:
  "\<exists>c'. next_message brs_read_exact (memory_channel 100 None [0x40, 91, 37, 0x40, 94, 1, 7])
      = Some (Ok (Data \<lparr>data_type = 0, data = [7]\<rparr>), c') \<and> confirm_received c'"
proof -
  let ?k = "ChannelOpenConfirmation \<lparr>conf_max_packet_size = 37\<rparr>" and ?m = "Data \<lparr>data_type = 0, data = [7]\<rparr>"
  have ok: "message_ok ?k" "message_ok ?m"
    by (simp_all add: max_varint_defs ssh_string_ok_def MAX_SSH_STRING_LEN_def)
  have enc: "map to_vec [?k] = map Some [[0x40, 91, 37]]" "to_vec ?m = Some [0x40, 94, 1, 7]"
    by (simp_all add: to_vec_def message_encode_defs ssh_msg_defs append_var_int_def var_int_len_def
        append_ssh_bytes_def ssh_string_len_def max_varint_defs)
  have "view (recv (memory_channel 100 None [0x40, 91, 37, 0x40, 94, 1, 7]))
      = concat [[0x40, 91, 37]] @ [0x40, 94, 1, 7] @ []" if "view = (\<lambda>r. cursor_view (brs_inner r))" for view
    by (simp add: that memory_channel_def brs_new_def)
  with conjunct2 [OF next_message_skips_confirmations [OF brs.byte_source_axioms,
      of "memory_channel 100 None [0x40, 91, 37, 0x40, 94, 1, 7]" "[?k]" ?m "[[0x40, 91, 37]]" "[0x40, 94, 1, 7]" "[]"]]
    ok enc
  show ?thesis
    by (simp add: memory_channel_def)
qed

section \<open>Concurrent senders\<close>

text \<open>
  \<^verbatim>\<open>maybe_send_header\<close> takes the header out of its mutex before it waits for the lock of the send
  stream. Two tasks that send on the same channel therefore run in steps: take the header, write it
  if there was one, write the message.
\<close>

datatype sender = Idle message | TookHeader "bytes option" message | HeaderDone message | Sent

inductive send_step ::
    "'w write_all_fn \<Rightarrow> ('r, 'w) channel \<times> sender list \<Rightarrow> ('r, 'w) channel \<times> sender list \<Rightarrow> bool"
  for wr :: "'w write_all_fn" where
  take_header: "i < length ts \<Longrightarrow> ts ! i = Idle m \<Longrightarrow>
     send_step wr (c, ts) (c\<lparr>header := None\<rparr>, ts[i := TookHeader (header c) m])"
| no_header: "i < length ts \<Longrightarrow> ts ! i = TookHeader None m \<Longrightarrow>
     send_step wr (c, ts) (c, ts[i := HeaderDone m])"
| write_header: "i < length ts \<Longrightarrow> ts ! i = TookHeader (Some h) m \<Longrightarrow>
     send_write_all wr h c = Some (Ok (), c') \<Longrightarrow> send_step wr (c, ts) (c', ts[i := HeaderDone m])"
| write_message: "i < length ts \<Longrightarrow> ts ! i = HeaderDone m \<Longrightarrow> to_vec m = Some e \<Longrightarrow>
     send_write_all wr e c = Some (Ok (), c') \<Longrightarrow> send_step wr (c, ts) (c', ts[i := Sent])"


end
