(* ===== verification/Conversation.thy ===== *)
theory Conversation
  imports Channel_Laws
begin

text \<open>
  Conversations: \<^verbatim>\<open>crates/ssh3-core/src/conversation.rs\<close>. A conversation registers its channels by
  stream id, queues incoming channels until they are accepted, and routes datagrams to channels.
  \<^verbatim>\<open>Arc<Channel>\<close> and \<^verbatim>\<open>Arc<DatagramQueue>\<close> are addresses in two heaps that are part of the state, so that
  the registry, the accept queue and the callers share channels. \<^verbatim>\<open>ChannelsManager\<close> holds a mutex: its
  critical sections are single steps.
\<close>

section \<open>State\<close>

definition DANGLING_DATAGRAM_QUEUE_SIZE :: nat where "DANGLING_DATAGRAM_QUEUE_SIZE = 10"

datatype conversation_error =
    Conv_Channel channel_error
  | Conv_Proto proto_error
  | ChannelNotFound u64

record ('r, 'w) conversation =
  control_stream_id :: u64
  conversation_id :: bytes
  conv_max_packet_size :: u64
  default_datagrams_queue_size :: nat
  channels :: "u64 \<rightharpoonup> nat"
  dangling_datagram_queues :: "u64 \<rightharpoonup> nat"
  channels_accept_queue :: "accepted_channel accept_queue"
  chan_next :: nat
  chans :: "nat \<Rightarrow> ('r, 'w) channel"
  queues :: queue_heap

definition conversation_new ::
    "u64 \<Rightarrow> bytes \<Rightarrow> u64 \<Rightarrow> nat \<Rightarrow> (nat \<Rightarrow> ('r, 'w) channel) \<Rightarrow> (nat \<Rightarrow> datagram_queue) \<Rightarrow> ('r, 'w) conversation" where
  "conversation_new ctrl cid max_packet_size qsize chs qs =
     \<lparr>control_stream_id = ctrl, conversation_id = cid, conv_max_packet_size = max_packet_size,
      default_datagrams_queue_size = qsize, channels = Map.empty, dangling_datagram_queues = Map.empty,
      channels_accept_queue = aq_new, chan_next = 0, chans = chs,
      queues = \<lparr>qh_next = 0, qh_queues = qs\<rparr>\<rparr>"

definition channel_alloc :: "('r, 'w) channel \<Rightarrow> ('r, 'w) conversation \<Rightarrow> nat \<times> ('r, 'w) conversation" where
  "channel_alloc c cv =
     (chan_next cv, cv\<lparr>chan_next := chan_next cv + 1, chans := (chans cv)(chan_next cv := c)\<rparr>)"

section \<open>The channels manager\<close>

text \<open>\<^verbatim>\<open>add_channel\<close> is its critical section, then the attachment of the queue it found.\<close>

definition add_channel_register :: "nat \<Rightarrow> ('r, 'w) conversation \<Rightarrow> nat option \<times> ('r, 'w) conversation" where
  "add_channel_register ref cv = (let channel_id = info_channel_id (info (chans cv ref)) in
     (dangling_datagram_queues cv channel_id,
      cv\<lparr>dangling_datagram_queues := (dangling_datagram_queues cv)(channel_id := None),
        channels := (channels cv)(channel_id \<mapsto> ref)\<rparr>))"

definition add_channel_attach :: "nat \<Rightarrow> nat option \<Rightarrow> ('r, 'w) conversation \<Rightarrow> ('r, 'w) conversation" where
  "add_channel_attach ref pending_queue cv = (case pending_queue of
       None \<Rightarrow> cv
     | Some queue \<Rightarrow> cv\<lparr>chans := (chans cv)(ref := set_datagram_queue queue (chans cv ref))\<rparr>)"

definition add_channel :: "nat \<Rightarrow> ('r, 'w) conversation \<Rightarrow> ('r, 'w) conversation" where
  "add_channel ref cv = (case add_channel_register ref cv of
     (pending_queue, cv) \<Rightarrow> add_channel_attach ref pending_queue cv)"

text \<open>Draining a queue into a channel would not end if it were the channel's own queue.\<close>

partial_function (option) drain_queue :: "nat \<Rightarrow> ('r, 'w) channel \<Rightarrow> queue_heap \<Rightarrow> queue_heap option" where
  "drain_queue queue c h = (case queue_update queue dq_next h of
       (None, h) \<Rightarrow> Some h
     | (Some datagram, h) \<Rightarrow> drain_queue queue c (snd (channel_add_datagram datagram c h)))"

definition add_dangling_datagrams_queue ::
    "u64 \<Rightarrow> nat \<Rightarrow> ('r, 'w) conversation \<Rightarrow> ('r, 'w) conversation option" where
  "add_dangling_datagrams_queue channel_id queue cv = (case channels cv channel_id of
       Some ref \<Rightarrow> do {
         h \<leftarrow> drain_queue queue (chans cv ref) (queues cv);
         Some (cv\<lparr>queues := h\<rparr>)
       }
     | None \<Rightarrow> Some (cv\<lparr>dangling_datagram_queues :=
                 (dangling_datagram_queues cv)(channel_id \<mapsto> queue)\<rparr>))"

definition get_channel :: "u64 \<Rightarrow> ('r, 'w) conversation \<Rightarrow> nat option" where
  "get_channel channel_id cv = channels cv channel_id"

section \<open>Opening channels\<close>

text \<open>\<^verbatim>\<open>SocketAddr::ip\<close> and \<^verbatim>\<open>SocketAddr::port\<close>.\<close>

fun socket_ip :: "socket_addr \<Rightarrow> ip_addr" where
  "socket_ip (SocketAddrV4 a _) = V4 a"
| "socket_ip (SocketAddrV6 a _ _ _) = V6 a"

fun socket_port :: "socket_addr \<Rightarrow> u16" where
  "socket_port (SocketAddrV4 _ p) = p"
| "socket_port (SocketAddrV6 _ p _ _) = p"

definition datagram_sender_for_channel :: "u64 \<Rightarrow> ('r, 'w) conversation \<Rightarrow> conversation_datagram_sender" where
  "datagram_sender_for_channel channel_id cv =
     \<lparr>cds_control_stream_id = control_stream_id cv, cds_channel_id = channel_id\<rparr>"

definition open_channel ::
    "u64 \<Rightarrow> bytes \<Rightarrow> u64 \<Rightarrow> nat \<Rightarrow> 'r \<Rightarrow> 'w \<Rightarrow> ('r, 'w) conversation \<Rightarrow> (nat \<times> ('r, 'w) conversation) option" where
  "open_channel stream_id channel_type max_packet_size datagrams_queue_size r w cv = do {
     (c, h) \<leftarrow> channel_new (control_stream_id cv) (conversation_id cv) stream_id channel_type
       max_packet_size r w None True True False datagrams_queue_size None (queues cv);
     let (ref, cv) = channel_alloc c (cv\<lparr>queues := h\<rparr>);
     Some (ref, add_channel ref cv)
   }"

text \<open>The operation of a channel in the heap, its error wrapped by \<^verbatim>\<open>?\<close>.\<close>

definition on_channel ::
    "nat \<Rightarrow> (('r, 'w) channel, channel_error, 'a) op \<Rightarrow> (('r, 'w) conversation, conversation_error, 'a) op" where
  "on_channel ref f cv = (case f (chans cv ref) of
       None \<Rightarrow> None
     | Some (res, c) \<Rightarrow> Some (map_sum Conv_Channel id res, cv\<lparr>chans := (chans cv)(ref := c)\<rparr>))"

definition open_udp_forwarding_channel ::
    "'w write_all_fn \<Rightarrow> u64 \<Rightarrow> u64 \<Rightarrow> nat \<Rightarrow> socket_addr \<Rightarrow> 'r \<Rightarrow> 'w
     \<Rightarrow> (('r, 'w) conversation, conversation_error, nat) op" where
  "open_udp_forwarding_channel wr stream_id max_packet_size datagrams_queue_size remote_addr r w cv = do {
     extra \<leftarrow> build_forwarding_additional_bytes (socket_ip remote_addr) (socket_port remote_addr);
     (c, h) \<leftarrow> channel_new (control_stream_id cv) (conversation_id cv) stream_id (bstr ''direct-udp'')
       max_packet_size r w (Some (datagram_sender_for_channel stream_id cv)) True True False
       datagrams_queue_size (Some extra) (queues cv);
     let (ref, cv) = channel_alloc c (cv\<lparr>queues := h\<rparr>);
     pbind (on_channel ref (maybe_send_header wr)) (\<lambda>_ cv. Some (Ok ref, add_channel ref cv)) cv
   }"

definition open_tcp_forwarding_channel ::
    "'w write_all_fn \<Rightarrow> u64 \<Rightarrow> u64 \<Rightarrow> nat \<Rightarrow> socket_addr \<Rightarrow> 'r \<Rightarrow> 'w
     \<Rightarrow> (('r, 'w) conversation, conversation_error, nat) op" where
  "open_tcp_forwarding_channel wr stream_id max_packet_size datagrams_queue_size remote_addr r w cv = do {
     extra \<leftarrow> build_forwarding_additional_bytes (socket_ip remote_addr) (socket_port remote_addr);
     (c, h) \<leftarrow> channel_new (control_stream_id cv) (conversation_id cv) stream_id (bstr ''direct-tcp'')
       max_packet_size r w None True True False
       datagrams_queue_size (Some extra) (queues cv);
     let (ref, cv) = channel_alloc c (cv\<lparr>queues := h\<rparr>);
     pbind (on_channel ref (maybe_send_header wr)) (\<lambda>_ cv. Some (Ok ref, add_channel ref cv)) cv
   }"

section \<open>Accepting channels\<close>

definition queue_incoming_accepted_channel ::
    "accepted_channel \<Rightarrow> ('r, 'w) conversation \<Rightarrow> ('r, 'w) conversation" where
  "queue_incoming_accepted_channel ch cv =
     cv\<lparr>channels_accept_queue := aq_add (channels_accept_queue cv) ch\<rparr>"

definition queue_incoming_channel :: "nat \<Rightarrow> ('r, 'w) conversation \<Rightarrow> ('r, 'w) conversation" where
  "queue_incoming_channel ref cv = queue_incoming_accepted_channel (Accepted ref) cv"

definition confirm_and_register_channel ::
    "'w write_all_fn \<Rightarrow> accepted_channel \<Rightarrow> (('r, 'w) conversation, conversation_error, accepted_channel) op" where
  "confirm_and_register_channel wr ch cv =
     (let inner = accepted_channel_ref ch in
      pbind (on_channel inner (confirm_channel wr (conv_max_packet_size cv)))
        (\<lambda>_ cv. Some (Ok ch, add_channel inner cv)) cv)"

definition accept_channel_with_metadata ::
    "'w write_all_fn \<Rightarrow> ('r, 'w) conversation
     \<Rightarrow> ((conversation_error + accepted_channel) poll \<times> ('r, 'w) conversation) option" where
  "accept_channel_with_metadata wr cv =
     (case aq_next (channels_accept_queue cv) of
        (Some ch, q) \<Rightarrow> map_option (\<lambda>(res, cv). (Ready res, cv))
          (confirm_and_register_channel wr ch (cv\<lparr>channels_accept_queue := q\<rparr>))
      | (None, q) \<Rightarrow> (case aq_wait_next q of
          (Pending, q) \<Rightarrow> Some (Pending, cv\<lparr>channels_accept_queue := q\<rparr>)
        | (Ready ch, q) \<Rightarrow> map_option (\<lambda>(res, cv). (Ready res, cv))
            (confirm_and_register_channel wr ch (cv\<lparr>channels_accept_queue := q\<rparr>))))"

definition accept_channel ::
    "'w write_all_fn \<Rightarrow> ('r, 'w) conversation
     \<Rightarrow> ((conversation_error + nat) poll \<times> ('r, 'w) conversation) option" where
  "accept_channel wr cv = map_option (\<lambda>(res, cv). (case res of
       Pending \<Rightarrow> Pending
     | Ready (Err e) \<Rightarrow> Ready (Err e)
     | Ready (Ok ch) \<Rightarrow> Ready (Ok (into_channel ch)), cv)) (accept_channel_with_metadata wr cv)"

section \<open>Datagrams\<close>

definition add_datagram ::
    "bytes \<Rightarrow> ('r, 'w) conversation \<Rightarrow> ((conversation_error + unit) poll \<times> ('r, 'w) conversation) option" where
  "add_datagram datagram cv = (case read_var_int cursor_read_exact (cursor_new datagram) of
       (Err e, _) \<Rightarrow> Some (Ready (Err (Conv_Proto e)), cv)
     | (Ok channel_id, cursor) \<Rightarrow>
         let payload = drop (cur_pos cursor) datagram in
         (case get_channel channel_id cv of
            Some ref \<Rightarrow> (case wait_add_datagram payload (chans cv ref) (queues cv) of
                (Ready _, h) \<Rightarrow> Some (Ready (Ok ()), cv\<lparr>queues := h\<rparr>)
              | (Pending, h) \<Rightarrow> Some (Pending, cv\<lparr>queues := h\<rparr>))
          | None \<Rightarrow>
              let (queue, h) = queue_alloc (snd (dq_add (dq_new DANGLING_DATAGRAM_QUEUE_SIZE) payload)) (queues cv)
              in do {
                cv \<leftarrow> add_dangling_datagrams_queue channel_id queue (cv\<lparr>queues := h\<rparr>);
                Some (Ready (Err (ChannelNotFound channel_id)), cv)
              }))"

section \<open>Invariant\<close>

text \<open>
  Registered channels are registered under their own id; an id with a dangling queue has no
  channel; accepted channels exist; no two channels share a queue and no dangling queue belongs to
  a channel or to two ids; no queue is over its capacity.
\<close>

definition registry_ok :: "('r, 'w) conversation \<Rightarrow> bool" where
  "registry_ok cv \<longleftrightarrow>
     (\<forall>i ref. channels cv i = Some ref \<longrightarrow> ref < chan_next cv \<and> info_channel_id (info (chans cv ref)) = i)
     \<and> (\<forall>i q. dangling_datagram_queues cv i = Some q \<longrightarrow> channels cv i = None)
     \<and> (\<forall>ch\<in>set (aq_queue (channels_accept_queue cv)). accepted_channel_ref ch < chan_next cv)"

definition queues_separate :: "('r, 'w) conversation \<Rightarrow> bool" where
  "queues_separate cv \<longleftrightarrow>
     (\<forall>r<chan_next cv. datagrams_queue (chans cv r) < qh_next (queues cv))
     \<and> (\<forall>i q. dangling_datagram_queues cv i = Some q \<longrightarrow> q < qh_next (queues cv)
          \<and> (\<forall>r<chan_next cv. datagrams_queue (chans cv r) \<noteq> q)
          \<and> (\<forall>j. dangling_datagram_queues cv j = Some q \<longrightarrow> i = j))
     \<and> (\<forall>r1<chan_next cv. \<forall>r2<chan_next cv.
          datagrams_queue (chans cv r1) = datagrams_queue (chans cv r2) \<longrightarrow> r1 = r2)"

definition queues_bounded :: "queue_heap \<Rightarrow> bool" where
  "queues_bounded h \<longleftrightarrow>
     (\<forall>q<qh_next h. length (dq_queue (qh_queues h q)) \<le> dq_capacity (qh_queues h q))"

definition conv_ok :: "('r, 'w) conversation \<Rightarrow> bool" where
  "conv_ok cv \<longleftrightarrow> registry_ok cv \<and> queues_separate cv \<and> queues_bounded (queues cv)"

text \<open>Every way in which a conversation changes.\<close>

definition incoming_channel ::
    "(nat \<Rightarrow> accepted_channel) \<Rightarrow> ('r, 'w) channel \<Rightarrow> ('r, 'w) conversation \<Rightarrow> ('r, 'w) conversation" where
  "incoming_channel wrap c cv =
     (case channel_alloc c cv of (ref, cv) \<Rightarrow> queue_incoming_accepted_channel (wrap ref) cv)"

inductive conv_step ::
    "'r read_exact_fn \<Rightarrow> 'w write_all_fn \<Rightarrow> ('r, 'w) conversation \<Rightarrow> ('r, 'w) conversation \<Rightarrow> bool"
  for rd :: "'r read_exact_fn" and wr :: "'w write_all_fn" where
  open_session: "open_channel i ty mps n r w cv = Some (ref, cv') \<Longrightarrow> conv_step rd wr cv cv'"
| open_udp: "open_udp_forwarding_channel wr i mps n a r w cv = Some (res, cv') \<Longrightarrow> conv_step rd wr cv cv'"
| open_tcp: "open_tcp_forwarding_channel wr i mps n a r w cv = Some (res, cv') \<Longrightarrow> conv_step rd wr cv cv'"
| incoming: "channel_new ctrl cid i ty mps r w ds hdr cs cr n extra (queues cv) = Some (c, h) \<Longrightarrow>
     wrap \<in> {Accepted} \<union> range (\<lambda>a r. UdpForwarding r a) \<union> range (\<lambda>a r. TcpForwarding r a) \<Longrightarrow>
     conv_step rd wr cv (incoming_channel wrap c (cv\<lparr>queues := h\<rparr>))"
| accept: "accept_channel_with_metadata wr cv = Some (res, cv') \<Longrightarrow> conv_step rd wr cv cv'"
| datagram: "add_datagram d cv = Some (res, cv') \<Longrightarrow> conv_step rd wr cv cv'"
| resume_add: "q < qh_next (queues cv) \<Longrightarrow>
     conv_step rd wr cv (cv\<lparr>queues := snd (queue_update q (\<lambda>q. dq_wait_add q d) (queues cv))\<rparr>)"
| receive: "q < qh_next (queues cv) \<Longrightarrow>
     conv_step rd wr cv (cv\<lparr>queues := snd (queue_update q dq_wait_next (queues cv))\<rparr>)"
| send: "ref < chan_next cv \<Longrightarrow> on_channel ref (exec_send wr s) cv = Some (res, cv') \<Longrightarrow> conv_step rd wr cv cv'"
| receive_message: "ref < chan_next cv \<Longrightarrow> recv_message rd (chans cv ref) = (res, c) \<Longrightarrow>
     conv_step rd wr cv (cv\<lparr>chans := (chans cv)(ref := c\<lparr>confirm_received := b\<rparr>)\<rparr>)"

section \<open>Channel operations keep identity and queue\<close>

definition keeps :: "(('r, 'w) channel, 'e, 'a) op \<Rightarrow> bool" where
  "keeps f \<longleftrightarrow> (\<forall>c res c'. f c = Some (res, c') \<longrightarrow> info c' = info c \<and> datagrams_queue c' = datagrams_queue c)"

lemma keeps_pbind: "keeps p \<Longrightarrow> (\<And>a. keeps (f a)) \<Longrightarrow> keeps (pbind p f)"
  unfolding keeps_def pbind_def
  by (fastforce split: option.splits sum.splits prod.splits)

lemma keeps_simple:
  "keeps (pret a)" "keeps (pvalue v)" "keeps (send_write_all wr buf)"
  "keeps (pupdate (\<lambda>c. c\<lparr>confirm_sent := b\<rparr>))"
  by (auto simp: keeps_def pret_def pvalue_def send_write_all_def pupdate_def
      split: option.splits prod.splits)

lemma keeps_maybe_send_header: "keeps (maybe_send_header wr)"
  by (auto simp: keeps_def maybe_send_header_def send_write_all_def split: option.splits prod.splits)

lemma keeps_write_chunks: "keeps (write_chunks wr ty k chs)"
  by (induction chs arbitrary: k) (auto intro!: keeps_simple keeps_pbind)

lemma keeps_write_data: "keeps (write_data wr buf ty)"
  unfolding write_data_def
proof (intro keeps_pbind keeps_maybe_send_header keeps_simple)
  fix overhead :: nat
  show "keeps (\<lambda>c. let max_packet_size = info_max_packet_size (info c)
      in if max_packet_size < of_nat overhead then Some (Err (MaxPacketSizeTooSmall max_packet_size overhead), c)
         else let max_payload = unat (max_packet_size - of_nat overhead)
              in write_chunks wr ty 0 (chunks (max max_payload 1) buf) c)"
    using keeps_write_chunks by (fastforce simp: keeps_def Let_def split: if_splits)
qed

lemma keeps_exec_send: "keeps (exec_send wr s)"
  by (cases s) (auto simp: send_message_def send_request_def confirm_channel_def
      intro!: keeps_pbind keeps_simple keeps_maybe_send_header keeps_write_data)

section \<open>Operations preserve the invariant\<close>

lemma channel_new_fields:
  assumes "channel_new ctrl cid i ty mps r w ds hdr cs cr n extra h = Some (c, h')"
  shows "info_channel_id (info c) = i" "datagrams_queue c = qh_next h" "send c = w"
    "h' = snd (queue_alloc (dq_new n) h)"
  using assms by (auto simp: channel_new_def queue_alloc_def split: bind_splits)

lemma queues_bounded_alloc:
  "queues_bounded h \<Longrightarrow> length (dq_queue q) \<le> dq_capacity q \<Longrightarrow> queues_bounded (snd (queue_alloc q h))"
  by (auto simp: queues_bounded_def queue_alloc_def less_Suc_eq)

lemma queues_bounded_update:
  assumes "queues_bounded h" "\<And>x. length (dq_queue x) \<le> dq_capacity x \<Longrightarrow>
      length (dq_queue (snd (f x))) \<le> dq_capacity (snd (f x))"
  shows "queues_bounded (snd (queue_update q f h))" "qh_next (snd (queue_update q f h)) = qh_next h"
  using assms(1) assms(2) [of "qh_queues h q"]
  by (auto simp: queues_bounded_def queue_update_def split: prod.splits)

lemma dq_bounded_ops:
  "length (dq_queue x) \<le> dq_capacity x \<Longrightarrow>
     length (dq_queue (snd (dq_add x d))) \<le> dq_capacity (snd (dq_add x d))"
  "length (dq_queue x) \<le> dq_capacity x \<Longrightarrow>
     length (dq_queue (snd (dq_wait_add x d))) \<le> dq_capacity (snd (dq_wait_add x d))"
  "length (dq_queue x) \<le> dq_capacity x \<Longrightarrow>
     length (dq_queue (snd (dq_next x))) \<le> dq_capacity (snd (dq_next x))"
  "length (dq_queue x) \<le> dq_capacity x \<Longrightarrow>
     length (dq_queue (snd (dq_wait_next x))) \<le> dq_capacity (snd (dq_wait_next x))"
  by (auto simp: dq_add_def dq_wait_add_eq dq_next_def dq_wait_next_eq split: list.splits)

lemma conv_ok_queues:
  assumes "conv_ok cv" "queues_bounded h" "qh_next h = qh_next (queues cv)"
  shows "conv_ok (cv\<lparr>queues := h\<rparr>)"
  using assms by (simp add: conv_ok_def registry_ok_def queues_separate_def)

lemma conv_ok_queue_alloc:
  assumes "conv_ok cv" "length (dq_queue q) \<le> dq_capacity q"
  shows "conv_ok (cv\<lparr>queues := snd (queue_alloc q (queues cv))\<rparr>)"
  using assms queues_bounded_alloc [of "queues cv" q]
  by (auto simp: conv_ok_def registry_ok_def queues_separate_def queue_alloc_def less_Suc_eq)

lemma conv_ok_channel_alloc:
  assumes "conv_ok cv" "datagrams_queue c = qh_next (queues cv)" "length (dq_queue q) \<le> dq_capacity q"
    and "h = snd (queue_alloc q (queues cv))"
  shows "conv_ok (snd (channel_alloc c (cv\<lparr>queues := h\<rparr>)))"
  using assms queues_bounded_alloc [of "queues cv" q]
  unfolding conv_ok_def registry_ok_def queues_separate_def channel_alloc_def queue_alloc_def
  by (auto simp: less_Suc_eq)

lemma conv_ok_add_channel:
  assumes "conv_ok cv" "ref < chan_next cv"
  shows "conv_ok (add_channel ref cv)"
  using assms
  unfolding conv_ok_def registry_ok_def queues_separate_def add_channel_def add_channel_register_def
    add_channel_attach_def set_datagram_queue_def Let_def
  by (auto split: option.splits) blast+

lemma conv_ok_queue_update:
  assumes "conv_ok cv" "\<And>x. length (dq_queue x) \<le> dq_capacity x \<Longrightarrow>
      length (dq_queue (snd (f x))) \<le> dq_capacity (snd (f x))"
  shows "conv_ok (cv\<lparr>queues := snd (queue_update q f (queues cv))\<rparr>)"
  using assms queues_bounded_update [of "queues cv" f q]
  by (intro conv_ok_queues) (simp_all add: conv_ok_def)

lemma conv_ok_chans:
  assumes "conv_ok cv" "info c = info (chans cv ref)" "datagrams_queue c = datagrams_queue (chans cv ref)"
  shows "conv_ok (cv\<lparr>chans := (chans cv)(ref := c)\<rparr>)"
proof -
  have "info (((chans cv)(ref := c)) r) = info (chans cv r)"
    "datagrams_queue (((chans cv)(ref := c)) r) = datagrams_queue (chans cv r)" for r
    using assms(2,3) by simp_all
  with assms(1) show ?thesis
    by (simp add: conv_ok_def registry_ok_def queues_separate_def del: fun_upd_apply)
qed

lemma conv_ok_on_channel:
  assumes "conv_ok cv" "keeps f" "on_channel ref f cv = Some (res, cv')"
  shows "conv_ok cv'" "chan_next cv' = chan_next cv"
proof -
  obtain res' c where "f (chans cv ref) = Some (res', c)" "cv' = cv\<lparr>chans := (chans cv)(ref := c)\<rparr>"
    using assms(3) by (auto simp: on_channel_def split: option.splits prod.splits)
  with assms conv_ok_chans [of cv c ref] show "conv_ok cv'" "chan_next cv' = chan_next cv"
    by (auto simp: keeps_def)
qed

lemma conv_ok_pbind_add_channel:
  assumes "conv_ok cv" "keeps f" "ref < chan_next cv"
    and "pbind (on_channel ref f) (\<lambda>_ cv. Some (Ok x, add_channel ref cv)) cv = Some (res, cv')"
  shows "conv_ok cv'"
proof -
  obtain r cv1 where r: "on_channel ref f cv = Some (r, cv1)"
    using assms(4) by (auto simp: pbind_def split: option.splits)
  from conv_ok_on_channel [OF assms(1,2) r] have "conv_ok cv1" "ref < chan_next cv1"
    using assms(3) by simp_all
  with r assms(4) conv_ok_add_channel [of cv1 ref] show ?thesis
    by (cases r) (auto simp: pbind_def)
qed

lemma conv_ok_new_channel:
  assumes "conv_ok cv" "channel_new ctrl cid i ty mps r w ds hdr cs cr n extra (queues cv) = Some (c, h)"
    and "channel_alloc c (cv\<lparr>queues := h\<rparr>) = (ref, cv1)"
  shows "conv_ok cv1" "ref < chan_next cv1"
  using conv_ok_channel_alloc [OF assms(1) channel_new_fields(2) [OF assms(2)], of "dq_new n" h]
    channel_new_fields(4) [OF assms(2)] assms(3)
  by (auto simp: channel_alloc_def dq_new_def)

lemma conv_ok_accept_queue:
  assumes "conv_ok cv" "set (aq_queue q) \<subseteq> set (aq_queue (channels_accept_queue cv))"
  shows "conv_ok (cv\<lparr>channels_accept_queue := q\<rparr>)"
  using assms by (auto simp: conv_ok_def registry_ok_def queues_separate_def)

lemma conv_ok_open_channel:
  assumes "conv_ok cv" "open_channel i ty mps n r w cv = Some (ref, cv')"
  shows "conv_ok cv'"
proof -
  obtain c h cv1 where new: "channel_new (control_stream_id cv) (conversation_id cv) i ty mps r w None
      True True False n None (queues cv) = Some (c, h)"
    and alloc: "channel_alloc c (cv\<lparr>queues := h\<rparr>) = (ref, cv1)" and cv': "cv' = add_channel ref cv1"
    using assms(2) by (auto simp: open_channel_def split: bind_splits prod.splits)
  from conv_ok_add_channel [OF conv_ok_new_channel [OF assms(1) new alloc]] cv' show ?thesis
    by simp
qed

lemma conv_ok_open_forwarding:
  assumes "conv_ok cv"
    and "channel_new ctrl cid i ty mps r w ds hdr cs cr n extra (queues cv) = Some (c, h)"
    and "(let (ref, cv) = channel_alloc c (cv\<lparr>queues := h\<rparr>)
          in pbind (on_channel ref (maybe_send_header wr)) (\<lambda>_ cv. Some (Ok ref, add_channel ref cv)) cv)
         = Some (res, cv')"
  shows "conv_ok cv'"
proof -
  obtain ref cv1 where alloc: "channel_alloc c (cv\<lparr>queues := h\<rparr>) = (ref, cv1)"
    by (cases "channel_alloc c (cv\<lparr>queues := h\<rparr>)")
  with assms(3) have
    "pbind (on_channel ref (maybe_send_header wr)) (\<lambda>_ cv. Some (Ok ref, add_channel ref cv)) cv1 = Some (res, cv')"
    by simp
  from conv_ok_pbind_add_channel [OF conv_ok_new_channel(1) [OF assms(1,2) alloc] keeps_maybe_send_header
      conv_ok_new_channel(2) [OF assms(1,2) alloc] this]
  show ?thesis .
qed

lemma conv_ok_open_udp_tcp:
  assumes "conv_ok cv"
  shows "open_udp_forwarding_channel wr i mps n a r w cv = Some (res, cv') \<Longrightarrow> conv_ok cv'"
    and "open_tcp_forwarding_channel wr i mps n a r w cv = Some (res, cv') \<Longrightarrow> conv_ok cv'"
  unfolding open_udp_forwarding_channel_def open_tcp_forwarding_channel_def
  by (auto split: bind_splits elim!: conv_ok_open_forwarding [OF assms])

lemma keeps_confirm_channel: "keeps (confirm_channel wr n)"
  using keeps_exec_send [of wr "Confirm n"] by simp

lemma conv_ok_confirm_and_register:
  assumes "conv_ok cv" "accepted_channel_ref ch < chan_next cv"
    and "confirm_and_register_channel wr ch cv = Some (res, cv')"
  shows "conv_ok cv'"
  using conv_ok_pbind_add_channel [OF assms(1) keeps_confirm_channel assms(2)] assms(3)
  by (simp add: confirm_and_register_channel_def Let_def)

lemma accept_channel_with_metadata_alt:
  "accept_channel_with_metadata wr cv = (case aq_queue (channels_accept_queue cv) of
       [] \<Rightarrow> Some (Pending, cv)
     | ch # rest \<Rightarrow> map_option (\<lambda>(res, cv). (Ready res, cv)) (confirm_and_register_channel wr ch
         (cv\<lparr>channels_accept_queue := (channels_accept_queue cv)\<lparr>aq_queue := rest\<rparr>\<rparr>)))"
  by (simp add: accept_channel_with_metadata_def aq_next_def aq_wait_next_def split: list.splits)

lemma conv_ok_accept:
  assumes "conv_ok cv" "accept_channel_with_metadata wr cv = Some (res, cv')"
  shows "conv_ok cv'"
proof (cases "aq_queue (channels_accept_queue cv)")
  case Nil
  with assms show ?thesis by (simp add: accept_channel_with_metadata_alt)
next
  case (Cons ch rest)
  let ?cv1 = "cv\<lparr>channels_accept_queue := (channels_accept_queue cv)\<lparr>aq_queue := rest\<rparr>\<rparr>"
  have "conv_ok ?cv1" "accepted_channel_ref ch < chan_next ?cv1"
    using assms(1) Cons conv_ok_accept_queue [of cv "(channels_accept_queue cv)\<lparr>aq_queue := rest\<rparr>"]
    by (auto simp: conv_ok_def registry_ok_def)
  from conv_ok_confirm_and_register [OF this] Cons assms(2) show ?thesis
    by (auto simp: accept_channel_with_metadata_alt)
qed

lemma conv_ok_add_datagram:
  assumes "conv_ok cv" "add_datagram d cv = Some (res, cv')"
  shows "conv_ok cv'"
proof -
  obtain r k where rd: "read_var_int cursor_read_exact (cursor_new d) = (r, k)"
    by (cases "read_var_int cursor_read_exact (cursor_new d)")
  show ?thesis
  proof (cases r)
    case (Inl e)
    with assms rd show ?thesis by (auto simp: add_datagram_def)
  next
    case (Inr i)
    let ?p = "drop (cur_pos k) d"
    show ?thesis
    proof (cases "channels cv i")
      case (Some ref)
      with assms(2) rd Inr have
        "cv' = cv\<lparr>queues := snd (wait_add_datagram ?p (chans cv ref) (queues cv))\<rparr>"
        by (auto simp: add_datagram_def get_channel_def split: prod.splits poll.splits)
      with assms(1) show ?thesis
        by (simp add: wait_add_datagram_def conv_ok_queue_update dq_bounded_ops)
    next
      case None
      let ?q = "snd (dq_add (dq_new DANGLING_DATAGRAM_QUEUE_SIZE) ?p)"
      have "cv' = cv\<lparr>queues := snd (queue_alloc ?q (queues cv)),
          dangling_datagram_queues := (dangling_datagram_queues cv)(i \<mapsto> qh_next (queues cv))\<rparr>"
        using assms(2) rd Inr None
        by (auto simp: add_datagram_def get_channel_def add_dangling_datagrams_queue_def queue_alloc_def)
      moreover have "conv_ok (cv\<lparr>queues := snd (queue_alloc ?q (queues cv))\<rparr>)"
        by (rule conv_ok_queue_alloc [OF assms(1) dq_bounded_ops(1)]) (simp add: dq_new_def)
      ultimately show ?thesis
        using assms(1) None
        by (auto simp: conv_ok_def registry_ok_def queues_separate_def queue_alloc_def)
    qed
  qed
qed

lemma conv_ok_queue_incoming:
  assumes "conv_ok cv" "accepted_channel_ref ch < chan_next cv"
  shows "conv_ok (queue_incoming_accepted_channel ch cv)"
  using assms
  by (simp add: conv_ok_def registry_ok_def queues_separate_def queue_incoming_accepted_channel_def aq_add_def)

lemma conv_ok_incoming:
  assumes "conv_ok cv" "channel_new ctrl cid i ty mps r w ds hdr cs cr n extra (queues cv) = Some (c, h)"
    and "\<And>ref. accepted_channel_ref (wrap ref) = ref"
  shows "conv_ok (incoming_channel wrap c (cv\<lparr>queues := h\<rparr>))"
proof -
  obtain ref cv1 where a: "channel_alloc c (cv\<lparr>queues := h\<rparr>) = (ref, cv1)"
    by (cases "channel_alloc c (cv\<lparr>queues := h\<rparr>)")
  from conv_ok_queue_incoming [OF conv_ok_new_channel(1) [OF assms(1,2) a], of "wrap ref"]
    conv_ok_new_channel(2) [OF assms(1,2) a]
  show ?thesis
    by (simp add: incoming_channel_def a assms(3))
qed

lemma conv_ok_recv:
  assumes "conv_ok cv" "recv_message rd (chans cv ref) = (res, c)"
  shows "conv_ok (cv\<lparr>chans := (chans cv)(ref := c\<lparr>confirm_received := b\<rparr>)\<rparr>)"
proof -
  have "info c = info (chans cv ref)" "datagrams_queue c = datagrams_queue (chans cv ref)"
    using assms(2) by (auto simp: recv_message_def split: prod.splits)
  then show ?thesis
    by (intro conv_ok_chans assms(1)) simp_all
qed

lemma conv_ok_step: "conv_step rd wr cv cv' \<Longrightarrow> conv_ok cv \<Longrightarrow> conv_ok cv'"
proof (induction rule: conv_step.induct)
  case (open_session i ty mps n r w cv ref cv')
  then show ?case by (rule conv_ok_open_channel [rotated])
next
  case (open_udp i mps n a r w cv res cv')
  then show ?case by (rule conv_ok_open_udp_tcp(1) [rotated])
next
  case (open_tcp i mps n a r w cv res cv')
  then show ?case by (rule conv_ok_open_udp_tcp(2) [rotated])
next
  case (incoming ctrl cid i ty mps r w ds hdr cs cr n extra cv c h wrap)
  have "\<And>ref. accepted_channel_ref (wrap ref) = ref"
    using incoming.hyps(2) by auto
  then show ?case by (rule conv_ok_incoming [OF incoming.prems incoming.hyps(1)])
next
  case (accept cv res cv')
  then show ?case by (rule conv_ok_accept [rotated])
next
  case (datagram d cv res cv')
  then show ?case by (rule conv_ok_add_datagram [rotated])
next
  case (resume_add q cv d)
  then show ?case by (intro conv_ok_queue_update dq_bounded_ops(2))
next
  case (receive q cv)
  then show ?case by (intro conv_ok_queue_update dq_bounded_ops(4))
next
  case (send ref cv s res cv')
  show ?case
    by (rule conv_ok_on_channel(1) [OF send.prems keeps_exec_send send.hyps(2)])
next
  case (receive_message ref cv res c b)
  then show ?case by (intro conv_ok_recv)
qed

lemma conv_ok_new: "conv_ok (conversation_new ctrl cid mps n chs qs)"
  by (simp add: conversation_new_def conv_ok_def registry_ok_def queues_separate_def queues_bounded_def
      aq_new_def)

section \<open>Routing\<close>

lemma add_datagram_decoded:
  assumes "varint_ok i"
  shows "add_datagram (var_int_bytes i @ payload) cv = (case channels cv i of
       Some ref \<Rightarrow> (case wait_add_datagram payload (chans cv ref) (queues cv) of
           (Ready _, h) \<Rightarrow> Some (Ready (Ok ()), cv\<lparr>queues := h\<rparr>)
         | (Pending, h) \<Rightarrow> Some (Pending, cv\<lparr>queues := h\<rparr>))
     | None \<Rightarrow> Some (Ready (Err (ChannelNotFound i)),
         cv\<lparr>queues := snd (queue_alloc (snd (dq_add (dq_new DANGLING_DATAGRAM_QUEUE_SIZE) payload)) (queues cv)),
           dangling_datagram_queues := (dangling_datagram_queues cv)(i \<mapsto> qh_next (queues cv))\<rparr>))"
proof -
  have "read_var_int cursor_read_exact (cursor_new (var_int_bytes i @ payload))
      = (Ok i, cursor_adv (length (var_int_bytes i)) (cursor_new (var_int_bytes i @ payload)))"
    by (rule parsesD [OF cur.parses_var_int [OF assms]]) simp
  then show ?thesis
    by (simp add: add_datagram_def get_channel_def cursor_adv_def cursor_new_def Let_def queue_alloc_def
        add_dangling_datagrams_queue_def split: option.splits)
qed

lemma dq_add_fresh:
  "dq_queue (snd (dq_add (dq_new DANGLING_DATAGRAM_QUEUE_SIZE) payload)) = [payload]"
  "dq_capacity (snd (dq_add (dq_new DANGLING_DATAGRAM_QUEUE_SIZE) payload)) = 10"
  by (simp_all add: dq_add_def dq_new_def DANGLING_DATAGRAM_QUEUE_SIZE_def)

lemma add_channel_queue:
  "dangling_datagram_queues cv (info_channel_id (info (chans cv ref))) = Some q \<Longrightarrow>
     datagrams_queue (chans (add_channel ref cv) ref) = q \<and> queues (add_channel ref cv) = queues cv"
  by (simp add: add_channel_def add_channel_register_def add_channel_attach_def set_datagram_queue_def Let_def)

text \<open>Draining moves the datagrams over, in order, as far as the channel's queue has room.\<close>

lemma drain_queue_returns:
  assumes "queue \<noteq> datagrams_queue c"
    and "length (dq_queue (qh_queues h (datagrams_queue c))) \<le> dq_capacity (qh_queues h (datagrams_queue c))"
  shows "\<exists>h'. drain_queue queue c h = Some h' \<and> dq_queue (qh_queues h' queue) = []
    \<and> dq_queue (qh_queues h' (datagrams_queue c)) = dq_queue (qh_queues h (datagrams_queue c))
        @ take (dq_capacity (qh_queues h (datagrams_queue c)) - length (dq_queue (qh_queues h (datagrams_queue c))))
            (dq_queue (qh_queues h queue))"
  using assms(2)
proof (induction "dq_queue (qh_queues h queue)" arbitrary: h)
  case Nil
  then show ?case
    by (simp add: drain_queue.simps [of queue c h] queue_update_def dq_next_def)
next
  case (Cons d ds)
  let ?q = "datagrams_queue c"
  define h1 where "h1 = snd (queue_update queue dq_next h)"
  define h2 where "h2 = snd (channel_add_datagram d c h1)"
  have step: "drain_queue queue c h = drain_queue queue c h2"
    unfolding h1_def h2_def using Cons.hyps(2)
    by (simp add: drain_queue.simps [of queue c h] queue_update_def dq_next_def flip: Cons.hyps(2))
  have q1: "dq_queue (qh_queues h1 queue) = ds" "qh_queues h1 ?q = qh_queues h ?q"
    using assms(1) by (simp_all add: h1_def queue_update_def dq_next_def flip: Cons.hyps(2))
  have q2: "dq_queue (qh_queues h2 queue) = ds" "qh_queues h2 ?q = snd (dq_add (qh_queues h ?q) d)"
    using assms(1) q1 by (auto simp: h2_def channel_add_datagram_def queue_update_def split: prod.splits)
  have "length (dq_queue (qh_queues h2 ?q)) \<le> dq_capacity (qh_queues h2 ?q)"
    using Cons.prems dq_bounded_ops(1) by (simp add: q2)
  from Cons.hyps(1) [OF q2(1) [symmetric] this] Cons.prems show ?case
    unfolding step q2
    by (auto simp: dq_add_def take_Cons' simp flip: Cons.hyps(2) split: if_splits)
qed

section \<open>Properties of conversations\<close>

text \<open>
  C14: In every reachable state of a conversation, whatever its peer and its callers do and whatever
  writes fail, registered channels are registered under their own id, an id with early datagrams
  waiting has no channel, no two channels and no waiting ids share a queue, and no queue holds more
  than its capacity.
\<close>

theorem conversation_invariant:
  assumes "(conv_step rd wr)\<^sup>*\<^sup>* (conversation_new ctrl cid mps n chs qs) cv"
  shows "registry_ok cv \<and> queues_separate cv \<and> queues_bounded (queues cv)"
proof -
  have "conv_ok cv"
    using assms by (induction rule: rtranclp_induct) (auto intro: conv_ok_new conv_ok_step)
  then show ?thesis
    by (simp add: conv_ok_def)
qed

theorem conversation_invariant_witness:
  "let cv = conversation_new 0 [] 100 4 (\<lambda>_. memory_channel 100 None []) (\<lambda>_. dq_new 0);
       cv' = cv\<lparr>queues := snd (queue_alloc (snd (dq_add (dq_new 10) [9])) (queues cv)),
         dangling_datagram_queues := [4 \<mapsto> 0]\<rparr>
   in conv_step brs_read_exact rss_write_all cv cv' \<and> registry_ok cv' \<and> queues_separate cv'"
proof -
  let ?cv = "conversation_new 0 [] 100 4 (\<lambda>_. memory_channel 100 None []) (\<lambda>_. dq_new 0)"
  let ?cv' = "?cv\<lparr>queues := snd (queue_alloc (snd (dq_add (dq_new 10) [9])) (queues ?cv)),
         dangling_datagram_queues := [4 \<mapsto> 0]\<rparr>"
  have "add_datagram (var_int_bytes 4 @ [9]) ?cv = Some (Ready (Err (ChannelNotFound 4)), ?cv')"
    by (subst add_datagram_decoded)
      (simp_all add: max_varint_defs conversation_new_def DANGLING_DATAGRAM_QUEUE_SIZE_def)
  then have step: "conv_step brs_read_exact rss_write_all ?cv ?cv'"
    by (rule conv_step.datagram)
  then have "(conv_step brs_read_exact rss_write_all)\<^sup>*\<^sup>* ?cv ?cv'"
    by (rule r_into_rtranclp)
  from conversation_invariant [OF this] step show ?thesis
    by (simp only: Let_def simp_thms)
qed

text \<open>
  C32: Datagrams go to the channel they name and to no other. With room in the queue of the registered
  channel, \<^verbatim>\<open>add_datagram\<close> appends exactly the payload to that queue and changes no queue of another
  channel; with the queue full it waits, leaving every queue as it was.
\<close>

theorem datagram_routed:
  assumes "conv_ok cv" and "channels cv i = Some ref" and "append_var_int [] i = Some enc"
  shows "\<exists>cv'. (let q = qh_queues (queues cv) (datagrams_queue (chans cv ref));
            q' = qh_queues (queues cv') (datagrams_queue (chans cv ref))
       in if length (dq_queue q) < dq_capacity q
          then add_datagram (enc @ payload) cv = Some (Ready (Ok ()), cv') \<and> dq_queue q' = dq_queue q @ [payload]
          else add_datagram (enc @ payload) cv = Some (Pending, cv') \<and> q' = q)
     \<and> channels cv' = channels cv \<and> chans cv' = chans cv
     \<and> (\<forall>other<chan_next cv. other \<noteq> ref \<longrightarrow>
          qh_queues (queues cv') (datagrams_queue (chans cv other))
          = qh_queues (queues cv) (datagrams_queue (chans cv other)))"
proof -
  have ok: "varint_ok i"
    using assms(3) append_var_int_None_iff [of "[]" i] by (simp add: not_less)
  have enc: "enc = var_int_bytes i"
    using assms(3) append_var_int_eq [OF ok, of "[]"] by simp
  have "datagrams_queue (chans cv other) \<noteq> datagrams_queue (chans cv ref)"
    if "other < chan_next cv" "other \<noteq> ref" for other
    using assms(1,2) that unfolding conv_ok_def registry_ok_def queues_separate_def by blast
  then show ?thesis
    unfolding enc add_datagram_decoded [OF ok]
    by (intro exI [of _ "cv\<lparr>queues := snd (wait_add_datagram payload (chans cv ref) (queues cv))\<rparr>"])
      (simp add: assms(2) wait_add_datagram_def queue_update_def dq_wait_add_def Let_def)
qed

text \<open>A conversation over in-memory streams with one channel registered under id 4.\<close>

definition memory_conversation :: "(bytes_receive_stream, recording_send_stream) conversation" where
  "memory_conversation =
     (conversation_new 0 [] 100 4 (\<lambda>_. memory_channel 100 None []) (\<lambda>_. dq_new 2))
       \<lparr>channels := [4 \<mapsto> 0], chan_next := 1, queues := \<lparr>qh_next = 1, qh_queues = (\<lambda>_. dq_new 2)\<rparr>\<rparr>"

lemma conv_ok_memory_conversation:
  "conv_ok memory_conversation" "conv_ok (memory_conversation\<lparr>channels := Map.empty\<rparr>)"
  by (auto simp: memory_conversation_def conversation_new_def conv_ok_def registry_ok_def
      queues_separate_def queues_bounded_def memory_channel_def dq_new_def aq_new_def)

theorem datagram_routed_witness:
  "\<exists>cv'. add_datagram [4, 7, 8] memory_conversation = Some (Ready (Ok ()), cv')
     \<and> dq_queue (qh_queues (queues cv') 0) = [[7, 8]]"
proof -
  have "append_var_int [] 4 = Some [4]" "channels memory_conversation 4 = Some 0"
    by (simp_all add: append_var_int_def max_varint_defs memory_conversation_def)
  from datagram_routed [OF conv_ok_memory_conversation(1) this(2,1), of "[7, 8]"] show ?thesis
    by (fastforce simp: memory_conversation_def conversation_new_def memory_channel_def dq_new_def Let_def)
qed

text \<open>
  A datagram that arrives before its channel is not lost: it is reported as \<^verbatim>\<open>ChannelNotFound\<close>, and
  when the channel is registered afterwards, the first datagram the channel receives is that payload.
\<close>

theorem early_datagram_delivered:
  assumes "conv_ok cv" and "channels cv i = None" and "append_var_int [] i = Some enc"
    and "ref < chan_next cv" and "info_channel_id (info (chans cv ref)) = i"
  shows "\<exists>cv1. add_datagram (enc @ payload) cv = Some (Ready (Err (ChannelNotFound i)), cv1)
    \<and> fst (receive_datagram (chans (add_channel ref cv1) ref) (queues (add_channel ref cv1))) = Ready payload"
proof -
  have ok: "varint_ok i"
    using assms(3) append_var_int_None_iff [of "[]" i] by (simp add: not_less)
  have enc: "enc = var_int_bytes i"
    using assms(3) append_var_int_eq [OF ok, of "[]"] by simp
  obtain cv1 where cv1: "add_datagram (enc @ payload) cv = Some (Ready (Err (ChannelNotFound i)), cv1)"
    "chans cv1 = chans cv" "dangling_datagram_queues cv1 i = Some (qh_next (queues cv))"
    "dq_queue (qh_queues (queues cv1) (qh_next (queues cv))) = [payload]"
    unfolding enc add_datagram_decoded [OF ok]
    by (simp add: assms(2) queue_alloc_def dq_add_fresh)
  from add_channel_queue [of cv1 ref "qh_next (queues cv)"] cv1 assms(5) show ?thesis
    by (auto simp: receive_datagram_def queue_update_def dq_wait_next_def dq_next_def split: prod.splits)
qed

theorem early_datagram_delivered_witness:
  "\<exists>cv1. add_datagram [4, 7] (memory_conversation\<lparr>channels := Map.empty\<rparr>)
       = Some (Ready (Err (ChannelNotFound 4)), cv1)
     \<and> fst (receive_datagram (chans (add_channel 0 cv1) 0) (queues (add_channel 0 cv1))) = Ready [7]"
proof -
  have "append_var_int [] 4 = Some [4]"
    by (simp add: append_var_int_def max_varint_defs)
  from early_datagram_delivered [OF conv_ok_memory_conversation(2) _ this, of 0 "[7]"] show ?thesis
    by (simp add: memory_conversation_def conversation_new_def memory_channel_def)
qed


text \<open>
  \<^verbatim>\<open>add_channel\<close> releases its lock between registering a channel and giving it the queue of early
  datagrams. A datagram that is added in between is reported as delivered and is lost: it sits in the
  queue that is then replaced, and the channel receives only the early one.
\<close>

theorem datagram_lost_while_registering:
  "\<exists>cv1 pending cv2 cv3. add_datagram [4, 7] (memory_conversation\<lparr>channels := Map.empty\<rparr>)
        = Some (Ready (Err (ChannelNotFound 4)), cv1)
     \<and> add_channel_register 0 cv1 = (pending, cv2)
     \<and> add_datagram [4, 8] cv2 = Some (Ready (Ok ()), cv3)
     \<and> (let cv4 = add_channel_attach 0 pending cv3
        in dq_queue (qh_queues (queues cv4) (datagrams_queue (chans cv4 0))) = [[7]])"
proof -
  have ok: "varint_ok 4" and enc: "[4, d] = var_int_bytes 4 @ [d]" for d
    by (simp_all add: max_varint_defs var_int_bytes_def append_var_int_def)
  show ?thesis
    unfolding enc
    by (simp add: add_datagram_decoded [OF ok] memory_conversation_def conversation_new_def memory_channel_def
        queue_alloc_def dq_add_fresh add_channel_register_def add_channel_attach_def
        set_datagram_queue_def Let_def wait_add_datagram_def queue_update_def dq_wait_add_def dq_new_def
        dq_add_def DANGLING_DATAGRAM_QUEUE_SIZE_def)
qed

text \<open>
  C33: Accepting a channel takes the oldest one waiting. On success it has sent the peer exactly one
  confirmation with the conversation's maximum packet size (after the channel's own pending header,
  if any), marked the channel confirmed and registered it under its id; when sending fails the
  channel is not registered.
\<close>

theorem accepted_channel_confirmed:
  assumes "send_stream wr written" and "aq_queue (channels_accept_queue cv) = ch # rest"
    and "accept_channel_with_metadata wr cv = Some (Ready res, cv')"
  shows "aq_queue (channels_accept_queue cv') = rest
    \<and> (case res of
        Err _ \<Rightarrow> channels cv' = channels cv
      | Ok ch' \<Rightarrow> (let ref = accepted_channel_ref ch; c = chans cv ref; c' = chans cv' ref in
          ch' = ch \<and> confirm_sent c' \<and> channels cv' (info_channel_id (info c)) = Some ref
          \<and> (\<exists>enc. to_vec (ChannelOpenConfirmation \<lparr>conf_max_packet_size = conv_max_packet_size cv\<rparr>) = Some enc
               \<and> written (send c') = written (send c) @ (case header c of None \<Rightarrow> [] | Some h \<Rightarrow> h) @ enc)))"
proof -
  let ?ref = "accepted_channel_ref ch"
  let ?cv1 = "cv\<lparr>channels_accept_queue := (channels_accept_queue cv)\<lparr>aq_queue := rest\<rparr>\<rparr>"
  obtain r c' where c': "confirm_channel wr (conv_max_packet_size cv) (chans cv ?ref) = Some (r, c')"
    and acc: "pbind (on_channel ?ref (confirm_channel wr (conv_max_packet_size cv)))
        (\<lambda>_ cv. Some (Ok ch, add_channel ?ref cv)) ?cv1 = Some (res, cv')"
    using assms(2,3)
    by (auto simp: accept_channel_with_metadata_alt confirm_and_register_channel_def Let_def pbind_def
        on_channel_def split: option.splits)
  show ?thesis
  proof (cases r)
    case (Inl e)
    with acc c' show ?thesis
      by (auto simp: pbind_def on_channel_def)
  next
    case (Inr u)
    with c' obtain c1 where c1: "send_message wr
        (ChannelOpenConfirmation \<lparr>conf_max_packet_size = conv_max_packet_size cv\<rparr>) (chans cv ?ref) = Some (Ok (), c1)"
      "c' = c1\<lparr>confirm_sent := True\<rparr>"
      by (auto simp: confirm_channel_def pupdate_def elim!: pbind_OkE)
    from acc c' Inr have cv': "res = Ok ch" "cv' = add_channel ?ref (?cv1\<lparr>chans := (chans cv)(?ref := c')\<rparr>)"
      by (auto simp: pbind_def on_channel_def)
    from send_stream.send_message_ok [OF assms(1) c1(1)] obtain enc where
      "to_vec (ChannelOpenConfirmation \<lparr>conf_max_packet_size = conv_max_packet_size cv\<rparr>) = Some enc"
      "info c1 = info (chans cv ?ref)"
      "written (send c1) = written (send (chans cv ?ref))
         @ (case header (chans cv ?ref) of None \<Rightarrow> [] | Some h \<Rightarrow> h) @ enc"
      by metis
    with cv' c1(2) show ?thesis
      by (auto simp: add_channel_def add_channel_register_def add_channel_attach_def set_datagram_queue_def
          Let_def split: option.splits)
  qed
qed

theorem accepted_channel_confirmed_witness:
  "\<exists>cv'. accept_channel_with_metadata rss_write_all
        (queue_incoming_channel 0 (memory_conversation\<lparr>channels := Map.empty\<rparr>))
      = Some (Ready (Ok (Accepted 0)), cv')
     \<and> channels cv' 4 = Some 0 \<and> rss_bytes (send (chans cv' 0)) = [0x40, 91, 0x40, 100]"
proof -
  let ?cv = "queue_incoming_channel 0 (memory_conversation\<lparr>channels := Map.empty\<rparr>)"
  have q: "aq_queue (channels_accept_queue ?cv) = Accepted 0 # []"
    by (simp add: queue_incoming_channel_def queue_incoming_accepted_channel_def aq_add_def
        memory_conversation_def conversation_new_def aq_new_def)
  have enc: "to_vec (ChannelOpenConfirmation \<lparr>conf_max_packet_size = 100\<rparr>) = Some [0x40, 91, 0x40, 100]"
    by (simp add: to_vec_def message_encode_defs ssh_msg_defs append_var_int_def var_int_len_def max_varint_defs)
  have "\<exists>res cv'. accept_channel_with_metadata rss_write_all ?cv = Some (Ready (Ok res), cv')"
    unfolding accept_channel_with_metadata_alt q list.case
    by (simp add: confirm_and_register_channel_def pbind_def on_channel_def confirm_channel_def send_message_def maybe_send_header_def send_write_all_def rss_write_all_def
        pupdate_def enc Let_def queue_incoming_channel_def queue_incoming_accepted_channel_def
        memory_conversation_def conversation_new_def memory_channel_def pret_def)
  then obtain res cv' where acc: "accept_channel_with_metadata rss_write_all ?cv = Some (Ready (Ok res), cv')"
    by blast
  from accepted_channel_confirmed [OF rss.send_stream_axioms q acc] acc enc show ?thesis
    by (auto simp: Let_def queue_incoming_channel_def queue_incoming_accepted_channel_def
        memory_conversation_def conversation_new_def memory_channel_def rss_new_def)
qed

end
