(* ===== verification/Quinn_Channel.thy ===== *)
theory Quinn_Channel
  imports Conversation
begin

text \<open>
  Channels over QUIC streams: \<^verbatim>\<open>crates/ssh3-quinn/src/channel.rs\<close> and \<^verbatim>\<open>stream.rs\<close>. The \<^verbatim>\<open>quinn\<close> crate is a
  parameter: a receive stream is a state with quinn's own \<open>read_exact\<close>, a bidirectional stream
  is the triple its \<^verbatim>\<open>open_bi\<close> or \<^verbatim>\<open>accept_bi\<close> returned. The router maps control stream ids to
  conversations, which are addresses in a heap because their owners share them.
\<close>

section \<open>Stream adapters\<close>

datatype 'x read_exact_error = FinishedEarly nat | ReadError 'x

datatype send_datagram_error = UnsupportedByPeer | Disabled | TooLarge | ConnectionLost connection_error

type_synonym ('r, 'x) quinn_read_exact_fn = "nat \<Rightarrow> ('r, 'x read_exact_error, bytes) reader"

text \<open>\<open>io_of\<close> is quinn's own conversion of a read error, \<open>early\<close> the text of \<^verbatim>\<open>FinishedEarly\<close>.\<close>

fun read_exact_error_to_io :: "('x \<Rightarrow> io_error) \<Rightarrow> (nat \<Rightarrow> string) \<Rightarrow> 'x read_exact_error \<Rightarrow> io_error" where
  "read_exact_error_to_io io_of early (FinishedEarly n) = io_error_new UnexpectedEof (early n)"
| "read_exact_error_to_io io_of early (ReadError e) = io_of e"

definition quinn_read_exact ::
    "('x \<Rightarrow> io_error) \<Rightarrow> (nat \<Rightarrow> string) \<Rightarrow> ('r, 'x) quinn_read_exact_fn \<Rightarrow> 'r read_exact_fn" where
  "quinn_read_exact io_of early rd n = rmap_err (read_exact_error_to_io io_of early) (rd n)"

definition quinn_cancel_read :: "(u64 \<Rightarrow> 'r \<Rightarrow> 'r) \<Rightarrow> 'r cancel_read_fn" where
  "quinn_cancel_read stop error_code r = stop (if error_code \<le> MAX_VARINT then error_code else MAX_VARINT) r"

text \<open>Writing and closing keep quinn's own conversions of \<^verbatim>\<open>WriteError\<close> and \<^verbatim>\<open>ClosedStream\<close>.\<close>

definition quinn_write_all ::
    "('y \<Rightarrow> io_error) \<Rightarrow> (bytes \<Rightarrow> 'w \<Rightarrow> ('y + unit) \<times> 'w) \<Rightarrow> 'w write_all_fn" where
  "quinn_write_all io_of write_all buf w = (case write_all buf w of (res, w) \<Rightarrow> (map_sum io_of id res, w))"

definition close_error_to_io :: "('y \<Rightarrow> io_error) \<Rightarrow> ('z \<Rightarrow> 'y) \<Rightarrow> 'z \<Rightarrow> io_error" where
  "close_error_to_io io_of write_error_of e = io_of (write_error_of e)"

definition quinn_close ::
    "('y \<Rightarrow> io_error) \<Rightarrow> ('z \<Rightarrow> 'y) \<Rightarrow> ('w \<Rightarrow> ('z + unit) \<times> 'w) \<Rightarrow> 'w close_fn" where
  "quinn_close io_of write_error_of finish w = (case finish w of
     (res, w) \<Rightarrow> (map_sum (close_error_to_io io_of write_error_of) id res, w))"

fun send_datagram_error_kind :: "send_datagram_error \<Rightarrow> error_kind" where
  "send_datagram_error_kind UnsupportedByPeer = Unsupported"
| "send_datagram_error_kind Disabled = Unsupported"
| "send_datagram_error_kind TooLarge = InvalidData"
| "send_datagram_error_kind (ConnectionLost _) = NotConnected"

definition send_datagram_error_to_io :: "(send_datagram_error \<Rightarrow> string) \<Rightarrow> send_datagram_error \<Rightarrow> io_error" where
  "send_datagram_error_to_io txt e = io_error_new (send_datagram_error_kind e) (txt e)"

definition quinn_send_datagram ::
    "(send_datagram_error \<Rightarrow> string) \<Rightarrow> (bytes \<Rightarrow> 'd \<Rightarrow> (send_datagram_error + unit) \<times> 'd) \<Rightarrow> 'd send_datagram_fn" where
  "quinn_send_datagram txt send_datagram_wait datagram d = (case send_datagram_wait datagram d of
     (res, d) \<Rightarrow> (map_sum (send_datagram_error_to_io txt) id res, d))"

section \<open>Reading the header of an incoming channel\<close>

datatype channel_setup_error =
    Setup_Io io_error
  | Setup_Proto proto_error
  | UnexpectedFrameType u64

record incoming_channel_info =
  inc_stream_id :: u64
  inc_header :: channel_header
  inc_forwarding_target :: "socket_addr option"

text \<open>\<open>rd\<close> is \<^const>\<open>quinn_read_exact\<close> on quinn's stream; \<^verbatim>\<open>read_exact\<close> wraps its error once more.\<close>

definition setup_read_exact :: "'r read_exact_fn \<Rightarrow> nat \<Rightarrow> ('r, channel_setup_error, bytes) reader" where
  "setup_read_exact rd n = rmap_err Setup_Io (rd n)"

definition setup_read_byte :: "'r read_exact_fn \<Rightarrow> ('r, channel_setup_error, u8) reader" where
  "setup_read_byte rd = rbind (setup_read_exact rd 1) (\<lambda>byte. rret (byte ! 0))"

definition setup_read_var_int :: "'r read_exact_fn \<Rightarrow> ('r, channel_setup_error, u64) reader" where
  "setup_read_var_int rd =
     rbind (setup_read_byte rd) (\<lambda>first_byte.
       let len = push_bit (unat (drop_bit 6 (first_byte AND 0xc0))) (1 :: 32 word);
           b1 = first_byte AND 0x3f
       in if len = 1 then rret (ucast b1)
     else rbind (setup_read_byte rd) (\<lambda>b2.
       if len = 2 then rret (ucast b2 + push_bit 8 (ucast b1))
     else rbind (setup_read_byte rd) (\<lambda>b3. rbind (setup_read_byte rd) (\<lambda>b4.
       if len = 4 then
         rret (ucast b4 + push_bit 8 (ucast b3) + push_bit 16 (ucast b2) + push_bit 24 (ucast b1))
     else rbind (setup_read_byte rd) (\<lambda>b5. rbind (setup_read_byte rd) (\<lambda>b6.
          rbind (setup_read_byte rd) (\<lambda>b7. rbind (setup_read_byte rd) (\<lambda>b8.
         rret (ucast b8 + push_bit 8 (ucast b7) + push_bit 16 (ucast b6) + push_bit 24 (ucast b5)
               + push_bit 32 (ucast b4) + push_bit 40 (ucast b3) + push_bit 48 (ucast b2)
               + push_bit 56 (ucast b1))))))))))"

definition setup_read_ssh_bytes :: "'r read_exact_fn \<Rightarrow> ('r, channel_setup_error, bytes) reader" where
  "setup_read_ssh_bytes rd =
     rbind (setup_read_var_int rd) (\<lambda>len.
     rbind (rlift (map_sum Setup_Proto id (checked_ssh_string_length len))) (\<lambda>len.
     setup_read_exact rd len))"

definition read_forwarding_target :: "'r read_exact_fn \<Rightarrow> ('r, channel_setup_error, socket_addr) reader" where
  "read_forwarding_target rd =
     rbind (setup_read_var_int rd) (\<lambda>f.
     rbind (rlift (map_sum Setup_Proto id (family_try_from f))) (\<lambda>family.
     rbind (setup_read_exact rd (case family of Ipv4 \<Rightarrow> 4 | Ipv6 \<Rightarrow> 16)) (\<lambda>os.
     rbind (setup_read_exact rd 2) (\<lambda>port.
     rret (case family of
         Ipv4 \<Rightarrow> SocketAddrV4 os (u16_from_be_bytes port)
       | Ipv6 \<Rightarrow> SocketAddrV6 os (u16_from_be_bytes port) 0 0)))))"

definition read_incoming_channel ::
    "'r read_exact_fn \<Rightarrow> u64 \<Rightarrow> ('r, channel_setup_error, incoming_channel_info) reader" where
  "read_incoming_channel rd recv_id =
     rbind (setup_read_var_int rd) (\<lambda>frame_type.
     if frame_type \<noteq> SSH_FRAME_TYPE then rfail (UnexpectedFrameType frame_type)
     else
       rbind (setup_read_var_int rd) (\<lambda>stream.
       rbind (setup_read_ssh_bytes rd) (\<lambda>ty.
       rbind (setup_read_var_int rd) (\<lambda>n.
       rbind (if ty = bstr ''direct-udp'' \<or> ty = bstr ''direct-tcp''
              then rbind (read_forwarding_target rd) (\<lambda>a. rret (Some a)) else rret None) (\<lambda>target.
       rret \<lparr>inc_stream_id = recv_id,
             inc_header = \<lparr>hdr_conversation_stream_id = stream, hdr_channel_type = ty,
               hdr_max_packet_size = n\<rparr>,
             inc_forwarding_target = target\<rparr>)))))"

section \<open>Turning it into a channel of a conversation\<close>

definition into_accepted_channel ::
    "bytes \<Rightarrow> 'r \<Rightarrow> 'w \<Rightarrow> conversation_datagram_sender option \<Rightarrow> nat \<Rightarrow> incoming_channel_info
     \<Rightarrow> ('r, 'w) conversation \<Rightarrow> (accepted_channel \<times> ('r, 'w) conversation) option" where
  "into_accepted_channel cid r w dsender datagrams_queue_size inc cv =
     (let channel_type = hdr_channel_type (inc_header inc);
          dsender = (if channel_type = bstr ''direct-udp'' then dsender else None)
      in do {
        (c, h) \<leftarrow> channel_new (hdr_conversation_stream_id (inc_header inc)) cid (inc_stream_id inc) channel_type
          (hdr_max_packet_size (inc_header inc)) r w dsender False False True datagrams_queue_size None (queues cv);
        let (ref, cv) = channel_alloc c (cv\<lparr>queues := h\<rparr>);
        Some (case inc_forwarding_target inc of
            Some remote_addr \<Rightarrow>
              if channel_type = bstr ''direct-udp'' then UdpForwarding ref remote_addr
              else if channel_type = bstr ''direct-tcp'' then TcpForwarding ref remote_addr
              else Accepted ref
          | None \<Rightarrow> Accepted ref, cv)
      })"

definition into_accepted_channel_for_conversation ::
    "'r \<Rightarrow> 'w \<Rightarrow> incoming_channel_info \<Rightarrow> ('r, 'w) conversation
     \<Rightarrow> (accepted_channel \<times> ('r, 'w) conversation) option" where
  "into_accepted_channel_for_conversation r w inc cv =
     into_accepted_channel (conversation_id cv) r w
       (if hdr_channel_type (inc_header inc) = bstr ''direct-udp''
        then Some (datagram_sender_for_channel (inc_stream_id inc) cv) else None)
       (default_datagrams_queue_size cv) inc cv"

definition incoming_into_channel ::
    "bytes \<Rightarrow> 'r \<Rightarrow> 'w \<Rightarrow> conversation_datagram_sender option \<Rightarrow> nat \<Rightarrow> incoming_channel_info
     \<Rightarrow> ('r, 'w) conversation \<Rightarrow> (nat \<times> ('r, 'w) conversation) option" where
  "incoming_into_channel cid r w dsender datagrams_queue_size inc cv =
     map_option (\<lambda>(ch, cv). (into_channel ch, cv))
       (into_accepted_channel cid r w dsender datagrams_queue_size inc cv)"

section \<open>The router\<close>

record ('r, 'w) channel_router =
  conversations :: "u64 \<rightharpoonup> nat"
  convs :: "nat \<Rightarrow> ('r, 'w) conversation"

datatype route_incoming_channel_error = UnknownConversation u64 u64

definition router_new :: "(nat \<Rightarrow> ('r, 'w) conversation) \<Rightarrow> ('r, 'w) channel_router" where
  "router_new cvs = \<lparr>conversations = Map.empty, convs = cvs\<rparr>"

definition register_conversation :: "nat \<Rightarrow> ('r, 'w) channel_router \<Rightarrow> ('r, 'w) channel_router" where
  "register_conversation ref rt =
     rt\<lparr>conversations := (conversations rt)(control_stream_id (convs rt ref) \<mapsto> ref)\<rparr>"

definition unregister_conversation ::
    "u64 \<Rightarrow> ('r, 'w) channel_router \<Rightarrow> nat option \<times> ('r, 'w) channel_router" where
  "unregister_conversation i rt =
     (conversations rt i, rt\<lparr>conversations := (conversations rt)(i := None)\<rparr>)"

definition router_conversation :: "u64 \<Rightarrow> ('r, 'w) channel_router \<Rightarrow> nat option" where
  "router_conversation i rt = conversations rt i"

definition route_incoming_channel ::
    "incoming_channel_info \<Rightarrow> 'w \<Rightarrow> 'r \<Rightarrow> (('r, 'w) channel_router, route_incoming_channel_error, nat) op" where
  "route_incoming_channel inc w r rt =
     (let control_id = hdr_conversation_stream_id (inc_header inc) in
      case router_conversation control_id rt of
        None \<Rightarrow> Some (Err (UnknownConversation control_id (inc_stream_id inc)), rt)
      | Some ref \<Rightarrow> do {
          (ch, cv) \<leftarrow> into_accepted_channel_for_conversation r w inc (convs rt ref);
          Some (Ok ref, rt\<lparr>convs := (convs rt)(ref := queue_incoming_accepted_channel ch cv)\<rparr>)
        })"

datatype accept_channel_error = Accept_Connection connection_error | Accept_Setup channel_setup_error

datatype route_accepted_channel_error =
    Route_Accept accept_channel_error
  | Route_Route route_incoming_channel_error

text \<open>The bidirectional stream that quinn accepted: its id and its two halves.\<close>

type_synonym ('r, 'w) bi_stream = "u64 \<times> 'w \<times> 'r"

definition accept_bi_channel ::
    "'r read_exact_fn \<Rightarrow> connection_error + ('r, 'w) bi_stream
     \<Rightarrow> accept_channel_error + (incoming_channel_info \<times> 'w \<times> 'r)" where
  "accept_bi_channel rd accepted = (case accepted of
       Err e \<Rightarrow> Err (Accept_Connection e)
     | Ok (i, w, r) \<Rightarrow> (case read_incoming_channel rd i r of
         (Err e, _) \<Rightarrow> Err (Accept_Setup e)
       | (Ok inc, r) \<Rightarrow> Ok (inc, w, r)))"

definition accept_and_route_channel ::
    "'r read_exact_fn \<Rightarrow> connection_error + ('r, 'w) bi_stream
     \<Rightarrow> (('r, 'w) channel_router, route_accepted_channel_error, nat) op" where
  "accept_and_route_channel rd accepted rt = (case accept_bi_channel rd accepted of
       Err e \<Rightarrow> Some (Err (Route_Accept e), rt)
     | Ok (inc, w, r) \<Rightarrow> (case route_incoming_channel inc w r rt of
         None \<Rightarrow> None
       | Some (res, rt) \<Rightarrow> Some (map_sum Route_Route id res, rt)))"

text \<open>The accept loop, over the streams that the connection accepts; it ends with the first error.\<close>

fun accept_and_route_channels_forever ::
    "'r read_exact_fn \<Rightarrow> (connection_error + ('r, 'w) bi_stream) list
     \<Rightarrow> (('r, 'w) channel_router, route_accepted_channel_error, unit) op" where
  "accept_and_route_channels_forever rd [] = pret ()"
| "accept_and_route_channels_forever rd (accepted # rest) =
     pbind (accept_and_route_channel rd accepted) (\<lambda>_. accept_and_route_channels_forever rd rest)"

section \<open>Opening channels on new streams\<close>

datatype open_channel_error = Open_Connection connection_error | Open_Conversation conversation_error

definition quinn_open_channel ::
    "connection_error + ('r, 'w) bi_stream \<Rightarrow> bytes \<Rightarrow> u64 \<Rightarrow> nat
     \<Rightarrow> (('r, 'w) conversation, open_channel_error, nat) op" where
  "quinn_open_channel opened ty mps qsize cv = (case opened of
       Err e \<Rightarrow> Some (Err (Open_Connection e), cv)
     | Ok (i, w, r) \<Rightarrow> do { (ref, cv) \<leftarrow> open_channel i ty mps qsize r w cv; Some (Ok ref, cv) })"

definition quinn_open_udp_forwarding_channel ::
    "'w write_all_fn \<Rightarrow> connection_error + ('r, 'w) bi_stream \<Rightarrow> u64 \<Rightarrow> nat \<Rightarrow> socket_addr
     \<Rightarrow> (('r, 'w) conversation, open_channel_error, nat) op" where
  "quinn_open_udp_forwarding_channel wr opened mps qsize remote_addr cv = (case opened of
       Err e \<Rightarrow> Some (Err (Open_Connection e), cv)
     | Ok (i, w, r) \<Rightarrow> do {
         (res, cv) \<leftarrow> open_udp_forwarding_channel wr i mps qsize remote_addr r w cv;
         Some (map_sum Open_Conversation id res, cv)
       })"

definition quinn_open_tcp_forwarding_channel ::
    "'w write_all_fn \<Rightarrow> connection_error + ('r, 'w) bi_stream \<Rightarrow> u64 \<Rightarrow> nat \<Rightarrow> socket_addr
     \<Rightarrow> (('r, 'w) conversation, open_channel_error, nat) op" where
  "quinn_open_tcp_forwarding_channel wr opened mps qsize remote_addr cv = (case opened of
       Err e \<Rightarrow> Some (Err (Open_Connection e), cv)
     | Ok (i, w, r) \<Rightarrow> do {
         (res, cv) \<leftarrow> open_tcp_forwarding_channel wr i mps qsize remote_addr r w cv;
         Some (map_sum Open_Conversation id res, cv)
       })"


section \<open>The reader agrees with the protocol parsers\<close>

fun setup_error :: "proto_error \<Rightarrow> channel_setup_error" where
  "setup_error (Proto_Io e) = Setup_Io e"
| "setup_error e = Setup_Proto e"

lemma setup_read_byte_eq: "setup_read_byte rd = rmap_err setup_error (read_byte rd)"
  by (simp add: setup_read_byte_def setup_read_exact_def read_byte_def result_simps)

lemma setup_read_var_int_eq: "setup_read_var_int rd = rmap_err setup_error (read_var_int rd)"
  unfolding setup_read_var_int_def read_var_int_def
  by (simp only: result_simps setup_read_byte_eq Let_def)

lemma setup_checked_eqs:
  "map_sum Setup_Proto id (checked_ssh_string_length n) = map_sum setup_error id (checked_ssh_string_length n)"
  "map_sum Setup_Proto id (family_try_from f) = map_sum setup_error id (family_try_from f)"
  by (simp_all add: checked_ssh_string_length_def family_try_from_def)

lemma setup_read_ssh_bytes_eq: "setup_read_ssh_bytes rd = rmap_err setup_error (read_ssh_bytes rd)"
  unfolding setup_read_ssh_bytes_def read_ssh_bytes_def
  by (simp add: result_simps setup_read_var_int_eq setup_checked_eqs setup_read_exact_def [abs_def])

lemma read_forwarding_target_eq: "read_forwarding_target rd = rmap_err setup_error (parse_forwarding_payload rd)"
  unfolding read_forwarding_target_def parse_forwarding_payload_def
  by (simp only: result_simps setup_read_var_int_eq setup_checked_eqs setup_read_exact_def
      address_family_case_eq setup_error.simps)

lemmas setup_read_eqs = setup_read_var_int_eq setup_read_ssh_bytes_eq read_forwarding_target_eq

definition is_forwarding :: "bytes \<Rightarrow> bool" where
  "is_forwarding ty \<longleftrightarrow> ty = bstr ''direct-udp'' \<or> ty = bstr ''direct-tcp''"

context byte_source
begin

lemma decodes_setup:
  "varint_ok v \<Longrightarrow> decodes view adv eof Setup_Io (setup_read_var_int rd) (var_int_bytes v) v"
  "ssh_string_ok bs \<Longrightarrow> decodes view adv eof Setup_Io (setup_read_ssh_bytes rd) (ssh_bytes_enc bs) bs"
  "ip_addr_ok ip \<Longrightarrow> decodes view adv eof Setup_Io (read_forwarding_target rd)
     (concat (forwarding_fields ip port)) (socket_addr_of ip port)"
  unfolding setup_read_eqs
  using decodes_rmap_err [OF decodes_var_int, of v setup_error]
    decodes_rmap_err [OF decodes_ssh_bytes, of bs setup_error]
    decodes_rmap_err [OF decodes_forwarding_payload, of ip setup_error port]
  by simp_all

lemma decodes_incoming:
  assumes h: "header_ok h" and t: "if is_forwarding (hdr_channel_type h)
      then ip_addr_ok ip \<and> extra = concat (forwarding_fields ip port) \<and> target = Some (socket_addr_of ip port)
      else extra = [] \<and> target = None"
  shows "decodes view adv eof Setup_Io (read_incoming_channel rd i)
    (concat [var_int_bytes SSH_FRAME_TYPE, concat (header_fields h), extra])
    \<lparr>inc_stream_id = i, inc_header = h, inc_forwarding_target = target\<rparr>"
proof -
  let ?ty = "hdr_channel_type h"
  have target: "decodes view adv eof Setup_Io
      (if ?ty = bstr ''direct-udp'' \<or> ?ty = bstr ''direct-tcp''
       then rbind (read_forwarding_target rd) (\<lambda>a. rret (Some a)) else rret None) extra target"
    using t decodes_rbind [OF decodes_setup(3) [of ip port] decodes_rret, of "\<lambda>a. Some a"]
    by (auto simp: is_forwarding_def decodes_rret split: if_splits)
  have "decodes view adv eof Setup_Io
      (rbind (setup_read_var_int rd) (\<lambda>stream. rbind (setup_read_ssh_bytes rd) (\<lambda>ty.
       rbind (setup_read_var_int rd) (\<lambda>n.
       rbind (if ty = bstr ''direct-udp'' \<or> ty = bstr ''direct-tcp''
              then rbind (read_forwarding_target rd) (\<lambda>a. rret (Some a)) else rret None) (\<lambda>target.
       rret \<lparr>inc_stream_id = i,
             inc_header = \<lparr>hdr_conversation_stream_id = stream, hdr_channel_type = ty,
               hdr_max_packet_size = n\<rparr>,
             inc_forwarding_target = target\<rparr>)))))
      (concat (header_fields h @ [extra])) \<lparr>inc_stream_id = i, inc_header = h, inc_forwarding_target = target\<rparr>"
    unfolding header_fields_def append.simps
    by (intro decodes_rbind_concat [OF decodes_setup(1)] decodes_rbind_concat [OF decodes_setup(2)]
        decodes_rbind_concat [OF target] decodes_rret_concat) (use h in \<open>simp_all add: header_ok_def\<close>)
  then show ?thesis
    unfolding read_incoming_channel_def
    by (intro decodes_rbind_concat [OF decodes_setup(1) [OF varint_ok_SSH_FRAME_TYPE]]) simp
qed

end

section \<open>The router as a registry\<close>

text \<open>
  A registry keeps the values it was given under a key it computes from them, a later one in place
  of an earlier one. The router and the channels manager of a conversation are registries.
\<close>

locale registry =
  fixes lookup :: "'s \<Rightarrow> 'k \<Rightarrow> 'v option"
    and insert_value :: "'v \<Rightarrow> 's \<Rightarrow> 's"
    and key :: "'s \<Rightarrow> 'v \<Rightarrow> 'k"
  assumes lookup_insert: "lookup (insert_value v s) k = (if k = key s v then Some v else lookup s k)"
    and key_insert: "key (insert_value v s) u = key s u"
begin

lemma key_fold: "key (fold insert_value vs s) u = key s u"
  by (induction vs arbitrary: s) (simp_all add: key_insert)

lemma lookup_fold:
  "lookup (fold insert_value vs s) k
     = (case find (\<lambda>v. key s v = k) (rev vs) of Some v \<Rightarrow> Some v | None \<Rightarrow> lookup s k)"
proof (induction vs rule: rev_induct)
  case (snoc v vs)
  then show ?case
    by (simp add: lookup_insert key_fold)
qed simp

end

locale removable_registry = registry lookup insert_value key
  for lookup :: "'s \<Rightarrow> 'k \<Rightarrow> 'v option" and insert_value key +
  fixes remove :: "'k \<Rightarrow> 's \<Rightarrow> 'v option \<times> 's"
  assumes remove_result: "fst (remove k s) = lookup s k"
    and lookup_remove: "lookup (snd (remove k s)) j = (if j = k then None else lookup s j)"
begin

lemma remove_inserted: "fst (remove (key s v) (insert_value v s)) = Some v"
  by (simp add: remove_result lookup_insert)

end

interpretation ch_registry: registry "\<lambda>cv i. get_channel i cv" add_channel
    "\<lambda>cv ref. info_channel_id (info (chans cv ref))"
  by unfold_locales (auto simp: get_channel_def add_channel_def add_channel_register_def
      add_channel_attach_def set_datagram_queue_def Let_def split: option.splits)

interpretation rt_registry: removable_registry "\<lambda>rt i. router_conversation i rt" register_conversation
    "\<lambda>rt ref. control_stream_id (convs rt ref)" unregister_conversation
  by unfold_locales (auto simp: router_conversation_def register_conversation_def unregister_conversation_def)

section \<open>From the opener to the router\<close>

lemma header_encode_SomeD:
  assumes "header_encode h extra = Some enc" and "ssh_string_ok (hdr_channel_type h)"
  shows "header_ok h"
  using assms append_var_int_None_iff
  by (auto simp: header_encode_def header_ok_def split: bind_splits) (metis linorder_not_less option.distinct(1))+

context send_stream
begin

lemma on_channel_header_written:
  assumes "(let (ref, cv) = channel_alloc c cv
          in pbind (on_channel ref (maybe_send_header wr)) (\<lambda>_ cv. Some (Ok ref, add_channel ref cv)) cv)
         = Some (Ok ref, cv')" and "header c = Some enc"
  shows "written (send (chans cv' ref)) = written (send c) @ enc"
proof -
  let ?cv = "snd (channel_alloc c cv)"
  have c: "chans ?cv (chan_next cv) = c"
    by (simp add: channel_alloc_def)
  from assms(1) obtain c1 where "maybe_send_header wr c = Some (Ok (), c1)" "ref = chan_next cv"
      "cv' = add_channel ref (?cv\<lparr>chans := (chans ?cv)(chan_next cv := c1)\<rparr>)"
    by (auto simp: channel_alloc_def on_channel_def map_sum_def elim!: pbind_OkE
        split: option.splits prod.splits sum.splits)
  with maybe_send_header_ok [of c c1] assms(2) show ?thesis
    by (auto simp: add_channel_def add_channel_register_def add_channel_attach_def set_datagram_queue_def
        Let_def split: option.splits)
qed

lemma open_forwarding_written:
  assumes "(if udp then open_udp_forwarding_channel wr i mps n a r w cv
            else open_tcp_forwarding_channel wr i mps n a r w cv) = Some (Ok ref, cv')"
  shows "\<exists>enc. header_encode \<lparr>hdr_conversation_stream_id = control_stream_id cv,
        hdr_channel_type = bstr (if udp then ''direct-udp'' else ''direct-tcp''), hdr_max_packet_size = mps\<rparr>
        (Some (concat (forwarding_fields (socket_ip a) (socket_port a)))) = Some enc
      \<and> written (send (chans cv' ref)) = written w @ enc"
proof -
  obtain ds c h where new: "channel_new (control_stream_id cv) (conversation_id cv) i
      (bstr (if udp then ''direct-udp'' else ''direct-tcp'')) mps r w ds True True False n
      (Some (concat (forwarding_fields (socket_ip a) (socket_port a)))) (queues cv) = Some (c, h)"
    and run: "(let (ref, cv) = channel_alloc c (cv\<lparr>queues := h\<rparr>)
          in pbind (on_channel ref (maybe_send_header wr)) (\<lambda>_ cv. Some (Ok ref, add_channel ref cv)) cv)
         = Some (Ok ref, cv')"
    using assms
    by (cases udp) (auto simp: open_udp_forwarding_channel_def open_tcp_forwarding_channel_def
        build_forwarding_fields split: bind_splits)
  from new obtain enc where "header_encode \<lparr>hdr_conversation_stream_id = control_stream_id cv,
        hdr_channel_type = bstr (if udp then ''direct-udp'' else ''direct-tcp''), hdr_max_packet_size = mps\<rparr>
        (Some (concat (forwarding_fields (socket_ip a) (socket_port a)))) = Some enc"
      "header c = Some enc" "send c = w"
    by (auto simp: channel_new_def split: bind_splits prod.splits)
  with on_channel_header_written [OF run] show ?thesis
    by auto
qed

end

text \<open>What the router does with a channel whose header it has read.\<close>

definition routed_channel ::
    "incoming_channel_info \<Rightarrow> 'w \<Rightarrow> 'r \<Rightarrow> ('r, 'w) conversation \<Rightarrow> ('r, 'w) channel" where
  "routed_channel inc w r cv =
     \<lparr>info = \<lparr>info_max_packet_size = hdr_max_packet_size (inc_header inc),
        info_conversation_stream_id = hdr_conversation_stream_id (inc_header inc),
        info_conversation_id = conversation_id cv, info_channel_id = inc_stream_id inc,
        info_channel_type = hdr_channel_type (inc_header inc)\<rparr>,
      confirm_sent = False, confirm_received = True, header = None,
      datagram_sender = (if hdr_channel_type (inc_header inc) = bstr ''direct-udp''
        then Some (datagram_sender_for_channel (inc_stream_id inc) cv) else None),
      recv = r, send = w, datagrams_queue = qh_next (queues cv)\<rparr>"

definition routed_wrap :: "incoming_channel_info \<Rightarrow> nat \<Rightarrow> accepted_channel" where
  "routed_wrap inc ref = (case inc_forwarding_target inc of
       None \<Rightarrow> Accepted ref
     | Some a \<Rightarrow> if hdr_channel_type (inc_header inc) = bstr ''direct-udp'' then UdpForwarding ref a
         else if hdr_channel_type (inc_header inc) = bstr ''direct-tcp'' then TcpForwarding ref a
         else Accepted ref)"

lemma route_incoming_channel_eq:
  "route_incoming_channel inc w r rt =
     (case router_conversation (hdr_conversation_stream_id (inc_header inc)) rt of
        None \<Rightarrow> Some (Err (UnknownConversation (hdr_conversation_stream_id (inc_header inc)) (inc_stream_id inc)), rt)
      | Some ref \<Rightarrow> Some (Ok ref, rt\<lparr>convs := (convs rt)(ref :=
          incoming_channel (routed_wrap inc) (routed_channel inc w r (convs rt ref))
            ((convs rt ref)\<lparr>queues := snd (queue_alloc (dq_new (default_datagrams_queue_size (convs rt ref)))
               (queues (convs rt ref)))\<rparr>))\<rparr>))"
  by (auto simp: route_incoming_channel_def into_accepted_channel_for_conversation_def
      into_accepted_channel_def channel_new_def queue_alloc_def channel_alloc_def incoming_channel_def
      routed_wrap_def routed_channel_def Let_def split: option.splits)

lemma accept_and_route_channel_decoded:
  assumes "read_incoming_channel rd i r = (Ok inc, r')"
  shows "accept_and_route_channel rd (Ok (i, w, r)) rt =
    map_option (\<lambda>(res, rt). (map_sum Route_Route id res, rt)) (route_incoming_channel inc w r' rt)"
  by (simp add: accept_and_route_channel_def accept_bi_channel_def assms split: option.splits)

section \<open>Properties\<close>

text \<open>
  C24: A forwarding channel that one endpoint opens arrives at the other as what it is. When the
  client's \<^verbatim>\<open>open_udp_forwarding_channel\<close> or \<^verbatim>\<open>open_tcp_forwarding_channel\<close> has succeeded on a fresh stream
  and the server's connection accepts that stream, the router reads the header, finds the
  conversation registered under the client's control stream, and appends to its accept queue a UDP
  or TCP forwarding channel with the client's target address, whose stream id, type and packet size
  are the client's and whose stream continues right behind the header. No other conversation changes.
\<close>

theorem forwarding_channel_reaches_router:
  assumes rd: "byte_source rd view adv eof" and wr: "send_stream wr written"
    and "ip_addr_ok (socket_ip addr)" and "written w = []"
    and opened: "(if udp then quinn_open_udp_forwarding_channel wr (Ok (i, w, r)) mps n addr cv
      else quinn_open_tcp_forwarding_channel wr (Ok (i, w, r)) mps n addr cv) = Some (Ok ref, cv')"
    and peer: "router_conversation (control_stream_id cv) rt = Some peer"
    and rs: "view rs = written (send (chans cv' ref)) @ rest"
  shows "\<exists>rt' rs'. accept_and_route_channel rd (Ok (i, ws, rs)) rt = Some (Ok peer, rt')
    \<and> conversations rt' = conversations rt \<and> (\<forall>other. other \<noteq> peer \<longrightarrow> convs rt' other = convs rt other)
    \<and> (let cref = chan_next (convs rt peer); c = chans (convs rt' peer) cref;
           target = socket_addr_of (socket_ip addr) (socket_port addr)
       in aq_queue (channels_accept_queue (convs rt' peer)) = aq_queue (channels_accept_queue (convs rt peer))
            @ [if udp then UdpForwarding cref target else TcpForwarding cref target]
        \<and> info_channel_id (info c) = i \<and> info_max_packet_size (info c) = mps
        \<and> info_channel_type (info c) = bstr (if udp then ''direct-udp'' else ''direct-tcp'')
        \<and> \<not> confirm_sent c \<and> recv c = rs' \<and> view rs' = rest)"
proof -
  let ?h = "\<lparr>hdr_conversation_stream_id = control_stream_id cv,
        hdr_channel_type = bstr (if udp then ''direct-udp'' else ''direct-tcp''), hdr_max_packet_size = mps\<rparr>"
  let ?extra = "concat (forwarding_fields (socket_ip addr) (socket_port addr))"
  let ?inc = "\<lparr>inc_stream_id = i, inc_header = ?h,
    inc_forwarding_target = Some (socket_addr_of (socket_ip addr) (socket_port addr))\<rparr>"
  have "(if udp then open_udp_forwarding_channel wr i mps n addr r w cv
            else open_tcp_forwarding_channel wr i mps n addr r w cv) = Some (Ok ref, cv')"
    using opened by (cases udp) (auto simp: quinn_open_udp_forwarding_channel_def
        quinn_open_tcp_forwarding_channel_def map_sum_def split: bind_splits sum.splits)
  from send_stream.open_forwarding_written [OF wr this] obtain enc where
    enc: "header_encode ?h (Some ?extra) = Some enc" and written: "view rs = enc @ rest"
    using rs \<open>written w = []\<close> by auto
  have ok: "header_ok ?h"
    by (rule header_encode_SomeD [OF enc]) (simp add: ssh_string_ok_def MAX_SSH_STRING_LEN_def)
  have enc': "enc = concat [var_int_bytes SSH_FRAME_TYPE, concat (header_fields ?h), ?extra]"
    using enc header_encode_fields [OF ok, of "Some ?extra"] by simp
  have "decodes view adv eof Setup_Io (read_incoming_channel rd i) enc ?inc"
    unfolding enc'
    by (rule byte_source.decodes_incoming [OF rd ok, of "socket_ip addr" _ "socket_port addr"])
      (simp add: is_forwarding_def assms(3))
  from parsesD [OF byte_source.decodes_parses [OF rd this] written]
  have "read_incoming_channel rd i rs = (Ok ?inc, adv (length enc) rs)" .
  from accept_and_route_channel_decoded [OF this, of ws rt]
  show ?thesis
    using byte_source.view_adv [OF rd, of "length enc" rs] written peer
    by (auto simp: route_incoming_channel_eq incoming_channel_def channel_alloc_def routed_wrap_def
        routed_channel_def queue_incoming_accepted_channel_def aq_add_def)
qed

theorem forwarding_channel_reaches_router_witness:
  "let cv = memory_conversation; rt = register_conversation 7 (router_new (\<lambda>_. memory_conversation))
   in \<exists>ref cv' enc rt' rs'.
     quinn_open_udp_forwarding_channel rss_write_all (Ok (8, rss_new, brs_new [])) 50 2
        (SocketAddrV4 [127, 0, 0, 1] 53) cv = Some (Ok ref, cv')
   \<and> rss_bytes (send (chans cv' ref)) = enc
   \<and> accept_and_route_channel brs_read_exact (Ok (8, rss_new, brs_new (enc @ [1, 2]))) rt = Some (Ok 7, rt')
   \<and> aq_queue (channels_accept_queue (convs rt' 7)) = [UdpForwarding 1 (SocketAddrV4 [127, 0, 0, 1] 53)]
   \<and> recv (chans (convs rt' 7) 1) = rs' \<and> cursor_view (brs_inner rs') = [1, 2]"
proof -
  let ?rt = "register_conversation 7 (router_new (\<lambda>_. memory_conversation))"
  let ?a = "SocketAddrV4 [127, 0, 0, 1] 53"
  have "header_ok \<lparr>hdr_conversation_stream_id = 0, hdr_channel_type = bstr ''direct-udp'', hdr_max_packet_size = 50\<rparr>"
    by (simp add: header_ok_def max_varint_defs ssh_string_ok_def MAX_SSH_STRING_LEN_def)
  then obtain ref cv' where o: "quinn_open_udp_forwarding_channel rss_write_all (Ok (8, rss_new, brs_new [])) 50 2 ?a
      memory_conversation = Some (Ok ref, cv')"
    by (simp add: quinn_open_udp_forwarding_channel_def open_udp_forwarding_channel_def build_forwarding_fields
        channel_new_def header_encode_fields memory_conversation_def conversation_new_def queue_alloc_def
        channel_alloc_def on_channel_def pbind_def maybe_send_header_def send_write_all_def rss_write_all_def)
  let ?rs = "brs_new (rss_bytes (send (chans cv' ref)) @ [1, 2])"
  have v: "cursor_view (brs_inner ?rs) = rss_bytes (send (chans cv' ref)) @ [1, 2]"
    by (simp add: brs_new_def)
  have f: "control_stream_id memory_conversation = 0" "chan_next memory_conversation = 1"
    "aq_queue (channels_accept_queue memory_conversation) = []" "convs ?rt 7 = memory_conversation"
    by (simp_all add: memory_conversation_def conversation_new_def aq_new_def register_conversation_def router_new_def)
  have p: "router_conversation (control_stream_id memory_conversation) ?rt = Some 7"
    by (simp add: router_conversation_def register_conversation_def router_new_def)
  have "rss_bytes rss_new = []" by (simp add: rss_new_def)
  from forwarding_channel_reaches_router [OF brs.byte_source_axioms rss.send_stream_axioms _ this _ p v,
      where udp = True and addr = ?a, simplified if_True, OF _ o, of rss_new]
  show ?thesis
    using o by (simp add: f Let_def) blast
qed

text \<open>
  The router gives back the conversation registered last under a control stream id, whatever was
  registered under it before and under other ids, until it is unregistered; unregistering returns it
  and leaves every other id as it was.
\<close>

theorem router_keeps_last_registration:
  "router_conversation i (fold register_conversation refs rt)
     = (case find (\<lambda>ref. control_stream_id (convs rt ref) = i) (rev refs) of
          Some ref \<Rightarrow> Some ref
        | None \<Rightarrow> router_conversation i rt)
   \<and> (let (removed, rt') = unregister_conversation i (fold register_conversation refs rt)
      in removed = router_conversation i (fold register_conversation refs rt)
        \<and> (\<forall>j. router_conversation j rt'
             = (if j = i then None else router_conversation j (fold register_conversation refs rt))))"
  using rt_registry.remove_result [of i "fold register_conversation refs rt"]
    rt_registry.lookup_remove [of _ i "fold register_conversation refs rt"]
  by (simp add: rt_registry.lookup_fold split_beta split del: if_split)

lemma accept_loop_append:
  "accept_and_route_channels_forever rd xs rt = Some (Ok (), rt1) \<Longrightarrow>
   accept_and_route_channels_forever rd (xs @ ys) rt = accept_and_route_channels_forever rd ys rt1"
  by (induction xs arbitrary: rt) (auto simp: pbind_Ok elim!: pbind_OkE)

text \<open>
  C37: A peer can stop the routing of channels. The accept loop ends at the first channel whose header
  names a control stream that is not registered: it returns \<^verbatim>\<open>UnknownConversation\<close>, and the streams
  accepted after it, for whatever conversation, are never routed.
\<close>

theorem unknown_conversation_ends_accept_loop:
  assumes "accept_and_route_channels_forever rd before rt = Some (Ok (), rt1)"
    and "read_incoming_channel rd i r = (Ok inc, r')"
    and "router_conversation (hdr_conversation_stream_id (inc_header inc)) rt1 = None"
  shows "accept_and_route_channels_forever rd (before @ Ok (i, w, r) # later) rt
    = Some (Err (Route_Route (UnknownConversation (hdr_conversation_stream_id (inc_header inc)) (inc_stream_id inc))), rt1)"
  by (simp add: accept_loop_append [OF assms(1)] pbind_def accept_and_route_channel_decoded [OF assms(2)]
      route_incoming_channel_eq assms(3))

theorem unknown_conversation_ends_accept_loop_witness:
  "let rt = register_conversation 7 (router_new (\<lambda>_. memory_conversation));
       bytes = concat [var_int_bytes SSH_FRAME_TYPE, concat (header_fields \<lparr>hdr_conversation_stream_id = 12,
         hdr_channel_type = bstr ''session'', hdr_max_packet_size = 50\<rparr>), []]
   in accept_and_route_channels_forever brs_read_exact ([] @ Ok (8, rss_new, brs_new bytes) # [Err ConnectionClosed]) rt
      = Some (Err (Route_Route (UnknownConversation 12 8)), rt)"
proof -
  let ?h = "\<lparr>hdr_conversation_stream_id = 12, hdr_channel_type = bstr ''session'', hdr_max_packet_size = 50\<rparr>"
  let ?bytes = "concat [var_int_bytes SSH_FRAME_TYPE, concat (header_fields ?h), []]"
  let ?inc = "\<lparr>inc_stream_id = 8, inc_header = ?h, inc_forwarding_target = None\<rparr>"
  let ?rt = "register_conversation 7 (router_new (\<lambda>_. memory_conversation))"
  have "header_ok ?h"
    by (simp add: header_ok_def max_varint_defs ssh_string_ok_def MAX_SSH_STRING_LEN_def)
  from brs.decodes_incoming [OF this, where extra = "[]" and target = None and i = 8]
  have "decodes (\<lambda>r. cursor_view (brs_inner r)) (\<lambda>n r. r\<lparr>brs_inner := cursor_adv n (brs_inner r)\<rparr>)
      (\<lambda>_. eof_error) Setup_Io (read_incoming_channel brs_read_exact 8) ?bytes ?inc"
    by (simp add: is_forwarding_def)
  from parsesD [OF brs.decodes_parses [OF this], of "brs_new ?bytes" "[]"] obtain r' where
    "read_incoming_channel brs_read_exact 8 (brs_new ?bytes) = (Ok ?inc, r')"
    by (simp add: brs_new_def)
  moreover have "router_conversation (hdr_conversation_stream_id (inc_header ?inc)) ?rt = None"
    by (simp add: router_conversation_def register_conversation_def router_new_def memory_conversation_def
        conversation_new_def)
  moreover have "accept_and_route_channels_forever brs_read_exact [] ?rt = Some (Ok (), ?rt)"
    by simp
  ultimately show ?thesis
    using unknown_conversation_ends_accept_loop [of brs_read_exact "[]" ?rt ?rt 8 "brs_new ?bytes" ?inc r'
        rss_new "[Err ConnectionClosed]"] by (simp add: Let_def)
qed

end
