(* ===== verification/H3_Dispatch.thy ===== *)
theory H3_Dispatch
  imports Quinn_Channel
begin

text \<open>
  The HTTP/3 layer: \<^verbatim>\<open>crates/ssh3-h3/src/lib.rs\<close>. A conversation begins with an extended CONNECT
  request; its id is exported from the TLS session; the server's driver registers it with the
  router of its connection and routes datagrams to it. The \<^verbatim>\<open>h3\<close>, \<^verbatim>\<open>http\<close> and \<^verbatim>\<open>quinn\<close> crates are parameters:
  requests and responses are records of what the code reads of them, and the answers of the peer
  and of the TLS exporter are arguments.
\<close>

section \<open>Requests and responses\<close>

definition SSH3_PROTOCOL_NAME :: string where "SSH3_PROTOCOL_NAME = ''ssh3''"
definition SSH3_VERSION_STRING :: string where
  "SSH3_VERSION_STRING = ''SSH 3.0 ssh3-rust 0.1.0 experimental_spec_version=alpha-00''"
definition SSH3_EXPORTER_LABEL :: bytes where "SSH3_EXPORTER_LABEL = bstr ''EXPORTER-SSH3''"
definition SSH3_CONVERSATION_ID_LEN :: nat where "SSH3_CONVERSATION_ID_LEN = 32"
definition SSH3_USER_HEADER :: string where "SSH3_USER_HEADER = ''x-ssh3-user''"

text \<open>\<^verbatim>\<open>Request<()>\<close> and \<^verbatim>\<open>Response<()>\<close>: method, URI, header values by lower-case name, \<^verbatim>\<open>Protocol\<close> extension.\<close>

record ('u, 'v) http_request =
  req_method :: string
  req_uri :: 'u
  req_headers :: "string \<rightharpoonup> 'v"
  req_protocol :: "string option"

record 'v http_response =
  resp_status :: nat
  resp_headers :: "string \<rightharpoonup> 'v"

abbreviation USER_AGENT :: string where "USER_AGENT \<equiv> ''user-agent''"
abbreviation SERVER :: string where "SERVER \<equiv> ''server''"

datatype ('i, 'h) build_connect_request_error = InvalidUserAgent 'i | Http 'h

text \<open>
  \<open>build\<close> is the request builder of \<^verbatim>\<open>http\<close> with a method and a URI, \<open>from_str\<close> and \<open>to_str\<close> are the
  conversions of \<^verbatim>\<open>HeaderValue\<close>.
\<close>

definition build_connect_request ::
    "(string \<Rightarrow> 'u \<Rightarrow> 'h + ('u, 'v) http_request) \<Rightarrow> (string \<Rightarrow> 'i + 'v) \<Rightarrow> 'u \<Rightarrow> string
     \<Rightarrow> ('i, 'h) build_connect_request_error + ('u, 'v) http_request" where
  "build_connect_request build from_str uri user_agent = (case build ''CONNECT'' uri of
       Err e \<Rightarrow> Err (Http e)
     | Ok req \<Rightarrow> (case from_str user_agent of
         Err e \<Rightarrow> Err (InvalidUserAgent e)
       | Ok v \<Rightarrow> Ok (req\<lparr>req_headers := (req_headers req)(USER_AGENT \<mapsto> v),
                        req_protocol := Some SSH3_PROTOCOL_NAME\<rparr>)))"

definition request_protocol :: "('u, 'v) http_request \<Rightarrow> string option" where
  "request_protocol req = req_protocol req"

definition is_ssh3_connect :: "('u, 'v) http_request \<Rightarrow> bool" where
  "is_ssh3_connect req \<longleftrightarrow> req_method req = ''CONNECT''
     \<and> (case request_protocol req of None \<Rightarrow> False | Some protocol \<Rightarrow> protocol = SSH3_PROTOCOL_NAME)"

definition response_server_header :: "('v \<Rightarrow> 't + string) \<Rightarrow> 'v http_response \<Rightarrow> string option" where
  "response_server_header to_str resp = Option.bind (resp_headers resp SERVER)
     (\<lambda>v. case to_str v of Err _ \<Rightarrow> None | Ok s \<Rightarrow> Some s)"

definition request_user_agent :: "('v \<Rightarrow> 't + string) \<Rightarrow> ('u, 'v) http_request \<Rightarrow> string option" where
  "request_user_agent to_str req = Option.bind (req_headers req USER_AGENT)
     (\<lambda>v. case to_str v of Err _ \<Rightarrow> None | Ok s \<Rightarrow> Some s)"

definition response_with_server_header ::
    "('v http_response \<Rightarrow> 'h + 'v http_response) \<Rightarrow> (string \<Rightarrow> 'i + 'v) \<Rightarrow> nat \<Rightarrow> string
     \<Rightarrow> ('i, 'h) build_connect_request_error + 'v http_response" where
  "response_with_server_header body from_str status server_version = (case from_str server_version of
       Err e \<Rightarrow> Err (InvalidUserAgent e)
     | Ok v \<Rightarrow> map_sum Http id (body \<lparr>resp_status = status, resp_headers = [SERVER \<mapsto> v]\<rparr>))"

section \<open>Establishing a conversation\<close>

text \<open>The TLS exporter: output length, label and context.\<close>

type_synonym 'x exporter = "nat \<Rightarrow> bytes \<Rightarrow> bytes \<Rightarrow> 'x + bytes"

definition generate_conversation_id :: "'x exporter \<Rightarrow> 'x + bytes" where
  "generate_conversation_id export_keying_material =
     export_keying_material SSH3_CONVERSATION_ID_LEN SSH3_EXPORTER_LABEL []"

datatype ('x, 's) client_conversation_error =
    CConversationId 'x
  | CStream 's
  | UnexpectedStatus nat

datatype ('x, 's, 'c) server_conversation_error =
    SConnection 'c
  | SStream 's
  | SConversationId 'x

text \<open>\<open>snd_request\<close> opens the control stream, whose id it returns; \<open>recv_response\<close> reads from it.\<close>

definition establish_client_conversation ::
    "'x exporter \<Rightarrow> (('u, 'v) http_request \<Rightarrow> 's + u64) \<Rightarrow> (u64 \<Rightarrow> 's + 'v http_response)
     \<Rightarrow> ('u, 'v) http_request \<Rightarrow> u64 \<Rightarrow> nat \<Rightarrow> (nat \<Rightarrow> ('r, 'w) channel) \<Rightarrow> (nat \<Rightarrow> datagram_queue)
     \<Rightarrow> ('x, 's) client_conversation_error + ('r, 'w) conversation \<times> u64 \<times> 'v http_response" where
  "establish_client_conversation export snd_request recv_response req max_packet_size queue_size chs qs =
     (case generate_conversation_id export of
        Err e \<Rightarrow> Err (CConversationId e)
      | Ok cid \<Rightarrow> (case snd_request req of
          Err e \<Rightarrow> Err (CStream e)
        | Ok control_stream \<Rightarrow> (case recv_response control_stream of
            Err e \<Rightarrow> Err (CStream e)
          | Ok response \<Rightarrow>
              if resp_status response \<noteq> 200 then Err (UnexpectedStatus (resp_status response))
              else Ok (conversation_new control_stream cid max_packet_size queue_size chs qs,
                       control_stream, response))))"

definition accept_server_conversation ::
    "'x exporter \<Rightarrow> 'c + 'q option \<Rightarrow> ('q \<Rightarrow> 's + ('u, 'v) http_request \<times> u64) \<Rightarrow> u64 \<Rightarrow> nat
     \<Rightarrow> (nat \<Rightarrow> ('r, 'w) channel) \<Rightarrow> (nat \<Rightarrow> datagram_queue)
     \<Rightarrow> ('x, 's, 'c) server_conversation_error + (('r, 'w) conversation \<times> u64 \<times> ('u, 'v) http_request) option" where
  "accept_server_conversation export accepted resolve_request max_packet_size queue_size chs qs = (case accepted of
        Err e \<Rightarrow> Err (SConnection e)
      | Ok None \<Rightarrow> Ok None
      | Ok (Some resolver) \<Rightarrow> (case resolve_request resolver of
          Err e \<Rightarrow> Err (SStream e)
        | Ok (req, control_stream) \<Rightarrow> (case generate_conversation_id export of
            Err e \<Rightarrow> Err (SConversationId e)
          | Ok cid \<Rightarrow>
              Ok (Some (conversation_new control_stream cid max_packet_size queue_size chs qs,
                        control_stream, req)))))"

section \<open>Datagrams\<close>

datatype datagram_dispatch_error =
    Dispatch_Connection connection_error
  | Dispatch_Proto proto_error
  | Dispatch_Conversation conversation_error

text \<open>What both dispatchers make of the result of \<^verbatim>\<open>add_datagram\<close>.\<close>

fun dispatch_result :: "'a \<Rightarrow> (conversation_error + unit) poll \<Rightarrow> (datagram_dispatch_error + 'a) poll" where
  "dispatch_result a Pending = Pending"
| "dispatch_result a (Ready (Ok ())) = Ready (Ok a)"
| "dispatch_result a (Ready (Err (ChannelNotFound _))) = Ready (Ok a)"
| "dispatch_result a (Ready (Err e)) = Ready (Err (Dispatch_Conversation e))"

definition dispatch_datagram ::
    "bytes \<Rightarrow> ('r, 'w) conversation \<Rightarrow> ((datagram_dispatch_error + unit) poll \<times> ('r, 'w) conversation) option" where
  "dispatch_datagram datagram cv = (case read_var_int cursor_read_exact (cursor_new datagram) of
       (Err e, _) \<Rightarrow> Some (Ready (Err (Dispatch_Proto e)), cv)
     | (Ok control_id, cursor) \<Rightarrow>
         if control_id \<noteq> control_stream_id cv then Some (Ready (Ok ()), cv)
         else map_option (\<lambda>(res, cv). (dispatch_result () res, cv))
           (add_datagram (drop (cur_pos cursor) datagram) cv))"

definition route_registered_datagram ::
    "bytes \<Rightarrow> ('r, 'w) channel_router
     \<Rightarrow> ((datagram_dispatch_error + nat option) poll \<times> ('r, 'w) channel_router) option" where
  "route_registered_datagram datagram rt = (case read_var_int cursor_read_exact (cursor_new datagram) of
       (Err e, _) \<Rightarrow> Some (Ready (Err (Dispatch_Proto e)), rt)
     | (Ok control_id, cursor) \<Rightarrow> (case router_conversation control_id rt of
         None \<Rightarrow> Some (Ready (Ok None), rt)
       | Some ref \<Rightarrow> map_option
           (\<lambda>(res, cv). (dispatch_result (Some ref) res, rt\<lparr>convs := (convs rt)(ref := cv)\<rparr>))
           (add_datagram (drop (cur_pos cursor) datagram) (convs rt ref))))"

definition dispatch_one_datagram ::
    "connection_error + bytes \<Rightarrow> ('r, 'w) conversation
     \<Rightarrow> ((datagram_dispatch_error + unit) poll \<times> ('r, 'w) conversation) option" where
  "dispatch_one_datagram received cv = (case received of
       Err e \<Rightarrow> Some (Ready (Err (Dispatch_Connection e)), cv)
     | Ok datagram \<Rightarrow> dispatch_datagram datagram cv)"

text \<open>The loop, over the datagrams that the connection receives, up to an error or a wait.\<close>

fun dispatch_datagrams_forever ::
    "(connection_error + bytes) list \<Rightarrow> ('r, 'w) conversation
     \<Rightarrow> ((datagram_dispatch_error + unit) poll \<times> ('r, 'w) conversation) option" where
  "dispatch_datagrams_forever [] cv = Some (Ready (Ok ()), cv)"
| "dispatch_datagrams_forever (received # rest) cv = (case dispatch_one_datagram received cv of
       Some (Ready (Ok ()), cv) \<Rightarrow> dispatch_datagrams_forever rest cv
     | res \<Rightarrow> res)"

section \<open>The server's connection driver\<close>

text \<open>The router of the connection and the next free address for a conversation.\<close>

record ('r, 'w) server_connection_driver =
  drv_channel_router :: "('r, 'w) channel_router"
  drv_next :: nat

definition driver_new :: "(nat \<Rightarrow> ('r, 'w) conversation) \<Rightarrow> ('r, 'w) server_connection_driver" where
  "driver_new cvs = \<lparr>drv_channel_router = router_new cvs, drv_next = 0\<rparr>"

definition driver_register ::
    "('r, 'w) conversation \<Rightarrow> ('r, 'w) server_connection_driver \<Rightarrow> nat \<times> ('r, 'w) server_connection_driver" where
  "driver_register cv d = (let ref = drv_next d; rt = drv_channel_router d in
     (ref, d\<lparr>drv_next := ref + 1,
        drv_channel_router := register_conversation ref (rt\<lparr>convs := (convs rt)(ref := cv)\<rparr>)\<rparr>))"

definition driver_accept_conversation ::
    "'x exporter \<Rightarrow> 'c + 'q option \<Rightarrow> ('q \<Rightarrow> 's + ('u, 'v) http_request \<times> u64) \<Rightarrow> u64 \<Rightarrow> nat
     \<Rightarrow> (nat \<Rightarrow> ('r, 'w) channel) \<Rightarrow> (nat \<Rightarrow> datagram_queue) \<Rightarrow> ('r, 'w) server_connection_driver
     \<Rightarrow> (('x, 's, 'c) server_conversation_error + (nat \<times> u64 \<times> ('u, 'v) http_request) option)
        \<times> ('r, 'w) server_connection_driver" where
  "driver_accept_conversation export accepted resolve_request max_packet_size queue_size chs qs d =
     (case accept_server_conversation export accepted resolve_request max_packet_size queue_size chs qs of
        Err e \<Rightarrow> (Err e, d)
      | Ok None \<Rightarrow> (Ok None, d)
      | Ok (Some (cv, control_stream, req)) \<Rightarrow>
          (case driver_register cv d of (ref, d) \<Rightarrow> (Ok (Some (ref, control_stream, req)), d)))"

definition driver_unregister_conversation ::
    "u64 \<Rightarrow> ('r, 'w) server_connection_driver \<Rightarrow> nat option \<times> ('r, 'w) server_connection_driver" where
  "driver_unregister_conversation i d = (case unregister_conversation i (drv_channel_router d) of
     (removed, rt) \<Rightarrow> (removed, d\<lparr>drv_channel_router := rt\<rparr>))"

definition driver_route_datagram ::
    "bytes \<Rightarrow> ('r, 'w) server_connection_driver
     \<Rightarrow> ((datagram_dispatch_error + nat option) poll \<times> ('r, 'w) server_connection_driver) option" where
  "driver_route_datagram datagram d = map_option (\<lambda>(res, rt). (res, d\<lparr>drv_channel_router := rt\<rparr>))
     (route_registered_datagram datagram (drv_channel_router d))"

definition accept_and_route_datagram ::
    "connection_error + bytes \<Rightarrow> ('r, 'w) server_connection_driver
     \<Rightarrow> ((datagram_dispatch_error + nat option) poll \<times> ('r, 'w) server_connection_driver) option" where
  "accept_and_route_datagram received d = (case received of
       Err e \<Rightarrow> Some (Ready (Err (Dispatch_Connection e)), d)
     | Ok datagram \<Rightarrow> driver_route_datagram datagram d)"

fun accept_and_route_datagrams_forever ::
    "(connection_error + bytes) list \<Rightarrow> ('r, 'w) server_connection_driver
     \<Rightarrow> ((datagram_dispatch_error + unit) poll \<times> ('r, 'w) server_connection_driver) option" where
  "accept_and_route_datagrams_forever [] d = Some (Ready (Ok ()), d)"
| "accept_and_route_datagrams_forever (received # rest) d = (case accept_and_route_datagram received d of
       None \<Rightarrow> None
     | Some (Ready (Ok _), d) \<Rightarrow> accept_and_route_datagrams_forever rest d
     | Some (Ready (Err e), d) \<Rightarrow> Some (Ready (Err e), d)
     | Some (Pending, d) \<Rightarrow> Some (Pending, d))"

definition driver_accept_and_route_channel ::
    "'r read_exact_fn \<Rightarrow> connection_error + ('r, 'w) bi_stream
     \<Rightarrow> (('r, 'w) server_connection_driver, route_accepted_channel_error, nat) op" where
  "driver_accept_and_route_channel rd accepted d = map_option (\<lambda>(res, rt). (res, d\<lparr>drv_channel_router := rt\<rparr>))
     (accept_and_route_channel rd accepted (drv_channel_router d))"

section \<open>Every way in which a connection's conversations change\<close>

text \<open>Accepting, ending, incoming channels, datagrams, and any step of one of the conversations.\<close>

inductive driver_step ::
    "'r read_exact_fn \<Rightarrow> 'w write_all_fn \<Rightarrow> ('r, 'w) server_connection_driver
     \<Rightarrow> ('r, 'w) server_connection_driver \<Rightarrow> bool"
  for rd :: "'r read_exact_fn" and wr :: "'w write_all_fn" where
  accepted: "driver_register (conversation_new ctrl cid mps n chs qs) d = (ref, d') \<Longrightarrow> driver_step rd wr d d'"
| unregistered: "driver_unregister_conversation i d = (removed, d') \<Longrightarrow> driver_step rd wr d d'"
| routed_datagram: "driver_route_datagram datagram d = Some (res, d') \<Longrightarrow> driver_step rd wr d d'"
| routed_channel: "driver_accept_and_route_channel rd stream d = Some (ch, d') \<Longrightarrow> driver_step rd wr d d'"
| conversation: "ref < drv_next d \<Longrightarrow> conv_step rd wr (convs (drv_channel_router d) ref) cv \<Longrightarrow>
     driver_step rd wr d (d\<lparr>drv_channel_router :=
       (drv_channel_router d)\<lparr>convs := (convs (drv_channel_router d))(ref := cv)\<rparr>\<rparr>)"

definition driver_ok :: "('r, 'w) server_connection_driver \<Rightarrow> bool" where
  "driver_ok d \<longleftrightarrow>
     (\<forall>i ref. router_conversation i (drv_channel_router d) = Some ref \<longrightarrow>
        ref < drv_next d \<and> control_stream_id (convs (drv_channel_router d) ref) = i)
     \<and> (\<forall>ref<drv_next d. conv_ok (convs (drv_channel_router d) ref))"

lemma driver_accept_conversation_step:
  assumes "driver_accept_conversation export accepted resolve_request mps n chs qs d = (res, d')"
  shows "d' = d \<or> driver_step rd wr d d'"
  using assms
  by (auto simp: driver_accept_conversation_def accept_server_conversation_def
      intro: driver_step.accepted split: sum.splits option.splits prod.splits)

text \<open>The control stream id of a conversation never changes.\<close>

lemma control_stream_id_simple [simp]:
  "control_stream_id (add_channel ref cv) = control_stream_id cv"
  "control_stream_id (snd (channel_alloc c cv)) = control_stream_id cv"
  "control_stream_id (queue_incoming_accepted_channel ch cv) = control_stream_id cv"
  by (auto simp: add_channel_def add_channel_register_def add_channel_attach_def channel_alloc_def
      queue_incoming_accepted_channel_def Let_def split: option.splits)

lemma control_stream_id_on_channel:
  "on_channel ref f cv = Some (res, cv') \<Longrightarrow> control_stream_id cv' = control_stream_id cv"
  by (auto simp: on_channel_def split: option.splits prod.splits)

lemma control_stream_id_pbind_add_channel:
  assumes "pbind (on_channel ref f) (\<lambda>_ cv. Some (Ok x, add_channel ref cv)) cv = Some (res, cv')"
  shows "control_stream_id cv' = control_stream_id cv"
  using assms control_stream_id_on_channel [of ref f cv]
  by (auto simp: pbind_def split: option.splits prod.splits sum.splits)

lemma control_stream_id_accept:
  assumes "accept_channel_with_metadata wr cv = Some (res, cv')"
  shows "control_stream_id cv' = control_stream_id cv"
  using assms
  by (auto simp: accept_channel_with_metadata_def confirm_and_register_channel_def Let_def
      dest!: control_stream_id_pbind_add_channel split: prod.splits option.splits poll.splits)

lemma control_stream_id_add_datagram:
  assumes "add_datagram d cv = Some (res, cv')"
  shows "control_stream_id cv' = control_stream_id cv"
  using assms
  by (auto simp: add_datagram_def add_dangling_datagrams_queue_def Let_def queue_alloc_def
      split: prod.splits sum.splits option.splits poll.splits bind_splits)

lemma control_stream_id_open_forwarding:
  assumes "(case channel_alloc c (cv\<lparr>queues := h\<rparr>) of (ref, cv) \<Rightarrow>
          pbind (on_channel ref f) (\<lambda>_ cv. Some (Ok ref, add_channel ref cv)) cv) = Some (res, cv')"
  shows "control_stream_id cv' = control_stream_id cv"
proof -
  obtain ref cv1 where a: "channel_alloc c (cv\<lparr>queues := h\<rparr>) = (ref, cv1)"
    by (cases "channel_alloc c (cv\<lparr>queues := h\<rparr>)")
  with assms have "pbind (on_channel ref f) (\<lambda>_ cv. Some (Ok ref, add_channel ref cv)) cv1 = Some (res, cv')"
    by simp
  from control_stream_id_pbind_add_channel [OF this] control_stream_id_simple(2) [of c "cv\<lparr>queues := h\<rparr>"] a show ?thesis
    by simp
qed

lemma control_stream_id_open_channel:
  "open_channel i ty mps n r w cv = Some (ref, cv') \<Longrightarrow> control_stream_id cv' = control_stream_id cv"
  by (auto simp: open_channel_def channel_alloc_def split: bind_splits)

lemma control_stream_id_open_udp_tcp:
  "open_udp_forwarding_channel wr i mps n a r w cv = Some (res, cv') \<Longrightarrow> control_stream_id cv' = control_stream_id cv"
  "open_tcp_forwarding_channel wr i mps n a r w cv = Some (res, cv') \<Longrightarrow> control_stream_id cv' = control_stream_id cv"
  unfolding open_udp_forwarding_channel_def open_tcp_forwarding_channel_def
  by (auto split: bind_splits elim!: control_stream_id_open_forwarding)

lemma control_stream_id_step: "conv_step rd wr cv cv' \<Longrightarrow> control_stream_id cv' = control_stream_id cv"
  by (induction rule: conv_step.induct)
    (simp_all add: incoming_channel_def channel_alloc_def control_stream_id_open_channel
      control_stream_id_open_udp_tcp control_stream_id_accept
      control_stream_id_add_datagram control_stream_id_on_channel)

section \<open>The invariant of a connection\<close>

lemma conv_ok_routed:
  assumes "conv_ok cv"
  shows "conv_ok (incoming_channel (routed_wrap inc) (routed_channel inc w r cv)
    (cv\<lparr>queues := snd (queue_alloc (dq_new n) (queues cv))\<rparr>))"
proof (rule conv_ok_incoming [OF assms])
  show "channel_new (hdr_conversation_stream_id (inc_header inc)) (conversation_id cv) (inc_stream_id inc)
     (hdr_channel_type (inc_header inc)) (hdr_max_packet_size (inc_header inc)) r w
     (datagram_sender (routed_channel inc w r cv)) False False True n None (queues cv)
     = Some (routed_channel inc w r cv, snd (queue_alloc (dq_new n) (queues cv)))"
    by (simp add: channel_new_def routed_channel_def queue_alloc_def)
  show "\<And>ref. accepted_channel_ref (routed_wrap inc ref) = ref"
    by (simp add: routed_wrap_def split: option.splits)
qed

lemma driver_ok_update:
  assumes "driver_ok d" "ref < drv_next d" "conv_ok cv"
    "control_stream_id cv = control_stream_id (convs (drv_channel_router d) ref)"
  shows "driver_ok (d\<lparr>drv_channel_router :=
    (drv_channel_router d)\<lparr>convs := (convs (drv_channel_router d))(ref := cv)\<rparr>\<rparr>)"
  using assms by (auto simp: driver_ok_def router_conversation_def)

lemma driver_route_datagram_cases:
  assumes "driver_route_datagram datagram d = Some (res, d')"
  obtains "d' = d"
  | ref i x res1 cv where "router_conversation i (drv_channel_router d) = Some ref"
      "add_datagram x (convs (drv_channel_router d) ref) = Some (res1, cv)"
      "d' = d\<lparr>drv_channel_router :=
         (drv_channel_router d)\<lparr>convs := (convs (drv_channel_router d))(ref := cv)\<rparr>\<rparr>"
proof -
  obtain rt' where r: "route_registered_datagram datagram (drv_channel_router d) = Some (res, rt')"
      and d': "d' = d\<lparr>drv_channel_router := rt'\<rparr>"
    using assms by (auto simp: driver_route_datagram_def)
  obtain v c where v: "read_var_int cursor_read_exact (cursor_new datagram) = (v, c)"
    by (cases "read_var_int cursor_read_exact (cursor_new datagram)")
  show ?thesis
  proof (cases v)
    case (Inl e)
    with r d' v show ?thesis by (intro that(1)) (simp add: route_registered_datagram_def)
  next
    case (Inr i)
    show ?thesis
    proof (cases "router_conversation i (drv_channel_router d)")
      case None
      with Inr r d' v show ?thesis by (intro that(1)) (simp add: route_registered_datagram_def)
    next
      case (Some ref)
      with Inr r v obtain res1 cv where
        "add_datagram (drop (cur_pos c) datagram) (convs (drv_channel_router d) ref) = Some (res1, cv)"
        "rt' = (drv_channel_router d)\<lparr>convs := (convs (drv_channel_router d))(ref := cv)\<rparr>"
        by (auto simp: route_registered_datagram_def)
      with Some d' show ?thesis by (intro that(2)) simp_all
    qed
  qed
qed

lemma driver_ok_routed_datagram:
  assumes "driver_ok d" "driver_route_datagram datagram d = Some (res, d')"
  shows "driver_ok d'"
  using assms(2)
proof (cases rule: driver_route_datagram_cases)
  case (2 ref i x res1 cv)
  with assms(1) have "ref < drv_next d" "conv_ok (convs (drv_channel_router d) ref)"
    unfolding driver_ok_def by blast+
  then show ?thesis
    unfolding 2(3)
    by (intro driver_ok_update assms(1) conv_ok_add_datagram [OF _ 2(2)] control_stream_id_add_datagram [OF 2(2)])
qed (use assms in simp)

lemma accept_and_route_channel_cases:
  assumes "accept_and_route_channel rd stream rt = Some (res, rt')"
  obtains "rt' = rt"
  | inc w r ref i where "router_conversation i rt = Some ref"
      "rt' = rt\<lparr>convs := (convs rt)(ref :=
          incoming_channel (routed_wrap inc) (routed_channel inc w r (convs rt ref))
            ((convs rt ref)\<lparr>queues := snd (queue_alloc (dq_new (default_datagrams_queue_size (convs rt ref)))
               (queues (convs rt ref)))\<rparr>))\<rparr>"
proof (cases "accept_bi_channel rd stream")
  case (Inl e)
  with assms show ?thesis by (intro that(1)) (simp add: accept_and_route_channel_def)
next
  case (Inr x)
  obtain inc w r where x: "x = (inc, w, r)"
    by (cases x)
  show ?thesis
  proof (cases "router_conversation (hdr_conversation_stream_id (inc_header inc)) rt")
    case None
    with assms Inr x show ?thesis
      by (intro that(1)) (simp add: accept_and_route_channel_def route_incoming_channel_eq)
  next
    case (Some ref)
    with assms Inr x show ?thesis
      by (intro that(2) [OF Some, of inc w r]) (simp add: accept_and_route_channel_def route_incoming_channel_eq)
  qed
qed

lemma driver_ok_routed_channel:
  assumes "driver_ok d" "driver_accept_and_route_channel rd stream d = Some (res, d')"
  shows "driver_ok d'"
proof -
  obtain rt' where d': "d' = d\<lparr>drv_channel_router := rt'\<rparr>"
      and r: "accept_and_route_channel rd stream (drv_channel_router d) = Some (res, rt')"
    using assms(2) by (auto simp: driver_accept_and_route_channel_def)
  from r show ?thesis
  proof (cases rule: accept_and_route_channel_cases)
    case (2 inc w r ref i)
    with assms(1) have "ref < drv_next d" "conv_ok (convs (drv_channel_router d) ref)"
      unfolding driver_ok_def by blast+
    then show ?thesis
      unfolding d' 2(2) by (intro driver_ok_update assms(1) conv_ok_routed)
        (simp_all add: incoming_channel_def channel_alloc_def queue_incoming_accepted_channel_def)
  qed (use assms d' in simp)
qed

lemma driver_ok_step: "driver_step rd wr d d' \<Longrightarrow> driver_ok d \<Longrightarrow> driver_ok d'"
proof (induction rule: driver_step.induct)
  case (accepted ctrl cid mps n chs qs d ref d')
  have "control_stream_id (conversation_new ctrl cid mps n chs qs) = ctrl"
    by (simp add: conversation_new_def)
  moreover have "conversations (drv_channel_router d) i \<noteq> Some (drv_next d)" for i
    using accepted.prems by (auto simp: driver_ok_def router_conversation_def)
  ultimately show ?case
    using accepted
    by (auto simp: driver_ok_def driver_register_def register_conversation_def router_conversation_def
        Let_def less_Suc_eq conv_ok_new split: if_splits)
next
  case (unregistered i d removed d')
  then show ?case
    by (auto simp: driver_ok_def driver_unregister_conversation_def unregister_conversation_def
        router_conversation_def split: if_splits)
next
  case (routed_datagram datagram d res d')
  then show ?case by (blast intro: driver_ok_routed_datagram)
next
  case (routed_channel stream d ch d')
  then show ?case by (blast intro: driver_ok_routed_channel)
next
  case (conversation ref d cv)
  then show ?case
    by (intro driver_ok_update)
      (auto simp: driver_ok_def intro: conv_ok_step control_stream_id_step)
qed

section \<open>Properties\<close>

text \<open>
  C25: Whatever requests, streams and datagrams arrive on a connection, in whatever order, and whatever
  its conversations do, the router finds under a control stream id only a conversation with that
  control stream id, and every conversation of the connection keeps its invariant: channels under
  their own ids, separate queues within their capacity.
\<close>

theorem connection_invariant:
  assumes "(driver_step rd wr)\<^sup>*\<^sup>* (driver_new cvs) d"
  shows "(\<forall>i ref. router_conversation i (drv_channel_router d) = Some ref \<longrightarrow>
        ref < drv_next d \<and> control_stream_id (convs (drv_channel_router d) ref) = i)
    \<and> (\<forall>ref<drv_next d. registry_ok (convs (drv_channel_router d) ref)
        \<and> queues_separate (convs (drv_channel_router d) ref)
        \<and> queues_bounded (queues (convs (drv_channel_router d) ref)))"
proof -
  have "driver_ok (driver_new cvs)"
    by (simp add: driver_ok_def driver_new_def router_new_def router_conversation_def)
  with assms have "driver_ok d"
    by (induction rule: rtranclp_induct) (auto intro: driver_ok_step)
  then show ?thesis
    by (simp add: driver_ok_def conv_ok_def)
qed

theorem connection_invariant_witness:
  "let (ref, d) = driver_register (conversation_new 4 [] 100 4 (\<lambda>_. memory_channel 100 None []) (\<lambda>_. dq_new 0))
         (driver_new (\<lambda>_. memory_conversation))
   in router_conversation 4 (drv_channel_router d) = Some ref
     \<and> control_stream_id (convs (drv_channel_router d) ref) = 4
     \<and> registry_ok (convs (drv_channel_router d) ref)"
proof -
  let ?r = "driver_register (conversation_new 4 [] 100 4 (\<lambda>_. memory_channel 100 None []) (\<lambda>_. dq_new 0))
         (driver_new (\<lambda>_. memory_conversation))"
  have "(driver_step brs_read_exact rss_write_all)\<^sup>*\<^sup>* (driver_new (\<lambda>_. memory_conversation)) (snd ?r)"
    by (rule r_into_rtranclp, rule driver_step.accepted) (rule prod.collapse [symmetric])
  from connection_invariant [OF this]
  have inv: "\<forall>ref<drv_next (snd ?r). registry_ok (convs (drv_channel_router (snd ?r)) ref)"
    by blast
  have f: "fst ?r = 0" "drv_next (snd ?r) = 1" "router_conversation 4 (drv_channel_router (snd ?r)) = Some 0"
    "control_stream_id (convs (drv_channel_router (snd ?r)) 0) = 4"
    by (simp_all add: driver_register_def driver_new_def router_new_def register_conversation_def
        router_conversation_def conversation_new_def)
  then have "registry_ok (convs (drv_channel_router (snd ?r)) 0)"
    using inv by simp
  then show ?thesis
    by (simp add: split_beta f)
qed

text \<open>What the router does with a datagram whose ids it can read.\<close>

lemma route_registered_datagram_decoded:
  assumes "varint_ok ctrl"
  shows "route_registered_datagram (var_int_bytes ctrl @ body) rt = (case router_conversation ctrl rt of
         None \<Rightarrow> Some (Ready (Ok None), rt)
       | Some ref \<Rightarrow> map_option
           (\<lambda>(res, cv). (dispatch_result (Some ref) res, rt\<lparr>convs := (convs rt)(ref := cv)\<rparr>))
           (add_datagram body (convs rt ref)))"
proof -
  have "read_var_int cursor_read_exact (cursor_new (var_int_bytes ctrl @ body))
      = (Ok ctrl, cursor_adv (length (var_int_bytes ctrl)) (cursor_new (var_int_bytes ctrl @ body)))"
    by (rule parsesD [OF cur.parses_var_int [OF assms]]) simp
  then show ?thesis
    by (simp add: route_registered_datagram_def cursor_adv_def cursor_new_def split: option.splits)
qed

lemma cds_send_recorded:
  assumes "cds_send rds_send_datagram s payload sent = Some (Ok (), sent')"
  shows "varint_ok (cds_control_stream_id s)" "varint_ok (cds_channel_id s)"
    "sent' = sent @ [var_int_bytes (cds_control_stream_id s) @ var_int_bytes (cds_channel_id s) @ payload]"
proof -
  obtain b1 b2 where b: "append_var_int [] (cds_control_stream_id s) = Some b1"
    "append_var_int b1 (cds_channel_id s) = Some b2" "sent' = sent @ [b2 @ payload]"
    using assms
    by (auto simp: cds_send_def rds_send_datagram_def pbind_def pvalue_def
        split: option.splits bind_splits)
  then show ok: "varint_ok (cds_control_stream_id s)" "varint_ok (cds_channel_id s)"
    using append_var_int_None_iff [of "[]" "cds_control_stream_id s"]
      append_var_int_None_iff [of b1 "cds_channel_id s"] by (simp_all add: not_less)
  show "sent' = sent @ [var_int_bytes (cds_control_stream_id s) @ var_int_bytes (cds_channel_id s) @ payload]"
    using b append_var_int_eq [OF ok(1), of "[]"] append_var_int_eq [OF ok(2), of b1] by simp
qed

text \<open>
  C10: A datagram sent on a channel of one endpoint arrives on the same channel of the other, and
  nowhere else. \<^verbatim>\<open>ConversationDatagramSender::send_datagram\<close> hands one datagram to the transport; when
  the peer's router gets it, the conversation is registered under the sender's control stream and
  the channel under its id with room in its queue, the payload is appended to that queue unchanged,
  and the queues of all other channels and all other conversations stay as they were.
\<close>

theorem datagram_end_to_end:
  assumes "cds_send rds_send_datagram s payload [] = Some (Ok (), sent)"
    and "driver_ok d" and "router_conversation (cds_control_stream_id s) (drv_channel_router d) = Some cref"
    and "channels (convs (drv_channel_router d) cref) (cds_channel_id s) = Some ref"
    and "let cv = convs (drv_channel_router d) cref; q = qh_queues (queues cv) (datagrams_queue (chans cv ref))
         in length (dq_queue q) < dq_capacity q"
  shows "\<exists>datagram d'. sent = [datagram] \<and> driver_route_datagram datagram d = Some (Ready (Ok (Some cref)), d')
    \<and> (let cv = convs (drv_channel_router d) cref; cv' = convs (drv_channel_router d') cref
       in dq_queue (qh_queues (queues cv') (datagrams_queue (chans cv' ref)))
            = dq_queue (qh_queues (queues cv) (datagrams_queue (chans cv ref))) @ [payload]
        \<and> chans cv' = chans cv \<and> channels cv' = channels cv
        \<and> (\<forall>other<chan_next cv. other \<noteq> ref \<longrightarrow> qh_queues (queues cv') (datagrams_queue (chans cv' other))
             = qh_queues (queues cv) (datagrams_queue (chans cv other))))
    \<and> (\<forall>other. other \<noteq> cref \<longrightarrow> convs (drv_channel_router d') other = convs (drv_channel_router d) other)"
proof -
  let ?rt = "drv_channel_router d"
  let ?cv = "convs ?rt cref"
  let ?cv' = "?cv\<lparr>queues := snd (wait_add_datagram payload (chans ?cv ref) (queues ?cv))\<rparr>"
  note sent = cds_send_recorded [OF assms(1)]
  have "conv_ok ?cv"
    using assms(2,3) unfolding driver_ok_def by blast
  then have sep: "datagrams_queue (chans ?cv other) \<noteq> datagrams_queue (chans ?cv ref)"
    if "other < chan_next ?cv" "other \<noteq> ref" for other
    using assms(4) that unfolding conv_ok_def registry_ok_def queues_separate_def by blast
  have "add_datagram (var_int_bytes (cds_channel_id s) @ payload) ?cv = Some (Ready (Ok ()), ?cv')"
    using assms(4,5)
    by (simp add: add_datagram_decoded [OF sent(2)] wait_add_datagram_def queue_update_def dq_wait_add_def Let_def)
  then have "driver_route_datagram (var_int_bytes (cds_control_stream_id s) @ var_int_bytes (cds_channel_id s) @ payload) d
      = Some (Ready (Ok (Some cref)), d\<lparr>drv_channel_router := ?rt\<lparr>convs := (convs ?rt)(cref := ?cv')\<rparr>\<rparr>)"
    by (simp add: driver_route_datagram_def route_registered_datagram_decoded [OF sent(1)] assms(3))
  then show ?thesis
    using sep assms(5)
    by (intro exI [of _ "var_int_bytes (cds_control_stream_id s) @ var_int_bytes (cds_channel_id s) @ payload"]
        exI [of _ "d\<lparr>drv_channel_router := ?rt\<lparr>convs := (convs ?rt)(cref := ?cv')\<rparr>\<rparr>"])
      (simp add: sent(3) wait_add_datagram_def queue_update_def dq_wait_add_def Let_def)
qed

text \<open>A connection with one conversation, whose control stream is 0 and which has the channel 4.\<close>

definition memory_driver :: "(bytes_receive_stream, recording_send_stream) server_connection_driver" where
  "memory_driver = snd (driver_register memory_conversation (driver_new (\<lambda>_. memory_conversation)))"

lemma memory_driver_fields:
  "driver_ok memory_driver" "router_conversation 0 (drv_channel_router memory_driver) = Some 0"
  "convs (drv_channel_router memory_driver) 0 = memory_conversation"
  using conv_ok_memory_conversation(1)
  by (auto simp: memory_driver_def driver_ok_def driver_register_def driver_new_def router_new_def
      register_conversation_def router_conversation_def memory_conversation_def conversation_new_def
      split: if_splits)

theorem datagram_end_to_end_witness:
  "\<exists>sent datagram d'. cds_send rds_send_datagram \<lparr>cds_control_stream_id = 0, cds_channel_id = 4\<rparr> [7, 8] []
       = Some (Ok (), sent) \<and> sent = [datagram]
     \<and> driver_route_datagram datagram memory_driver = Some (Ready (Ok (Some 0)), d')
     \<and> dq_queue (qh_queues (queues (convs (drv_channel_router d') 0)) 0) = [[7, 8]]"
proof -
  let ?s = "\<lparr>cds_control_stream_id = 0, cds_channel_id = 4\<rparr>"
  have sent: "cds_send rds_send_datagram ?s [7, 8] [] = Some (Ok (), [[0, 4, 7, 8]])"
    by (simp add: cds_send_def rds_send_datagram_def append_var_int_def max_varint_defs)
  have c: "channels memory_conversation 4 = Some 0" "datagrams_queue (chans memory_conversation 0) = 0"
    "qh_queues (queues memory_conversation) 0 = dq_new 2"
    by (simp_all add: memory_conversation_def conversation_new_def memory_channel_def)
  have "driver_ok memory_driver" "router_conversation (cds_control_stream_id ?s) (drv_channel_router memory_driver) = Some 0"
    "channels (convs (drv_channel_router memory_driver) 0) (cds_channel_id ?s) = Some 0"
    using memory_driver_fields c by simp_all
  from datagram_end_to_end [OF sent this] show ?thesis
    using sent by (fastforce simp: memory_driver_fields(3) c dq_new_def Let_def)
qed

lemma datagram_loop_append:
  "accept_and_route_datagrams_forever xs d = Some (Ready (Ok ()), d1) \<Longrightarrow>
   accept_and_route_datagrams_forever (xs @ ys) d = accept_and_route_datagrams_forever ys d1"
  by (induction xs arbitrary: d) (auto split: option.splits poll.splits sum.splits prod.splits)

lemma full_queue_waits:
  assumes "varint_ok i" "channels cv i = Some ref"
    and "dq_capacity (qh_queues (queues cv) (datagrams_queue (chans cv ref)))
       \<le> length (dq_queue (qh_queues (queues cv) (datagrams_queue (chans cv ref))))"
  shows "add_datagram (var_int_bytes i @ payload) cv = Some (Pending, cv)"
  using assms(3)
  by (simp add: add_datagram_decoded [OF assms(1)] assms(2) wait_add_datagram_def queue_update_def dq_wait_add_def)



text \<open>
  C35: Client and server agree on the conversation. When the client's request has been built by
  \<^verbatim>\<open>build_connect_request\<close>, a conversation is established only after a 200 response; the server that
  accepted this request sees an SSH3 CONNECT, and, as both ends of a TLS session export the same
  keying material, both ends have the same control stream and the same conversation id.
\<close>

theorem conversation_agreed:
  assumes build: "\<forall>meth u r. build meth u = Ok r \<longrightarrow> req_method r = meth"
    and "build_connect_request build from_str uri user_agent = Ok req"
    and "snd_request req = Ok stream" and "resolve_request resolver = Ok (req, stream)"
    and "establish_client_conversation export snd_request recv_response req mps n chs qs = Ok (ccv, cstream, resp)"
    and "accept_server_conversation export (Ok (Some resolver)) resolve_request smps sn schs sqs
       = Ok (Some (scv, sstream, sreq))"
  shows "resp_status resp = 200 \<and> is_ssh3_connect sreq
    \<and> control_stream_id ccv = stream \<and> control_stream_id scv = stream
    \<and> conversation_id ccv = conversation_id scv
    \<and> export 32 (bstr ''EXPORTER-SSH3'') [] = Ok (conversation_id scv)"
  using assms
  by (auto simp: build_connect_request_def establish_client_conversation_def accept_server_conversation_def
      generate_conversation_id_def SSH3_CONVERSATION_ID_LEN_def SSH3_EXPORTER_LABEL_def is_ssh3_connect_def
      request_protocol_def conversation_new_def split: sum.splits if_splits)

definition memory_request :: "string \<Rightarrow> string \<Rightarrow> string + (string, string) http_request" where
  "memory_request meth uri = Ok \<lparr>req_method = meth, req_uri = uri, req_headers = Map.empty, req_protocol = None\<rparr>"

theorem conversation_agreed_witness:
  "\<exists>req ccv cstream resp scv sstream sreq.
     (build_connect_request memory_request Inr ''https://host/ssh3'' ''agent'' :: (string, string) build_connect_request_error + _) = Ok req
   \<and> establish_client_conversation (\<lambda>n _ _. Ok (replicate n 1) :: string + bytes) (\<lambda>_. Ok 0)
       (\<lambda>_. Ok \<lparr>resp_status = 200, resp_headers = Map.empty\<rparr> :: string + string http_response) req 100 4
       (\<lambda>_. memory_channel 100 None []) (\<lambda>_. dq_new 0) = Ok (ccv, cstream, resp)
   \<and> accept_server_conversation (\<lambda>n _ _. Ok (replicate n 1) :: string + bytes) (Ok (Some ()) :: string + unit option)
       (\<lambda>_. Ok (req, 0) :: string + _) 100 4 (\<lambda>_. memory_channel 100 None []) (\<lambda>_. dq_new 0)
       = Ok (Some (scv, sstream, sreq))
   \<and> is_ssh3_connect sreq \<and> conversation_id ccv = conversation_id scv"
proof -
  let ?export = "\<lambda>n _ _. Ok (replicate n 1) :: string + bytes"
  let ?resp = "\<lparr>resp_status = 200, resp_headers = Map.empty\<rparr> :: string http_response"
  let ?req = "\<lparr>req_method = ''CONNECT'', req_uri = ''https://host/ssh3'', req_headers = [USER_AGENT \<mapsto> ''agent''],
    req_protocol = Some SSH3_PROTOCOL_NAME\<rparr>"
  let ?cv = "conversation_new 0 (replicate 32 1) 100 4 (\<lambda>_. memory_channel 100 None []) (\<lambda>_. dq_new 0)"
  have b: "(build_connect_request memory_request Inr ''https://host/ssh3'' ''agent''
      :: (string, string) build_connect_request_error + _) = Ok ?req"
    by (simp add: build_connect_request_def memory_request_def)
  have c: "establish_client_conversation ?export (\<lambda>_. Ok 0) (\<lambda>_. Ok ?resp :: string + string http_response) ?req 100 4
       (\<lambda>_. memory_channel 100 None []) (\<lambda>_. dq_new 0) = Ok (?cv, 0, ?resp)"
    by (simp add: establish_client_conversation_def generate_conversation_id_def SSH3_CONVERSATION_ID_LEN_def)
  have s: "accept_server_conversation ?export (Ok (Some ()) :: string + unit option)
       (\<lambda>_. Ok (?req, 0) :: string + _) 100 4 (\<lambda>_. memory_channel 100 None []) (\<lambda>_. dq_new 0)
       = Ok (Some (?cv, 0, ?req))"
    by (simp add: accept_server_conversation_def generate_conversation_id_def SSH3_CONVERSATION_ID_LEN_def)
  have m: "\<forall>meth u r. memory_request meth u = Ok r \<longrightarrow> req_method r = meth"
    by (auto simp: memory_request_def)
  have "is_ssh3_connect ?req"
    using conversation_agreed [OF m b refl refl c s] by blast
  with b c s show ?thesis
    by (intro exI [of _ ?req] exI [of _ ?cv] exI [of _ "0 :: u64"] exI [of _ ?resp] conjI refl)
qed

end
