(* ===== verification/Rust_Std.thy ===== *)
theory Rust_Std
  imports Ssh3_Prelude
begin

text \<open>
  What the authentication, server and client code uses of Rust's standard library on results and
  strings. A string is its UTF-8 bytes, as in Rust; \<^verbatim>\<open>as_bytes\<close> is \<^const>\<open>bstr\<close>. White space is Unicode's
  \<^verbatim>\<open>White_Space\<close>, recognised in its UTF-8 encodings.
\<close>

section \<open>Results\<close>

text \<open>The \<^verbatim>\<open>?\<close> operator, \<^verbatim>\<open>ok_or\<close> and an early return on a failed check.\<close>

fun and_then :: "'e + 'a \<Rightarrow> ('a \<Rightarrow> 'e + 'b) \<Rightarrow> 'e + 'b" where
  "and_then (Err e) f = Err e"
| "and_then (Ok a) f = f a"

fun ok_or :: "'e \<Rightarrow> 'a option \<Rightarrow> 'e + 'a" where
  "ok_or e None = Err e"
| "ok_or e (Some a) = Ok a"

definition ensure :: "bool \<Rightarrow> 'e \<Rightarrow> 'e + unit" where
  "ensure b e = (if b then Ok () else Err e)"

definition map_err :: "('e \<Rightarrow> 'f) \<Rightarrow> 'e + 'a \<Rightarrow> 'f + 'a" where
  "map_err f = map_sum f id"

definition is_ok :: "'e + 'a \<Rightarrow> bool" where
  "is_ok r \<longleftrightarrow> (case r of Ok _ \<Rightarrow> True | Err _ \<Rightarrow> False)"

lemma and_then_Ok_iff: "and_then r f = Ok b \<longleftrightarrow> (\<exists>a. r = Ok a \<and> f a = Ok b)"
  by (cases r) simp_all

lemma ok_or_Ok_iff: "ok_or e r = Ok a \<longleftrightarrow> r = Some a"
  by (cases r) simp_all

lemma ensure_Ok_iff: "ensure b e = Ok u \<longleftrightarrow> b"
  by (simp add: ensure_def)

lemma map_err_Ok_iff: "map_err f r = Ok a \<longleftrightarrow> r = Ok a"
  by (cases r) (simp_all add: map_err_def)

lemma map_err_simps [simp]: "map_err f (Ok a) = Ok a" "map_err f (Err e) = Err (f e)"
  by (simp_all add: map_err_def)

lemma is_ok_simps [simp]: "is_ok (Ok a)" "\<not> is_ok (Err e)"
  by (simp_all add: is_ok_def)

lemma ensure_True [simp]: "ensure True e = Ok ()" "ensure False e = Err e"
  by (simp_all add: ensure_def)

lemmas result_Ok_iffs = and_then_Ok_iff ok_or_Ok_iff ensure_Ok_iff map_err_Ok_iff

lemma find_SomeD: "find P xs = Some x \<Longrightarrow> x \<in> set xs \<and> P x"
  by (auto simp: find_Some_iff)

section \<open>Splitting at a character\<close>

fun split_once :: "char \<Rightarrow> string \<Rightarrow> (string \<times> string) option" where
  "split_once d [] = None"
| "split_once d (c # cs) = (if c = d then Some ([], cs)
     else map_option (\<lambda>(a, b). (c # a, b)) (split_once d cs))"

definition rsplit_once :: "char \<Rightarrow> string \<Rightarrow> (string \<times> string) option" where
  "rsplit_once d s = map_option (\<lambda>(b, a). (rev a, rev b)) (split_once d (rev s))"

text \<open>\<^verbatim>\<open>str::split\<close>, as a list.\<close>

fun str_split :: "char \<Rightarrow> string \<Rightarrow> string list" where
  "str_split d [] = [[]]"
| "str_split d (c # cs) = (if c = d then [] # str_split d cs
     else case str_split d cs of [] \<Rightarrow> [[c]] | p # ps \<Rightarrow> (c # p) # ps)"

lemma split_once_iff: "split_once d s = Some (a, b) \<longleftrightarrow> s = a @ d # b \<and> d \<notin> set a"
proof (induction s arbitrary: a)
  case (Cons c cs)
  show ?case
  proof (cases a)
    case Nil
    then show ?thesis by auto
  next
    case (Cons x xs)
    then show ?thesis
      using Cons.IH [of xs] by (auto simp: map_option_case split: option.splits)
  qed
qed simp

lemma split_once_None_iff: "split_once d s = None \<longleftrightarrow> d \<notin> set s"
  by (induction s) auto

lemma rsplit_once_iff: "rsplit_once d s = Some (a, b) \<longleftrightarrow> s = a @ d # b \<and> d \<notin> set b"
proof -
  have "rsplit_once d s = Some (a, b) \<longleftrightarrow> split_once d (rev s) = Some (rev b, rev a)"
    unfolding rsplit_once_def by (cases "split_once d (rev s)") auto
  also have "\<dots> \<longleftrightarrow> rev s = rev (a @ d # b) \<and> d \<notin> set b"
    by (simp add: split_once_iff)
  finally show ?thesis
    by (simp only: rev_is_rev_conv)
qed

section \<open>Lines\<close>

definition strip_cr :: "string \<Rightarrow> string" where
  "strip_cr l = (if l \<noteq> [] \<and> last l = CHR 0x0D then butlast l else l)"

function str_lines :: "string \<Rightarrow> string list" where
  "str_lines s = (if s = [] then []
     else case dropWhile (\<lambda>c. c \<noteq> CHR 0x0A) s of
         [] \<Rightarrow> [s]
       | _ # rest \<Rightarrow> strip_cr (takeWhile (\<lambda>c. c \<noteq> CHR 0x0A) s) # str_lines rest)"
  by pat_completeness auto
termination
proof (relation "measure length")
  fix s rest :: string and c
  assume "dropWhile (\<lambda>c. c \<noteq> CHR 0x0A) s = c # rest"
  with length_dropWhile_le [of "\<lambda>c. c \<noteq> CHR 0x0A" s] show "(rest, s) \<in> measure length"
    by simp
qed simp

declare str_lines.simps [simp del]

section \<open>White space\<close>

definition white_space :: "nat list list" where
  "white_space = [[0x09], [0x0A], [0x0B], [0x0C], [0x0D], [0x20], [0xC2, 0x85], [0xC2, 0xA0],
     [0xE1, 0x9A, 0x80], [0xE2, 0x80, 0x80], [0xE2, 0x80, 0x81], [0xE2, 0x80, 0x82], [0xE2, 0x80, 0x83],
     [0xE2, 0x80, 0x84], [0xE2, 0x80, 0x85], [0xE2, 0x80, 0x86], [0xE2, 0x80, 0x87], [0xE2, 0x80, 0x88],
     [0xE2, 0x80, 0x89], [0xE2, 0x80, 0x8A], [0xE2, 0x80, 0xA8], [0xE2, 0x80, 0xA9], [0xE2, 0x80, 0xAF],
     [0xE2, 0x81, 0x9F], [0xE3, 0x80, 0x80]]"

definition is_ws :: "string \<Rightarrow> bool" where
  "is_ws s \<longleftrightarrow> map of_char s \<in> set white_space"

text \<open>The length of the white space character at the start and at the end of a string, 0 if none.\<close>

definition ws_len :: "string \<Rightarrow> nat" where
  "ws_len s = (if is_ws (take 1 s) then 1 else if is_ws (take 2 s) then 2 else if is_ws (take 3 s) then 3 else 0)"

definition ws_end_len :: "string \<Rightarrow> nat" where
  "ws_end_len s = (let n = length s in
     if is_ws (drop (n - 1) s) then 1 else if is_ws (drop (n - 2) s) then 2
     else if is_ws (drop (n - 3) s) then 3 else 0)"

lemma is_ws_Nil [simp]: "\<not> is_ws []"
  by (simp add: is_ws_def white_space_def)

lemma ws_len_pos: "ws_len s \<noteq> 0 \<Longrightarrow> s \<noteq> []"
  by (auto simp: ws_len_def split: if_splits)

function trim_start :: "string \<Rightarrow> string" where
  "trim_start s = (if ws_len s = 0 then s else trim_start (drop (ws_len s) s))"
  by pat_completeness auto
termination
  by (relation "measure length") (use ws_len_pos in \<open>auto simp: length_greater_0_conv [symmetric] simp del: length_greater_0_conv\<close>)

function trim_end :: "string \<Rightarrow> string" where
  "trim_end s = (if ws_end_len s = 0 then s else trim_end (take (length s - ws_end_len s) s))"
  by pat_completeness auto
termination
proof (relation "measure length")
  fix s :: string
  assume "ws_end_len s \<noteq> 0"
  moreover from this have "s \<noteq> []"
    by (auto simp: ws_end_len_def split: if_splits)
  ultimately show "(take (length s - ws_end_len s) s, s) \<in> measure length"
    by simp
qed simp

declare trim_start.simps [simp del] trim_end.simps [simp del]

definition str_trim :: "string \<Rightarrow> string" where
  "str_trim s = trim_end (trim_start s)"

fun next_word :: "string \<Rightarrow> string \<times> string" where
  "next_word [] = ([], [])"
| "next_word (c # cs) = (if ws_len (c # cs) \<noteq> 0 then ([], c # cs)
     else case next_word cs of (w, r) \<Rightarrow> (c # w, r))"

lemma next_word_append: "next_word s = (w, r) \<Longrightarrow> s = w @ r"
  by (induction s arbitrary: w) (auto split: if_splits prod.splits)

lemma trim_start_length: "length (trim_start s) \<le> length s"
proof (induction s rule: trim_start.induct)
  case (1 s)
  then show ?case
    by (subst trim_start.simps) (cases "ws_len s = 0", simp_all)
qed

lemma ws_len_trim_start: "ws_len (trim_start s) = 0"
  by (induction s rule: trim_start.induct) (subst trim_start.simps, simp)

lemma next_word_decreases:
  assumes "next_word (trim_start s) = (w, r)" "w \<noteq> []"
  shows "length r < length s"
proof -
  have "length (w @ r) \<le> length s"
    using next_word_append [OF assms(1)] trim_start_length [of s] by simp
  with assms(2) show ?thesis
    by (cases w) simp_all
qed

function split_whitespace :: "string \<Rightarrow> string list" where
  "split_whitespace s = (case next_word (trim_start s) of
     (w, r) \<Rightarrow> if w = [] then [] else w # split_whitespace r)"
  by pat_completeness auto
termination
  by (relation "measure length") (auto intro: next_word_decreases [OF sym])

declare split_whitespace.simps [simp del]

section \<open>ASCII case, prefixes, suffixes\<close>

definition to_ascii_lowercase_char :: "char \<Rightarrow> char" where
  "to_ascii_lowercase_char c = (if 65 \<le> (of_char c :: nat) \<and> (of_char c :: nat) \<le> 90 then char_of (of_char c + 32 :: nat) else c)"

definition to_ascii_uppercase_char :: "char \<Rightarrow> char" where
  "to_ascii_uppercase_char c = (if 97 \<le> (of_char c :: nat) \<and> (of_char c :: nat) \<le> 122 then char_of (of_char c - 32 :: nat) else c)"

definition to_ascii_lowercase :: "string \<Rightarrow> string" where
  "to_ascii_lowercase = map to_ascii_lowercase_char"

definition to_ascii_uppercase :: "string \<Rightarrow> string" where
  "to_ascii_uppercase = map to_ascii_uppercase_char"

definition eq_ignore_ascii_case :: "string \<Rightarrow> string \<Rightarrow> bool" where
  "eq_ignore_ascii_case s t \<longleftrightarrow> to_ascii_lowercase s = to_ascii_lowercase t"

fun strip_prefix :: "string \<Rightarrow> string \<Rightarrow> string option" where
  "strip_prefix [] s = Some s"
| "strip_prefix (p # ps) (c # cs) = (if p = c then strip_prefix ps cs else None)"
| "strip_prefix (p # ps) [] = None"

fun str_contains :: "string \<Rightarrow> string \<Rightarrow> bool" where
  "str_contains pat [] = (pat = [])"
| "str_contains pat (c # cs) = (take (length pat) (c # cs) = pat \<or> str_contains pat cs)"

definition trim_end_matches :: "char \<Rightarrow> string \<Rightarrow> string" where
  "trim_end_matches c s = rev (dropWhile (\<lambda>x. x = c) (rev s))"

lemma strip_prefix_iff: "strip_prefix p s = Some t \<longleftrightarrow> s = p @ t"
  by (induction p s rule: strip_prefix.induct) auto

fun find_map :: "('a \<Rightarrow> 'b option) \<Rightarrow> 'a list \<Rightarrow> 'b option" where
  "find_map f [] = None"
| "find_map f (x # xs) = (case f x of Some y \<Rightarrow> Some y | None \<Rightarrow> find_map f xs)"

text \<open>\<^verbatim>\<open>PathBuf::join\<close> on Unix.\<close>

definition path_join :: "string \<Rightarrow> string \<Rightarrow> string" where
  "path_join p q = (if q \<noteq> [] \<and> hd q = CHR ''/'' then q
     else if p = [] \<or> last p = CHR ''/'' then p @ q else p @ ''/'' @ q)"

text \<open>The decimal \<^verbatim>\<open>Display\<close> of unsigned numbers.\<close>

fun show_nat :: "nat \<Rightarrow> string" where
  "show_nat n = (if n < 10 then [char_of (48 + n)] else show_nat (n div 10) @ [char_of (48 + n mod 10)])"

declare show_nat.simps [simp del]

text \<open>\<^verbatim>\<open>Path::file_name\<close>: the last component, unless it is \<^verbatim>\<open>..\<close>.\<close>

definition path_file_name :: "string \<Rightarrow> string option" where
  "path_file_name p = (case rev (filter (\<lambda>c. c \<noteq> [] \<and> c \<noteq> ''.'') (str_split (CHR ''/'') p)) of
       [] \<Rightarrow> None
     | c # _ \<Rightarrow> if c = ''..'' then None else Some c)"

section \<open>UTF-8\<close>

definition str_of_bytes :: "bytes \<Rightarrow> string" where
  "str_of_bytes bs = map (\<lambda>b. char_of (unat b)) bs"

definition is_cont :: "bytes \<Rightarrow> nat \<Rightarrow> bool" where
  "is_cont bs i \<longleftrightarrow> i < length bs \<and> 0x80 \<le> bs ! i \<and> bs ! i \<le> 0xBF"

text \<open>The second byte of a character is in a range that depends on the first.\<close>

definition second_ok :: "bytes \<Rightarrow> bool" where
  "second_ok bs \<longleftrightarrow> (let b = bs ! 0; c = bs ! 1 in length bs > 1 \<and>
     (if b = 0xE0 then 0xA0 \<le> c \<and> c \<le> 0xBF
      else if b = 0xED then 0x80 \<le> c \<and> c \<le> 0x9F
      else if b = 0xF0 then 0x90 \<le> c \<and> c \<le> 0xBF
      else if b = 0xF4 then 0x80 \<le> c \<and> c \<le> 0x8F
      else 0x80 \<le> c \<and> c \<le> 0xBF))"

text \<open>Whether a character starts the bytes, and its length, or the length of the invalid part.\<close>

definition utf8_step :: "bytes \<Rightarrow> bool \<times> nat" where
  "utf8_step bs = (let b = bs ! 0 in
     if b < 0x80 then (True, 1)
     else if 0xC2 \<le> b \<and> b \<le> 0xDF then (if second_ok bs then (True, 2) else (False, 1))
     else if 0xE0 \<le> b \<and> b \<le> 0xEF then
       (if \<not> second_ok bs then (False, 1) else if \<not> is_cont bs 2 then (False, 2) else (True, 3))
     else if 0xF0 \<le> b \<and> b \<le> 0xF4 then
       (if \<not> second_ok bs then (False, 1) else if \<not> is_cont bs 2 then (False, 2)
        else if \<not> is_cont bs 3 then (False, 3) else (True, 4))
     else (False, 1))"

lemma utf8_step_shrinks:
  assumes "(b, n) = utf8_step bs" "bs \<noteq> []"
  shows "length bs - n < length bs"
proof -
  have "snd (utf8_step bs) > 0"
    by (simp add: utf8_step_def Let_def)
  with assms show ?thesis
    by (simp flip: assms(1))
qed

function from_utf8 :: "bytes \<Rightarrow> string option" where
  "from_utf8 bs = (if bs = [] then Some []
     else case utf8_step bs of
         (True, n) \<Rightarrow> map_option (\<lambda>s. str_of_bytes (take n bs) @ s) (from_utf8 (drop n bs))
       | (False, _) \<Rightarrow> None)"
  by pat_completeness auto
termination
  by (relation "measure length") (auto simp: utf8_step_shrinks)

function from_utf8_lossy :: "bytes \<Rightarrow> string" where
  "from_utf8_lossy bs = (if bs = [] then []
     else case utf8_step bs of (valid, n) \<Rightarrow>
       (if valid then str_of_bytes (take n bs) else str_of_bytes [0xEF, 0xBF, 0xBD])
         @ from_utf8_lossy (drop n bs))"
  by pat_completeness auto
termination
  by (relation "measure length") (auto simp: utf8_step_shrinks)

declare from_utf8.simps [simp del] from_utf8_lossy.simps [simp del]

lemma str_of_bytes_bstr [simp]: "str_of_bytes (bstr s) = s"
proof -
  have "char_of (unat (of_char c :: u8)) = c" for c
    by (simp add: unat_of_char_u8)
  then show ?thesis
    by (simp add: str_of_bytes_def bstr_def comp_def)
qed

lemma utf8_step_ascii: "b < 0x80 \<Longrightarrow> utf8_step (b # bs) = (True, 1)"
  by (simp add: utf8_step_def)

lemma from_utf8_ascii:
  "list_all (\<lambda>b. b < 0x80) bs \<Longrightarrow> from_utf8 bs = Some (str_of_bytes bs)"
  "list_all (\<lambda>b. b < 0x80) bs \<Longrightarrow> from_utf8_lossy bs = str_of_bytes bs"
  by (induction bs) (simp_all add: from_utf8.simps [of "_ # _"] from_utf8_lossy.simps [of "_ # _"]
      from_utf8.simps [of "[]"] from_utf8_lossy.simps [of "[]"] utf8_step_ascii str_of_bytes_def)

lemma from_utf8_lossy_length: "length (from_utf8_lossy bs) \<le> 3 * length bs"
proof (induction bs rule: from_utf8_lossy.induct)
  case (1 bs)
  show ?case
  proof (cases "bs = []")
    case False
    obtain valid n where st: "utf8_step bs = (valid, n)"
      by (cases "utf8_step bs")
    have "length (from_utf8_lossy (drop n bs)) \<le> 3 * length (drop n bs)" "length (drop n bs) < length bs"
      using 1 [OF False st [symmetric]] utf8_step_shrinks [OF st [symmetric]] False by auto
    then show ?thesis
      using False by (subst from_utf8_lossy.simps) (auto simp: st str_of_bytes_def)
  qed (simp add: from_utf8_lossy.simps)
qed

section \<open>Graphic ASCII\<close>

text \<open>Strings of visible ASCII characters have no white space, so trimming and splitting leave them.\<close>

definition is_graph :: "char \<Rightarrow> bool" where
  "is_graph c \<longleftrightarrow> 33 \<le> (of_char c :: nat) \<and> (of_char c :: nat) \<le> 126"

lemma ws_len_graph [simp]: "is_graph c \<Longrightarrow> ws_len (c # cs) = 0"
  by (auto simp: is_graph_def ws_len_def is_ws_def white_space_def)

lemma ws_len_Nil [simp]: "ws_len [] = 0"
  by (simp add: ws_len_def is_ws_def white_space_def)

lemma ws_len_space [simp]: "ws_len (CHR '' '' # cs) = 1"
  by (simp add: ws_len_def is_ws_def white_space_def)

lemma trim_start_graph: "is_graph c \<Longrightarrow> trim_start (c # cs) = c # cs"
  by (subst trim_start.simps) simp

lemma ws_end_len_graph:
  assumes "is_graph c"
  shows "ws_end_len (cs @ [c]) = 0"
proof -
  have "map of_char (drop k (cs @ [c])) \<notin> set white_space" if "k \<le> length cs" for k
  proof
    assume "map of_char (drop k (cs @ [c])) \<in> set white_space"
    then have "last (map of_char (drop k (cs @ [c])) :: nat list) \<in> last ` set white_space"
      by (rule imageI)
    moreover have "last (map of_char (drop k (cs @ [c])) :: nat list) = of_char c"
      using that by (simp add: last_map)
    ultimately show False
      using assms by (auto simp: is_graph_def white_space_def)
  qed
  from this [of "length cs"] this [of "length cs - 1"] this [of "length cs - 2"] show ?thesis
    by (simp add: ws_end_len_def is_ws_def Let_def numeral_2_eq_2 numeral_3_eq_3)
qed

lemma trim_end_graph: "is_graph c \<Longrightarrow> trim_end (cs @ [c]) = cs @ [c]"
  by (subst trim_end.simps) (simp add: ws_end_len_graph)

lemma str_trim_graph:
  assumes "s \<noteq> []" "is_graph (hd s)" "is_graph (last s)"
  shows "str_trim s = s"
proof -
  have "trim_start s = s"
    using assms(1,2) trim_start_graph [of "hd s" "tl s"] by simp
  moreover have "trim_end s = s"
    using assms(1,3) trim_end_graph [of "last s" "butlast s"] by simp
  ultimately show ?thesis
    by (simp add: str_trim_def)
qed

lemma next_word_graph:
  "list_all is_graph w \<Longrightarrow> next_word (w @ CHR '' '' # r) = (w, CHR '' '' # r)"
  "list_all is_graph w \<Longrightarrow> next_word w = (w, [])"
  by (induction w) simp_all

lemma split_whitespace_word:
  assumes "w \<noteq> []" "list_all is_graph w"
  shows "split_whitespace (w @ CHR '' '' # r) = w # split_whitespace r" "split_whitespace w = [w]"
proof -
  obtain c cs where w: "w = c # cs" "is_graph c"
    using assms by (cases w) auto
  have sp: "split_whitespace (CHR '' '' # r) = split_whitespace r"
    using trim_start.simps [of "CHR '' '' # r"]
    by (simp add: split_whitespace.simps [of "CHR '' '' # r"] split_whitespace.simps [of r])
  show "split_whitespace (w @ CHR '' '' # r) = w # split_whitespace r"
    using assms next_word_graph(1) [of w r] trim_start_graph [of c "cs @ CHR '' '' # r"] w sp
    by (subst split_whitespace.simps) simp
  show "split_whitespace w = [w]"
    using assms next_word_graph(2) [of w] trim_start_graph [of c cs] w
    by (subst split_whitespace.simps) (simp add: split_whitespace.simps [of "[]"] trim_start.simps [of "[]"])
qed

text \<open>A text is the list of its lines when every line has neither line break.\<close>

lemma ws_len_take: "ws_len s = 0 \<Longrightarrow> ws_len (take n s) = 0"
proof -
  assume "ws_len s = 0"
  then have "\<not> is_ws (take k s)" if "k \<in> {0, 1, 2, 3}" for k
    using that by (auto simp: ws_len_def split: if_splits)
  moreover have "min k n \<in> {0, 1, 2, 3}" if "k \<in> {1, 2, 3}" for k
    using that by (auto simp: min_def)
  ultimately show ?thesis
    by (simp add: ws_len_def)
qed

lemma trim_end_take: "\<exists>n. trim_end s = take n s"
proof (induction s rule: trim_end.induct)
  case (1 s)
  show ?case
  proof (cases "ws_end_len s = 0")
    case False
    with 1 obtain n where "trim_end (take (length s - ws_end_len s) s) = take n (take (length s - ws_end_len s) s)"
      by auto
    with False show ?thesis
      by (subst trim_end.simps) (auto simp: min_def)
  qed (subst trim_end.simps, auto intro: exI [of _ "length s"])
qed

lemma ws_end_len_trim_end: "ws_end_len (trim_end s) = 0"
  by (induction s rule: trim_end.induct) (subst trim_end.simps, simp)

lemma str_trim_idem [simp]: "str_trim (str_trim s) = str_trim s"
proof -
  obtain n where "trim_end (trim_start s) = take n (trim_start s)"
    using trim_end_take by blast
  then have "ws_len (trim_end (trim_start s)) = 0"
    by (simp add: ws_len_take ws_len_trim_start)
  moreover have "trim_end (trim_end (trim_start s)) = trim_end (trim_start s)"
    by (subst trim_end.simps) (simp add: ws_end_len_trim_end)
  ultimately show ?thesis
    by (simp add: str_trim_def trim_start.simps [of "trim_end (trim_start s)"])
qed

definition unlines :: "string list \<Rightarrow> string" where
  "unlines ls = concat (map (\<lambda>l. l @ [CHR 0x0A]) ls)"

lemma str_lines_unlines:
  assumes "\<And>l. l \<in> set ls \<Longrightarrow> CHR 0x0A \<notin> set l \<and> CHR 0x0D \<notin> set l"
  shows "str_lines (unlines ls) = ls"
  using assms
proof (induction ls)
  case (Cons l ls)
  have l: "CHR 0x0A \<notin> set l" "CHR 0x0D \<notin> set l"
    using Cons.prems by auto
  have "takeWhile (\<lambda>c. c \<noteq> CHR 0x0A) (l @ CHR 0x0A # unlines ls) = l"
    "dropWhile (\<lambda>c. c \<noteq> CHR 0x0A) (l @ CHR 0x0A # unlines ls) = CHR 0x0A # unlines ls"
    using l(1) by (subst takeWhile_append2 dropWhile_append2; auto)+
  moreover have "strip_cr l = l"
    using l(2) last_in_set [of l] by (cases "l = []") (auto simp: strip_cr_def simp del: last_in_set)
  ultimately have "str_lines (l @ CHR 0x0A # unlines ls) = l # str_lines (unlines ls)"
    by (subst str_lines.simps) simp
  with Cons show ?case
    by (simp add: unlines_def)
qed (simp add: unlines_def str_lines.simps)

end
