(* ===== verification/Auth_Tokens.thy ===== *)
theory Auth_Tokens
  imports Rust_Std
begin

text \<open>
  Authentication tokens: \<^verbatim>\<open>crates/ssh3-auth/src/lib.rs\<close>. A client proves its identity with a signed JWT that
  is bound to one conversation; the server checks it against the keys and OpenID identities that
  a user's files list. Base64, JSON, the key formats, the signature schemes and the HTTP client are
  crates: a record of their operations is an argument. The clock and the file system are arguments.
\<close>

section \<open>Data\<close>

definition TOKEN_AUDIENCE :: string where "TOKEN_AUDIENCE = ''unused''"
definition TOKEN_SUBJECT :: string where "TOKEN_SUBJECT = ''ssh3''"
definition TOKEN_LIFETIME_SECS :: u64 where "TOKEN_LIFETIME_SECS = 60"

text \<open>Errors of other crates are their text.\<close>

datatype auth_error =
    Auth_Io io_error
  | Auth_Time string
  | Auth_Json string
  | Auth_Base64 string
  | Auth_Reqwest string
  | Auth_SshKey string
  | InvalidKeyMaterial string
  | InvalidToken string
  | UnsupportedAlgorithm string

record jwt_header =
  jh_alg :: string
  jh_typ :: string

record jwt_claims =
  cl_iss :: string
  cl_sub :: string
  cl_aud :: string
  cl_iat :: u64
  cl_exp :: u64
  cl_client_id :: string
  cl_jti :: string

text \<open>\<^verbatim>\<open>ssh_key\<close>'s public and private keys, as far as the code looks into them.\<close>

datatype ecdsa_curve = NistP256 | NistP384 | NistP521

datatype key_data =
    Ed25519 bytes
  | Ecdsa ecdsa_curve bytes
  | Rsa "bytes option" "bytes option"
  | OtherKey

record public_key =
  key_data :: key_data
  algorithm :: string

datatype keypair_data =
    Ed25519Pair bytes
  | EcdsaP256Pair bytes
  | RsaPair "bytes option" "bytes option" "bytes option" "bytes option" "bytes option"
  | OtherPair

record private_key =
  pair_data :: keypair_data
  pair_public :: public_key
  encrypted :: bool

record oidc_identity =
  oid_client_id :: string
  oid_issuer_url :: string
  oid_email :: string

datatype authorized_identity = PublicKeyId public_key | Oidc oidc_identity

datatype jwt_algorithm = EdDsa | Es256 | Rs256

fun jwt_algorithm_as_str :: "jwt_algorithm \<Rightarrow> string" where
  "jwt_algorithm_as_str EdDsa = ''EdDSA''"
| "jwt_algorithm_as_str Es256 = ''ES256''"
| "jwt_algorithm_as_str Rs256 = ''RS256''"

record oidc_jwt_header =
  oh_alg :: string
  oh_kid :: "string option"

datatype oidc_audience = One string | Many "string list"

fun audience_contains :: "oidc_audience \<Rightarrow> string \<Rightarrow> bool" where
  "audience_contains (One v) expected = (v = expected)"
| "audience_contains (Many vs) expected = list_ex (\<lambda>v. v = expected) vs"

record oidc_claims =
  oc_iss :: string
  oc_aud :: oidc_audience
  oc_exp :: u64
  oc_nonce :: "string option"
  oc_email :: "string option"
  oc_email_verified :: bool

record oidc_discovery_document =
  od_issuer :: string
  od_jwks_uri :: string

record oidc_jwk =
  jwk_kty :: string
  jwk_kid :: "string option"
  jwk_alg :: "string option"
  jwk_n :: "string option"
  jwk_e :: "string option"
  jwk_crv :: "string option"
  jwk_x :: "string option"
  jwk_y :: "string option"

text \<open>
  The operations of the crates. \<open>'o\<close> are their opaque values: numbers, keys and signatures. A GET is
  the request, the check of the status and the parsing of the body.
\<close>

record 'o crates =
  b64url_encode :: "bytes \<Rightarrow> string"
  b64url_decode :: "string \<Rightarrow> string + bytes"
  b64_encode :: "bytes \<Rightarrow> string"
  header_to_vec :: "jwt_header \<Rightarrow> string + bytes"
  claims_to_vec :: "jwt_claims \<Rightarrow> string + bytes"
  header_from_slice :: "bytes \<Rightarrow> string + jwt_header"
  claims_from_slice :: "bytes \<Rightarrow> string + jwt_claims"
  oidc_header_from_slice :: "bytes \<Rightarrow> string + oidc_jwt_header"
  oidc_claims_from_slice :: "bytes \<Rightarrow> string + oidc_claims"
  parse_key_entry :: "string \<Rightarrow> string + public_key"
  read_openssh_file :: "string \<Rightarrow> string + private_key"
  ssh_try_sign :: "private_key \<Rightarrow> bytes \<Rightarrow> unit + bytes"
  ssh_signature_new :: "bytes \<Rightarrow> string + 'o"
  ssh_verify :: "public_key \<Rightarrow> bytes \<Rightarrow> 'o \<Rightarrow> unit + unit"
  p256_signing_key :: "bytes \<Rightarrow> unit + 'o"
  p256_try_sign :: "'o \<Rightarrow> bytes \<Rightarrow> unit + bytes"
  p256_verifying_key :: "bytes \<Rightarrow> unit + 'o"
  p256_signature :: "bytes \<Rightarrow> unit + 'o"
  p256_verify :: "'o \<Rightarrow> bytes \<Rightarrow> 'o \<Rightarrow> unit + unit"
  biguint_from_bytes_be :: "bytes \<Rightarrow> 'o"
  rsa_from_components :: "'o \<Rightarrow> 'o \<Rightarrow> 'o \<Rightarrow> 'o list \<Rightarrow> unit + 'o"
  rsa_validate :: "'o \<Rightarrow> unit + unit"
  rsa_try_sign :: "'o \<Rightarrow> bytes \<Rightarrow> unit + bytes"
  rsa_public_new :: "'o \<Rightarrow> 'o \<Rightarrow> unit + 'o"
  rsa_signature :: "bytes \<Rightarrow> unit + 'o"
  rsa_verify :: "'o \<Rightarrow> bytes \<Rightarrow> 'o \<Rightarrow> unit + unit"
  get_discovery :: "string \<Rightarrow> string + oidc_discovery_document"
  get_jwks :: "string \<Rightarrow> string + oidc_jwk list"

section \<open>Keys and files\<close>

definition bearer_authorization_value :: "string \<Rightarrow> string" where
  "bearer_authorization_value token = ''Bearer '' @ token"

definition load_private_key :: "'o crates \<Rightarrow> string \<Rightarrow> auth_error + private_key" where
  "load_private_key env path =
     and_then (map_err Auth_SshKey (read_openssh_file env path)) (\<lambda>k.
     if encrypted k then Err (InvalidToken ''encrypted private keys are not supported yet'') else Ok k)"

definition parse_oidc_identity :: "string \<Rightarrow> oidc_identity option" where
  "parse_oidc_identity line = (case split_whitespace line of
       [kind, cid, issuer_url, email] \<Rightarrow>
         if kind = ''oidc'' then
           Some \<lparr>oid_client_id = cid, oid_issuer_url = issuer_url, oid_email = email\<rparr>
         else None
     | _ \<Rightarrow> None)"

definition parse_authorized_line :: "'o crates \<Rightarrow> string \<Rightarrow> authorized_identity option" where
  "parse_authorized_line env line = (let trimmed = str_trim line in
     if trimmed = [] \<or> hd trimmed = CHR ''#'' then None
     else case parse_oidc_identity trimmed of
         Some i \<Rightarrow> Some (Oidc i)
       | None \<Rightarrow> (case parse_key_entry env trimmed of Ok k \<Rightarrow> Some (PublicKeyId k) | Err _ \<Rightarrow> None))"

definition parse_authorized_identities :: "'o crates \<Rightarrow> string \<Rightarrow> authorized_identity list" where
  "parse_authorized_identities env contents = List.map_filter (parse_authorized_line env) (str_lines contents)"

fun identity_public_key :: "authorized_identity \<Rightarrow> public_key option" where
  "identity_public_key (PublicKeyId k) = Some k"
| "identity_public_key (Oidc _) = None"

definition parse_authorized_public_keys :: "'o crates \<Rightarrow> string \<Rightarrow> public_key list" where
  "parse_authorized_public_keys env contents =
     List.map_filter identity_public_key (parse_authorized_identities env contents)"

text \<open>The file system maps paths to the result of \<^verbatim>\<open>read_to_string\<close>.\<close>

fun load_authorized_identities_from_paths ::
    "'o crates \<Rightarrow> (string \<Rightarrow> io_error + string) \<Rightarrow> string list \<Rightarrow> auth_error + authorized_identity list" where
  "load_authorized_identities_from_paths env fs [] = Ok []"
| "load_authorized_identities_from_paths env fs (path # paths) = (case fs path of
       Ok contents \<Rightarrow> and_then (load_authorized_identities_from_paths env fs paths)
         (\<lambda>ids. Ok (parse_authorized_identities env contents @ ids))
     | Err e \<Rightarrow> if io_kind e = NotFound then load_authorized_identities_from_paths env fs paths
         else Err (Auth_Io e))"

definition load_authorized_public_keys_from_paths ::
    "'o crates \<Rightarrow> (string \<Rightarrow> io_error + string) \<Rightarrow> string list \<Rightarrow> auth_error + public_key list" where
  "load_authorized_public_keys_from_paths env fs paths =
     and_then (load_authorized_identities_from_paths env fs paths)
       (\<lambda>ids. Ok (List.map_filter identity_public_key ids))"

section \<open>Signatures\<close>

definition jwt_algorithm_for_public_key :: "public_key \<Rightarrow> auth_error + jwt_algorithm" where
  "jwt_algorithm_for_public_key k = (case key_data k of
       Ed25519 _ \<Rightarrow> Ok EdDsa
     | Ecdsa NistP256 _ \<Rightarrow> Ok Es256
     | Rsa _ _ \<Rightarrow> Ok Rs256
     | _ \<Rightarrow> Err (UnsupportedAlgorithm (algorithm k)))"

definition rsa_biguint :: "'o crates \<Rightarrow> bytes option \<Rightarrow> auth_error + 'o" where
  "rsa_biguint env bytes = and_then (ok_or (InvalidKeyMaterial ''invalid RSA key component'') bytes)
     (\<lambda>bytes. Ok (biguint_from_bytes_be env bytes))"

definition rsa_private_key ::
    "'o crates \<Rightarrow> bytes option \<Rightarrow> bytes option \<Rightarrow> bytes option \<Rightarrow> bytes option \<Rightarrow> bytes option \<Rightarrow> auth_error + 'o" where
  "rsa_private_key env n e d p q =
     and_then (rsa_biguint env n) (\<lambda>n. and_then (rsa_biguint env e) (\<lambda>e. and_then (rsa_biguint env d) (\<lambda>d.
     and_then (rsa_biguint env p) (\<lambda>p. and_then (rsa_biguint env q) (\<lambda>q.
     and_then (map_err (\<lambda>_. InvalidKeyMaterial ''invalid RSA private key'') (rsa_from_components env n e d [p, q])) (\<lambda>k.
     and_then (map_err (\<lambda>_. InvalidKeyMaterial ''invalid RSA private key'') (rsa_validate env k)) (\<lambda>_.
     Ok k)))))))"

definition rsa_public_key :: "'o crates \<Rightarrow> bytes option \<Rightarrow> bytes option \<Rightarrow> auth_error + 'o" where
  "rsa_public_key env n e =
     and_then (rsa_biguint env n) (\<lambda>n. and_then (rsa_biguint env e) (\<lambda>e.
     map_err (\<lambda>_. InvalidKeyMaterial ''invalid RSA public key'') (rsa_public_new env n e)))"

definition sign_jwt_signature ::
    "'o crates \<Rightarrow> private_key \<Rightarrow> jwt_algorithm \<Rightarrow> bytes \<Rightarrow> auth_error + bytes" where
  "sign_jwt_signature env k a signing_input = (case a of
       EdDsa \<Rightarrow> map_err (\<lambda>_. InvalidToken ''could not sign bearer token'') (ssh_try_sign env k signing_input)
     | Es256 \<Rightarrow> (case pair_data k of
         EcdsaP256Pair private \<Rightarrow>
           and_then (map_err (\<lambda>_. InvalidKeyMaterial ''invalid P-256 private key'') (p256_signing_key env private))
             (\<lambda>signing_key. map_err (\<lambda>_. InvalidToken ''could not sign bearer token'')
               (p256_try_sign env signing_key signing_input))
       | _ \<Rightarrow> Err (UnsupportedAlgorithm (algorithm (pair_public k))))
     | Rs256 \<Rightarrow> (case pair_data k of
         RsaPair n e d p q \<Rightarrow>
           and_then (rsa_private_key env n e d p q)
             (\<lambda>signing_key. map_err (\<lambda>_. InvalidToken ''could not sign bearer token'')
               (rsa_try_sign env signing_key signing_input))
       | _ \<Rightarrow> Err (UnsupportedAlgorithm (algorithm (pair_public k)))))"

definition verification_failed :: auth_error where
  "verification_failed = InvalidToken ''JWT signature verification failed''"

definition verify_jwt_signature ::
    "'o crates \<Rightarrow> public_key \<Rightarrow> jwt_algorithm \<Rightarrow> bytes \<Rightarrow> bytes \<Rightarrow> auth_error + unit" where
  "verify_jwt_signature env k a signing_input signature_bytes = (case a of
       EdDsa \<Rightarrow>
         and_then (map_err Auth_SshKey (ssh_signature_new env signature_bytes)) (\<lambda>s.
         map_err (\<lambda>_. verification_failed) (ssh_verify env k signing_input s))
     | Es256 \<Rightarrow>
         and_then (case key_data k of
             Ecdsa NistP256 point \<Rightarrow>
               map_err (\<lambda>_. InvalidKeyMaterial ''invalid P-256 public key'') (p256_verifying_key env point)
           | _ \<Rightarrow> Err (UnsupportedAlgorithm (algorithm k))) (\<lambda>verifying_key.
         and_then (map_err (\<lambda>_. InvalidToken ''malformed ES256 signature'') (p256_signature env signature_bytes)) (\<lambda>s.
         map_err (\<lambda>_. verification_failed) (p256_verify env verifying_key signing_input s)))
     | Rs256 \<Rightarrow>
         and_then (case key_data k of
             Rsa n e \<Rightarrow> rsa_public_key env n e
           | _ \<Rightarrow> Err (UnsupportedAlgorithm (algorithm k))) (\<lambda>verifying_key.
         and_then (map_err (\<lambda>_. InvalidToken ''malformed RS256 signature'') (rsa_signature env signature_bytes)) (\<lambda>s.
         map_err (\<lambda>_. verification_failed) (rsa_verify env verifying_key signing_input s))))"

section \<open>Bearer tokens\<close>

definition unix_timestamp_now :: "string + u64 \<Rightarrow> auth_error + u64" where
  "unix_timestamp_now clock = map_err Auth_Time clock"

definition conversation_id_base64 :: "'o crates \<Rightarrow> bytes \<Rightarrow> string" where
  "conversation_id_base64 env conversation_id = b64_encode env conversation_id"

text \<open>\<open>of_auth\<close> is the conversion \<^verbatim>\<open>E::from\<close> into the signer's error type.\<close>

definition build_bearer_token_with_signer ::
    "'o crates \<Rightarrow> (auth_error \<Rightarrow> 'e) \<Rightarrow> string + u64 \<Rightarrow> public_key \<Rightarrow> string \<Rightarrow> bytes
     \<Rightarrow> (jwt_algorithm \<Rightarrow> bytes \<Rightarrow> 'e + bytes) \<Rightarrow> 'e + string" where
  "build_bearer_token_with_signer env of_auth clock k username conversation_id signer =
     and_then (map_err of_auth (jwt_algorithm_for_public_key k)) (\<lambda>jwt_algorithm.
     and_then (map_err of_auth (unix_timestamp_now clock)) (\<lambda>now.
     let hdr = \<lparr>jh_alg = jwt_algorithm_as_str jwt_algorithm, jh_typ = ''JWT''\<rparr>;
         claims = \<lparr>cl_iss = username, cl_sub = TOKEN_SUBJECT, cl_aud = TOKEN_AUDIENCE, cl_iat = now,
           cl_exp = now + TOKEN_LIFETIME_SECS, cl_client_id = ''ssh3-'' @ username,
           cl_jti = conversation_id_base64 env conversation_id\<rparr>
     in and_then (map_err (\<lambda>e. of_auth (Auth_Json e)) (header_to_vec env hdr)) (\<lambda>h.
        and_then (map_err (\<lambda>e. of_auth (Auth_Json e)) (claims_to_vec env claims)) (\<lambda>c.
        let signing_input = b64url_encode env h @ ''.'' @ b64url_encode env c
        in and_then (signer jwt_algorithm (bstr signing_input)) (\<lambda>s.
           Ok (signing_input @ ''.'' @ b64url_encode env s))))))"

definition build_bearer_token ::
    "'o crates \<Rightarrow> string + u64 \<Rightarrow> private_key \<Rightarrow> string \<Rightarrow> bytes \<Rightarrow> auth_error + string" where
  "build_bearer_token env clock k username conversation_id =
     build_bearer_token_with_signer env id clock (pair_public k) username conversation_id (sign_jwt_signature env k)"

definition verify_bearer_token ::
    "'o crates \<Rightarrow> string + u64 \<Rightarrow> public_key \<Rightarrow> string \<Rightarrow> string \<Rightarrow> bytes \<Rightarrow> auth_error + unit" where
  "verify_bearer_token env clock k token expected_username conversation_id =
     and_then (jwt_algorithm_for_public_key k) (\<lambda>jwt_algorithm.
     and_then (ok_or (InvalidToken ''malformed bearer token'') (rsplit_once (CHR ''.'') token)) (\<lambda>(signing_input, signature_part).
     and_then (ok_or (InvalidToken ''malformed bearer token'') (split_once (CHR ''.'') signing_input)) (\<lambda>(header_part, claims_part).
     and_then (map_err Auth_Base64 (b64url_decode env header_part)) (\<lambda>h.
     and_then (map_err Auth_Json (header_from_slice env h)) (\<lambda>hdr.
     and_then (ensure (jh_alg hdr = jwt_algorithm_as_str jwt_algorithm) (InvalidToken ''unexpected JWT alg'')) (\<lambda>_.
     and_then (map_err Auth_Base64 (b64url_decode env claims_part)) (\<lambda>c.
     and_then (map_err Auth_Json (claims_from_slice env c)) (\<lambda>claims.
     and_then (unix_timestamp_now clock) (\<lambda>now.
     and_then (ensure (cl_iss claims = expected_username) (InvalidToken ''unexpected JWT issuer'')) (\<lambda>_.
     and_then (ensure (cl_sub claims = TOKEN_SUBJECT) (InvalidToken ''unexpected JWT subject'')) (\<lambda>_.
     and_then (ensure (cl_aud claims = TOKEN_AUDIENCE) (InvalidToken ''unexpected JWT audience'')) (\<lambda>_.
     and_then (ensure (cl_client_id claims = ''ssh3-'' @ expected_username) (InvalidToken ''unexpected JWT client_id'')) (\<lambda>_.
     and_then (ensure (cl_jti claims = conversation_id_base64 env conversation_id) (InvalidToken ''unexpected JWT jti'')) (\<lambda>_.
     and_then (ensure (cl_iat claims \<le> now) (InvalidToken ''JWT issued-at is in the future'')) (\<lambda>_.
     and_then (ensure (now < cl_exp claims) (InvalidToken ''JWT is expired'')) (\<lambda>_.
     and_then (map_err Auth_Base64 (b64url_decode env signature_part)) (\<lambda>s.
     verify_jwt_signature env k jwt_algorithm (bstr signing_input) s)))))))))))))))))"

section \<open>OpenID tokens\<close>

definition oidc_jwk_supports_algorithm :: "oidc_jwk \<Rightarrow> string \<Rightarrow> bool" where
  "oidc_jwk_supports_algorithm jwk a =
     (if a = ''RS256'' then jwk_kty jwk = ''RSA'' \<and> jwk_n jwk \<noteq> None \<and> jwk_e jwk \<noteq> None
      else if a = ''ES256'' then jwk_kty jwk = ''EC'' \<and> jwk_crv jwk = Some ''P-256''
        \<and> jwk_x jwk \<noteq> None \<and> jwk_y jwk \<noteq> None
      else False)"

definition select_oidc_jwk :: "oidc_jwk list \<Rightarrow> oidc_jwt_header \<Rightarrow> auth_error + oidc_jwk" where
  "select_oidc_jwk jwks hdr = ok_or (InvalidToken ''no matching OIDC JWK found'')
     (find (\<lambda>jwk.
        (case oh_kid hdr of None \<Rightarrow> True | Some expected \<Rightarrow> jwk_kid jwk = Some expected)
        \<and> (case jwk_alg jwk of None \<Rightarrow> True | Some expected \<Rightarrow> expected = oh_alg hdr)
        \<and> oidc_jwk_supports_algorithm jwk (oh_alg hdr)) jwks)"

text \<open>A coordinate or component of a key: present, and decoded.\<close>

definition decode_component :: "'o crates \<Rightarrow> string \<Rightarrow> string option \<Rightarrow> auth_error + bytes" where
  "decode_component env missing v = and_then (ok_or (InvalidKeyMaterial missing) v)
     (\<lambda>v. map_err Auth_Base64 (b64url_decode env v))"

definition verify_oidc_jwk_signature ::
    "'o crates \<Rightarrow> oidc_jwk \<Rightarrow> string \<Rightarrow> bytes \<Rightarrow> bytes \<Rightarrow> auth_error + unit" where
  "verify_oidc_jwk_signature env jwk a signing_input signature_bytes =
     (if a = ''RS256'' then
        and_then (decode_component env ''missing RSA modulus'' (jwk_n jwk)) (\<lambda>n.
        and_then (rsa_biguint env (Some n)) (\<lambda>n.
        and_then (decode_component env ''missing RSA exponent'' (jwk_e jwk)) (\<lambda>e.
        and_then (rsa_biguint env (Some e)) (\<lambda>e.
        and_then (map_err (\<lambda>_. InvalidKeyMaterial ''invalid RSA public key'') (rsa_public_new env n e)) (\<lambda>verifying_key.
        and_then (map_err (\<lambda>_. InvalidToken ''malformed RS256 signature'') (rsa_signature env signature_bytes)) (\<lambda>s.
        map_err (\<lambda>_. verification_failed) (rsa_verify env verifying_key signing_input s)))))))
      else if a = ''ES256'' then
        and_then (decode_component env ''missing EC x coordinate'' (jwk_x jwk)) (\<lambda>x.
        and_then (decode_component env ''missing EC y coordinate'' (jwk_y jwk)) (\<lambda>y.
        and_then (ensure (length x = 32 \<and> length y = 32)
          (InvalidKeyMaterial ''invalid P-256 public key coordinates'')) (\<lambda>_.
        and_then (map_err (\<lambda>_. InvalidKeyMaterial ''invalid P-256 public key'')
          (p256_verifying_key env (4 # x @ y))) (\<lambda>verifying_key.
        and_then (map_err (\<lambda>_. InvalidToken ''malformed ES256 signature'') (p256_signature env signature_bytes)) (\<lambda>s.
        map_err (\<lambda>_. verification_failed) (p256_verify env verifying_key signing_input s))))))
      else Err (UnsupportedAlgorithm a))"

definition verify_oidc_identity_token ::
    "'o crates \<Rightarrow> string + u64 \<Rightarrow> oidc_identity \<Rightarrow> string \<Rightarrow> string option \<Rightarrow> auth_error + unit" where
  "verify_oidc_identity_token env clock identity token expected_nonce =
     and_then (ok_or (InvalidToken ''malformed bearer token'') (rsplit_once (CHR ''.'') token)) (\<lambda>(signing_input, signature_part).
     and_then (ok_or (InvalidToken ''malformed bearer token'') (split_once (CHR ''.'') signing_input)) (\<lambda>(header_part, claims_part).
     and_then (map_err Auth_Base64 (b64url_decode env header_part)) (\<lambda>h.
     and_then (map_err Auth_Json (oidc_header_from_slice env h)) (\<lambda>hdr.
     and_then (map_err Auth_Base64 (b64url_decode env claims_part)) (\<lambda>c.
     and_then (map_err Auth_Json (oidc_claims_from_slice env c)) (\<lambda>claims.
     and_then (unix_timestamp_now clock) (\<lambda>now.
     and_then (ensure (oc_iss claims = oid_issuer_url identity) (InvalidToken ''unexpected OIDC issuer'')) (\<lambda>_.
     and_then (ensure (audience_contains (oc_aud claims) (oid_client_id identity)) (InvalidToken ''unexpected OIDC audience'')) (\<lambda>_.
     and_then (ensure (now < oc_exp claims) (InvalidToken ''OIDC token is expired'')) (\<lambda>_.
     and_then (ensure (oc_email claims = Some (oid_email identity)) (InvalidToken ''unexpected OIDC email'')) (\<lambda>_.
     and_then (ensure (oc_email_verified claims) (InvalidToken ''OIDC email is not verified'')) (\<lambda>_.
     and_then (ensure (expected_nonce = None \<or> oc_nonce claims = expected_nonce) (InvalidToken ''unexpected OIDC nonce'')) (\<lambda>_.
     and_then (map_err Auth_Reqwest (get_discovery env
       (trim_end_matches (CHR ''/'') (oid_issuer_url identity) @ ''/.well-known/openid-configuration''))) (\<lambda>discovery.
     and_then (ensure (od_issuer discovery = oid_issuer_url identity) (InvalidToken ''unexpected OIDC discovery issuer'')) (\<lambda>_.
     and_then (map_err Auth_Reqwest (get_jwks env (od_jwks_uri discovery))) (\<lambda>jwks.
     and_then (select_oidc_jwk jwks hdr) (\<lambda>jwk.
     and_then (map_err Auth_Base64 (b64url_decode env signature_part)) (\<lambda>s.
     verify_oidc_jwk_signature env jwk (oh_alg hdr) (bstr signing_input) s))))))))))))))))))"

section \<open>What the checks amount to\<close>

lemma token_parts:
  "rsplit_once (CHR ''.'') token = Some (signing_input, sg) \<and> split_once (CHR ''.'') signing_input = Some (h, c)
   \<longleftrightarrow> token = h @ ''.'' @ c @ ''.'' @ sg \<and> signing_input = h @ ''.'' @ c
     \<and> CHR ''.'' \<notin> set h \<and> CHR ''.'' \<notin> set sg"
  by (auto simp: rsplit_once_iff split_once_iff)

text \<open>The signed part of a token is what the signature was computed over.\<close>

definition token_of :: "string \<Rightarrow> string \<Rightarrow> string \<Rightarrow> string" where
  "token_of header_part claims_part signature_part = header_part @ ''.'' @ claims_part @ ''.'' @ signature_part"

definition claims_accepted :: "'o crates \<Rightarrow> u64 \<Rightarrow> string \<Rightarrow> bytes \<Rightarrow> jwt_claims \<Rightarrow> bool" where
  "claims_accepted env now username conversation_id claims \<longleftrightarrow>
     cl_iss claims = username \<and> cl_sub claims = ''ssh3'' \<and> cl_aud claims = ''unused''
     \<and> cl_client_id claims = ''ssh3-'' @ username \<and> cl_jti claims = b64_encode env conversation_id
     \<and> cl_iat claims \<le> now \<and> now < cl_exp claims"

lemma verify_bearer_token_raw:
  "verify_bearer_token env clock k token username conversation_id = Ok () \<longleftrightarrow>
     (\<exists>a signing_input signature_part header_part claims_part hb hdr cb claims now s.
        jwt_algorithm_for_public_key k = Ok a
      \<and> rsplit_once (CHR ''.'') token = Some (signing_input, signature_part)
      \<and> split_once (CHR ''.'') signing_input = Some (header_part, claims_part)
      \<and> b64url_decode env header_part = Ok hb \<and> header_from_slice env hb = Ok hdr
      \<and> jh_alg hdr = jwt_algorithm_as_str a
      \<and> b64url_decode env claims_part = Ok cb \<and> claims_from_slice env cb = Ok claims
      \<and> clock = Ok now \<and> claims_accepted env now username conversation_id claims
      \<and> b64url_decode env signature_part = Ok s
      \<and> verify_jwt_signature env k a (bstr signing_input) s = Ok ())"
  unfolding verify_bearer_token_def unix_timestamp_now_def conversation_id_base64_def claims_accepted_def
    TOKEN_SUBJECT_def TOKEN_AUDIENCE_def
  by (simp only: result_Ok_iffs split_paired_Ex case_prod_conv ex_simps simp_thms conj_assoc)

lemma verify_bearer_token_Ok_iff:
  "verify_bearer_token env clock k token username conversation_id = Ok () \<longleftrightarrow>
     (\<exists>a header_part claims_part signature_part hb hdr cb claims now s.
        token = token_of header_part claims_part signature_part
      \<and> CHR ''.'' \<notin> set header_part \<and> CHR ''.'' \<notin> set signature_part
      \<and> jwt_algorithm_for_public_key k = Ok a
      \<and> b64url_decode env header_part = Ok hb \<and> header_from_slice env hb = Ok hdr
      \<and> jh_alg hdr = jwt_algorithm_as_str a
      \<and> b64url_decode env claims_part = Ok cb \<and> claims_from_slice env cb = Ok claims
      \<and> clock = Ok now \<and> claims_accepted env now username conversation_id claims
      \<and> b64url_decode env signature_part = Ok s
      \<and> verify_jwt_signature env k a (bstr (header_part @ ''.'' @ claims_part)) s = Ok ())" (is "?l = ?r")
proof
  assume ?l
  then obtain a signing_input signature_part header_part claims_part hb hdr cb claims now s where
    "jwt_algorithm_for_public_key k = Ok a"
    and "rsplit_once (CHR ''.'') token = Some (signing_input, signature_part)"
      "split_once (CHR ''.'') signing_input = Some (header_part, claims_part)"
    and rest: "b64url_decode env header_part = Ok hb" "header_from_slice env hb = Ok hdr"
      "jh_alg hdr = jwt_algorithm_as_str a" "b64url_decode env claims_part = Ok cb"
      "claims_from_slice env cb = Ok claims" "clock = Ok now"
      "claims_accepted env now username conversation_id claims" "b64url_decode env signature_part = Ok s"
      "verify_jwt_signature env k a (bstr signing_input) s = Ok ()"
    unfolding verify_bearer_token_raw by (elim exE conjE)
  moreover from this(2,3) have "token = token_of header_part claims_part signature_part"
    "signing_input = header_part @ ''.'' @ claims_part" "CHR ''.'' \<notin> set header_part" "CHR ''.'' \<notin> set signature_part"
    by (simp_all add: rsplit_once_iff split_once_iff token_of_def)
  ultimately show ?r
    by blast
next
  assume ?r
  then obtain a header_part claims_part signature_part hb hdr cb claims now s where
    t: "token = token_of header_part claims_part signature_part"
      "CHR ''.'' \<notin> set header_part" "CHR ''.'' \<notin> set signature_part"
    and rest: "jwt_algorithm_for_public_key k = Ok a" "b64url_decode env header_part = Ok hb"
      "header_from_slice env hb = Ok hdr" "jh_alg hdr = jwt_algorithm_as_str a"
      "b64url_decode env claims_part = Ok cb" "claims_from_slice env cb = Ok claims" "clock = Ok now"
      "claims_accepted env now username conversation_id claims" "b64url_decode env signature_part = Ok s"
      "verify_jwt_signature env k a (bstr (header_part @ ''.'' @ claims_part)) s = Ok ()"
    by (elim exE conjE)
  have "rsplit_once (CHR ''.'') token = Some (header_part @ ''.'' @ claims_part, signature_part)"
    "split_once (CHR ''.'') (header_part @ ''.'' @ claims_part) = Some (header_part, claims_part)"
    using t by (simp_all add: rsplit_once_iff split_once_iff token_of_def)
  with rest show ?l
    unfolding verify_bearer_token_raw by blast
qed

section \<open>Hypotheses on the crates\<close>

text \<open>
  What the crates document: the decoders invert the encoders, URL-safe base64 has no dot in its
  alphabet, and base64 is injective.
\<close>

definition encodings_ok :: "'o crates \<Rightarrow> bool" where
  "encodings_ok env \<longleftrightarrow>
     (\<forall>b. b64url_decode env (b64url_encode env b) = Ok b \<and> CHR ''.'' \<notin> set (b64url_encode env b))
     \<and> inj (b64_encode env)
     \<and> (\<forall>h b. header_to_vec env h = Ok b \<longrightarrow> header_from_slice env b = Ok h)
     \<and> (\<forall>c b. claims_to_vec env c = Ok b \<longrightarrow> claims_from_slice env b = Ok c)"

text \<open>
  A key pair: the public half verifies what the private half signs, with the signature in the form
  the verifier reads.
\<close>

definition keypair_ok :: "'o crates \<Rightarrow> private_key \<Rightarrow> bool" where
  "keypair_ok env k \<longleftrightarrow>
     (\<forall>m s. ssh_try_sign env k m = Ok s \<longrightarrow>
        (\<exists>sg. ssh_signature_new env s = Ok sg \<and> ssh_verify env (pair_public k) m sg = Ok ()))
     \<and> (case pair_data k of
         EcdsaP256Pair private \<Rightarrow> (\<exists>point vk. key_data (pair_public k) = Ecdsa NistP256 point
           \<and> p256_verifying_key env point = Ok vk
           \<and> (\<forall>sk m s. p256_signing_key env private = Ok sk \<longrightarrow> p256_try_sign env sk m = Ok s \<longrightarrow>
               (\<exists>sg. p256_signature env s = Ok sg \<and> p256_verify env vk m sg = Ok ())))
       | RsaPair n e d p q \<Rightarrow> key_data (pair_public k) = Rsa n e
           \<and> (\<forall>sk m s. rsa_private_key env n e d p q = Ok sk \<longrightarrow> rsa_try_sign env sk m = Ok s \<longrightarrow>
               (\<exists>vk sg. rsa_public_key env n e = Ok vk \<and> rsa_signature env s = Ok sg
                  \<and> rsa_verify env vk m sg = Ok ()))
       | _ \<Rightarrow> True)"

lemma signature_verifies:
  assumes "keypair_ok env k" and "sign_jwt_signature env k a m = Ok s"
  shows "verify_jwt_signature env (pair_public k) a m s = Ok ()"
proof (cases a)
  case EdDsa
  with assms show ?thesis
    by (auto simp: keypair_ok_def sign_jwt_signature_def verify_jwt_signature_def result_Ok_iffs)
next
  case Es256
  with assms(2) obtain prv where "pair_data k = EcdsaP256Pair prv"
    by (auto simp: sign_jwt_signature_def split: keypair_data.splits)
  with Es256 assms show ?thesis
    by (fastforce simp: keypair_ok_def sign_jwt_signature_def verify_jwt_signature_def result_Ok_iffs)
next
  case Rs256
  with assms(2) obtain n e d p q where "pair_data k = RsaPair n e d p q"
    by (auto simp: sign_jwt_signature_def split: keypair_data.splits)
  with Rs256 assms show ?thesis
    by (fastforce simp: keypair_ok_def sign_jwt_signature_def verify_jwt_signature_def result_Ok_iffs)
qed

lemma build_bearer_tokenE:
  assumes "build_bearer_token env (Ok now) k username conversation_id = Ok token"
  obtains a h c s where "jwt_algorithm_for_public_key (pair_public k) = Ok a"
    "header_to_vec env \<lparr>jh_alg = jwt_algorithm_as_str a, jh_typ = ''JWT''\<rparr> = Ok h"
    "claims_to_vec env \<lparr>cl_iss = username, cl_sub = TOKEN_SUBJECT, cl_aud = TOKEN_AUDIENCE, cl_iat = now,
       cl_exp = now + TOKEN_LIFETIME_SECS, cl_client_id = ''ssh3-'' @ username,
       cl_jti = b64_encode env conversation_id\<rparr> = Ok c"
    "sign_jwt_signature env k a (bstr (b64url_encode env h @ ''.'' @ b64url_encode env c)) = Ok s"
    "token = token_of (b64url_encode env h) (b64url_encode env c) (b64url_encode env s)"
  using assms that
  unfolding build_bearer_token_def build_bearer_token_with_signer_def unix_timestamp_now_def
    conversation_id_base64_def Let_def token_of_def
  by (simp only: result_Ok_iffs) (elim exE conjE, simp)

section \<open>Checking a token that was built\<close>

lemma verify_built_token:
  assumes enc: "encodings_ok env" and key: "keypair_ok env k"
    and build: "build_bearer_token env (Ok now) k username conversation_id = Ok token"
    and clock: "unat now + 60 < 2 ^ 64"
  shows "verify_bearer_token env (Ok t) (pair_public k) token user cid =
    (if user \<noteq> username then Err (InvalidToken ''unexpected JWT issuer'')
     else if cid \<noteq> conversation_id then Err (InvalidToken ''unexpected JWT jti'')
     else if t < now then Err (InvalidToken ''JWT issued-at is in the future'')
     else if unat now + 60 \<le> unat t then Err (InvalidToken ''JWT is expired'')
     else Ok ())"
proof -
  from build obtain a h c s where alg: "jwt_algorithm_for_public_key (pair_public k) = Ok a"
    and h: "header_to_vec env \<lparr>jh_alg = jwt_algorithm_as_str a, jh_typ = ''JWT''\<rparr> = Ok h"
    and c: "claims_to_vec env \<lparr>cl_iss = username, cl_sub = TOKEN_SUBJECT, cl_aud = TOKEN_AUDIENCE, cl_iat = now,
       cl_exp = now + TOKEN_LIFETIME_SECS, cl_client_id = ''ssh3-'' @ username,
       cl_jti = b64_encode env conversation_id\<rparr> = Ok c"
    and s: "sign_jwt_signature env k a (bstr (b64url_encode env h @ ''.'' @ b64url_encode env c)) = Ok s"
    and token: "token = token_of (b64url_encode env h) (b64url_encode env c) (b64url_encode env s)"
    by (rule build_bearer_tokenE)
  have b64: "b64url_decode env (b64url_encode env b) = Ok b" "CHR ''.'' \<notin> set (b64url_encode env b)" for b
    using enc by (simp_all add: encodings_ok_def)
  have split: "rsplit_once (CHR ''.'') token
      = Some (b64url_encode env h @ CHR ''.'' # b64url_encode env c, b64url_encode env s)"
    "split_once (CHR ''.'') (b64url_encode env h @ CHR ''.'' # b64url_encode env c)
      = Some (b64url_encode env h, b64url_encode env c)"
    by (simp_all add: token token_of_def rsplit_once_iff split_once_iff b64)
  have json: "header_from_slice env h = Ok \<lparr>jh_alg = jwt_algorithm_as_str a, jh_typ = ''JWT''\<rparr>"
    "claims_from_slice env c = Ok \<lparr>cl_iss = username, cl_sub = TOKEN_SUBJECT, cl_aud = TOKEN_AUDIENCE, cl_iat = now,
       cl_exp = now + TOKEN_LIFETIME_SECS, cl_client_id = ''ssh3-'' @ username,
       cl_jti = b64_encode env conversation_id\<rparr>"
    using enc h c by (simp_all add: encodings_ok_def)
  have jti: "b64_encode env conversation_id = b64_encode env cid \<longleftrightarrow> cid = conversation_id"
    using enc by (auto simp: encodings_ok_def dest: injD)
  have exp: "t < now + TOKEN_LIFETIME_SECS \<longleftrightarrow> \<not> unat now + 60 \<le> unat t"
    using clock by (simp add: word_less_nat_alt TOKEN_LIFETIME_SECS_def unat_add_lem [THEN iffD1] not_le)
  show ?thesis
    unfolding verify_bearer_token_def
    by (simp add: alg split b64 json unix_timestamp_now_def conversation_id_base64_def jti exp ensure_def
        signature_verifies [OF key s, simplified] not_less) (auto dest: leD)
qed

section \<open>Properties\<close>


text \<open>Concrete crates: hexadecimal in place of base64, one header, one set of claims, one key.\<close>

definition nibble_char :: "nat \<Rightarrow> char" where
  "nibble_char n = char_of (65 + n)"

definition char_nibble :: "char \<Rightarrow> nat" where
  "char_nibble c = of_char c - 65"

definition hex_encode :: "bytes \<Rightarrow> string" where
  "hex_encode bs = concat (map (\<lambda>b. [nibble_char (unat b div 16), nibble_char (unat b mod 16)]) bs)"

fun hex_decode :: "string \<Rightarrow> string + bytes" where
  "hex_decode [] = Ok []"
| "hex_decode [c] = Err ''odd length''"
| "hex_decode (c # d # cs) =
     and_then (hex_decode cs) (\<lambda>bs. Ok (of_nat (16 * char_nibble c + char_nibble d) # bs))"

lemma char_nibble_nibble_char [simp]: "n < 16 \<Longrightarrow> char_nibble (nibble_char n) = n"
  by (simp add: char_nibble_def nibble_char_def of_char_of)

lemma nibble_char_no_dot: "n < 16 \<Longrightarrow> nibble_char n \<noteq> CHR ''.''"
proof
  assume "n < 16" "nibble_char n = CHR ''.''"
  then have "(of_char (nibble_char n) :: nat) = 46" by simp
  with \<open>n < 16\<close> show False by (simp add: nibble_char_def of_char_of)
qed

lemma hex_roundtrip [simp]: "hex_decode (hex_encode bs) = Ok bs"
proof (induction bs)
  case (Cons b bs)
  have "unat b div 16 < 16"
    using unat_u8_lt [of b] by simp
  with Cons show ?case
    by (simp add: hex_encode_def)
qed (simp add: hex_encode_def)

lemma hex_no_dot: "CHR ''.'' \<notin> set (hex_encode bs)"
proof -
  have "CHR ''.'' \<noteq> nibble_char (unat b div 16)" "CHR ''.'' \<noteq> nibble_char (unat b mod 16)" for b :: u8
    using unat_u8_lt [of b] by (intro nibble_char_no_dot [symmetric]; simp)+
  then show ?thesis
    by (simp add: hex_encode_def)
qed

lemma inj_hex_encode: "inj hex_encode"
  by (rule injI) (metis hex_roundtrip sum.inject(2))

definition demo_header :: jwt_header where
  "demo_header = \<lparr>jh_alg = ''EdDSA'', jh_typ = ''JWT''\<rparr>"

definition demo_claims :: jwt_claims where
  "demo_claims = \<lparr>cl_iss = ''alice'', cl_sub = ''ssh3'', cl_aud = ''unused'', cl_iat = 100, cl_exp = 160,
     cl_client_id = ''ssh3-alice'', cl_jti = hex_encode [7]\<rparr>"

definition demo_public :: public_key where
  "demo_public = \<lparr>key_data = Ed25519 [], algorithm = ''ssh-ed25519''\<rparr>"

definition demo_key :: private_key where
  "demo_key = \<lparr>pair_data = Ed25519Pair [], pair_public = demo_public, encrypted = False\<rparr>"

definition demo_crates :: "bytes crates" where
  "demo_crates =
     \<lparr>b64url_encode = hex_encode, b64url_decode = hex_decode, b64_encode = hex_encode,
      header_to_vec = (\<lambda>h. if h = demo_header then Ok [1] else Err ''''),
      claims_to_vec = (\<lambda>c. if c = demo_claims then Ok [2] else Err ''''),
      header_from_slice = (\<lambda>b. if b = [1] then Ok demo_header else Err ''''),
      claims_from_slice = (\<lambda>b. if b = [2] then Ok demo_claims else Err ''''),
      oidc_header_from_slice = (\<lambda>b. Ok \<lparr>oh_alg = ''ES256'', oh_kid = Some ''k1''\<rparr>),
      oidc_claims_from_slice = (\<lambda>b. Ok \<lparr>oc_iss = ''https://issuer/'', oc_aud = Many [''other'', ''client''],
        oc_exp = 200, oc_nonce = Some (hex_encode [7]), oc_email = Some ''a@b.c'', oc_email_verified = True\<rparr>),
      parse_key_entry = (\<lambda>l. if l = ''ssh-ed25519 AAAA'' then Ok demo_public else Err ''''),
      read_openssh_file = (\<lambda>_. Ok demo_key),
      ssh_try_sign = (\<lambda>_ m. Ok m), ssh_signature_new = Inr,
      ssh_verify = (\<lambda>k m s. if k = demo_public \<and> s = m then Ok () else Err ()),
      p256_signing_key = Inr, p256_try_sign = (\<lambda>_ m. Ok m), p256_verifying_key = Inr, p256_signature = Inr,
      p256_verify = (\<lambda>_ m s. if s = m then Ok () else Err ()),
      biguint_from_bytes_be = id, rsa_from_components = (\<lambda>n _ _ _. Ok n), rsa_validate = (\<lambda>_. Ok ()),
      rsa_try_sign = (\<lambda>_ m. Ok m), rsa_public_new = (\<lambda>n _. Ok n), rsa_signature = Inr,
      rsa_verify = (\<lambda>_ m s. if s = m then Ok () else Err ()),
      get_discovery = (\<lambda>u. if u = ''https://issuer/.well-known/openid-configuration''
        then Ok \<lparr>od_issuer = ''https://issuer/'', od_jwks_uri = ''https://issuer/keys''\<rparr> else Err ''''),
      get_jwks = (\<lambda>_. Ok [\<lparr>jwk_kty = ''EC'', jwk_kid = Some ''k1'', jwk_alg = None, jwk_n = None, jwk_e = None,
        jwk_crv = Some ''P-256'', jwk_x = Some (hex_encode (replicate 32 1)),
        jwk_y = Some (hex_encode (replicate 32 2))\<rparr>])\<rparr>"

lemma demo_crates_ok: "encodings_ok demo_crates" "keypair_ok demo_crates demo_key"
  by (auto simp: encodings_ok_def keypair_ok_def demo_crates_def hex_no_dot inj_hex_encode demo_key_def demo_header_def
      demo_claims_def split: if_splits)

lemma demo_token:
  "build_bearer_token demo_crates (Ok 100) demo_key ''alice'' [7]
     = Ok (token_of (hex_encode [1]) (hex_encode [2]) (hex_encode (bstr (hex_encode [1] @ ''.'' @ hex_encode [2]))))"
  by (simp add: build_bearer_token_def build_bearer_token_with_signer_def jwt_algorithm_for_public_key_def
      unix_timestamp_now_def demo_crates_def demo_key_def demo_public_def demo_header_def demo_claims_def
      conversation_id_base64_def TOKEN_SUBJECT_def TOKEN_AUDIENCE_def TOKEN_LIFETIME_SECS_def
      sign_jwt_signature_def token_of_def Let_def)


lemma verify_oidc_raw:
  "verify_oidc_identity_token env clock identity token nonce = Ok () \<longleftrightarrow>
     (\<exists>signing_input signature_part header_part claims_part hb hdr cb claims now discovery jwks jwk s.
        rsplit_once (CHR ''.'') token = Some (signing_input, signature_part)
      \<and> split_once (CHR ''.'') signing_input = Some (header_part, claims_part)
      \<and> b64url_decode env header_part = Ok hb \<and> oidc_header_from_slice env hb = Ok hdr
      \<and> b64url_decode env claims_part = Ok cb \<and> oidc_claims_from_slice env cb = Ok claims
      \<and> clock = Ok now \<and> oc_iss claims = oid_issuer_url identity
      \<and> audience_contains (oc_aud claims) (oid_client_id identity) \<and> now < oc_exp claims
      \<and> oc_email claims = Some (oid_email identity) \<and> oc_email_verified claims
      \<and> (nonce = None \<or> oc_nonce claims = nonce)
      \<and> get_discovery env (trim_end_matches (CHR ''/'') (oid_issuer_url identity)
          @ ''/.well-known/openid-configuration'') = Ok discovery
      \<and> od_issuer discovery = oid_issuer_url identity
      \<and> get_jwks env (od_jwks_uri discovery) = Ok jwks \<and> select_oidc_jwk jwks hdr = Ok jwk
      \<and> b64url_decode env signature_part = Ok s
      \<and> verify_oidc_jwk_signature env jwk (oh_alg hdr) (bstr signing_input) s = Ok ())"
  unfolding verify_oidc_identity_token_def unix_timestamp_now_def
  by (simp only: result_Ok_iffs split_paired_Ex case_prod_conv ex_simps simp_thms conj_assoc)

lemma select_oidc_jwk_Ok:
  assumes "select_oidc_jwk jwks hdr = Ok jwk"
  shows "jwk \<in> set jwks" "oh_kid hdr = None \<or> jwk_kid jwk = oh_kid hdr"
    "jwk_alg jwk = None \<or> jwk_alg jwk = Some (oh_alg hdr)" "oidc_jwk_supports_algorithm jwk (oh_alg hdr)"
proof -
  note j = find_SomeD [OF assms [unfolded select_oidc_jwk_def ok_or_Ok_iff]]
  show "jwk \<in> set jwks" "oh_kid hdr = None \<or> jwk_kid jwk = oh_kid hdr"
    "jwk_alg jwk = None \<or> jwk_alg jwk = Some (oh_alg hdr)" "oidc_jwk_supports_algorithm jwk (oh_alg hdr)"
    using j by (cases "oh_kid hdr"; cases "jwk_alg jwk"; simp)+
qed

text \<open>The signature check with a key of the issuer, by the algorithm the key is for.\<close>

definition oidc_signed :: "'o crates \<Rightarrow> oidc_jwk \<Rightarrow> string \<Rightarrow> bytes \<Rightarrow> bytes \<Rightarrow> bool" where
  "oidc_signed env jwk a m s \<longleftrightarrow>
     a = ''RS256'' \<and> jwk_kty jwk = ''RSA''
       \<and> (\<exists>n e nb eb vk sg. jwk_n jwk = Some n \<and> b64url_decode env n = Ok nb
          \<and> jwk_e jwk = Some e \<and> b64url_decode env e = Ok eb
          \<and> rsa_public_new env (biguint_from_bytes_be env nb) (biguint_from_bytes_be env eb) = Ok vk
          \<and> rsa_signature env s = Ok sg \<and> rsa_verify env vk m sg = Ok ())
   \<or> a = ''ES256'' \<and> jwk_kty jwk = ''EC'' \<and> jwk_crv jwk = Some ''P-256''
       \<and> (\<exists>x y xb yb vk sg. jwk_x jwk = Some x \<and> b64url_decode env x = Ok xb
          \<and> jwk_y jwk = Some y \<and> b64url_decode env y = Ok yb \<and> length xb = 32 \<and> length yb = 32
          \<and> p256_verifying_key env (4 # xb @ yb) = Ok vk
          \<and> p256_signature env s = Ok sg \<and> p256_verify env vk m sg = Ok ())"

lemma verify_oidc_jwk_signature_Ok:
  assumes "verify_oidc_jwk_signature env jwk a m s = Ok ()" "oidc_jwk_supports_algorithm jwk a"
  shows "oidc_signed env jwk a m s"
proof (cases "a = ''RS256''")
  case True
  with assms show ?thesis
    by (auto simp: verify_oidc_jwk_signature_def oidc_signed_def oidc_jwk_supports_algorithm_def
        decode_component_def rsa_biguint_def result_Ok_iffs)
next
  case False
  with assms(2) have "a = ''ES256''"
    by (auto simp: oidc_jwk_supports_algorithm_def split: if_splits)
  with assms show ?thesis
    by (auto simp: verify_oidc_jwk_signature_def oidc_signed_def oidc_jwk_supports_algorithm_def
        decode_component_def result_Ok_iffs)
qed

text \<open>
  C17: An accepted OpenID token speaks for the identity it is checked against. Whenever
  \<^verbatim>\<open>verify_oidc_identity_token\<close> succeeds, the token's claims name the identity's issuer, client and
  verified email address and the nonce the caller expects, they have not expired, and the header and
  claims are signed, by RS256 or ES256 and no other algorithm, with a key of that type from the key
  list of that very issuer, the one with the key id of the header when it has one.
\<close>

theorem oidc_token_sound:
  assumes "verify_oidc_identity_token env clock identity token (Some nonce) = Ok ()"
  shows "\<exists>header_part claims_part signature_part hb hdr cb claims now discovery jwks jwk s.
    token = token_of header_part claims_part signature_part
    \<and> b64url_decode env header_part = Ok hb \<and> oidc_header_from_slice env hb = Ok hdr
    \<and> b64url_decode env claims_part = Ok cb \<and> oidc_claims_from_slice env cb = Ok claims
    \<and> clock = Ok now \<and> now < oc_exp claims \<and> oc_nonce claims = Some nonce
    \<and> oc_iss claims = oid_issuer_url identity \<and> audience_contains (oc_aud claims) (oid_client_id identity)
    \<and> oc_email claims = Some (oid_email identity) \<and> oc_email_verified claims
    \<and> get_discovery env (trim_end_matches (CHR ''/'') (oid_issuer_url identity)
        @ ''/.well-known/openid-configuration'') = Ok discovery
    \<and> od_issuer discovery = oid_issuer_url identity
    \<and> get_jwks env (od_jwks_uri discovery) = Ok jwks \<and> jwk \<in> set jwks
    \<and> (oh_kid hdr = None \<or> jwk_kid jwk = oh_kid hdr)
    \<and> b64url_decode env signature_part = Ok s
    \<and> oidc_signed env jwk (oh_alg hdr) (bstr (header_part @ ''.'' @ claims_part)) s"
proof -
  from assms obtain signing_input signature_part header_part claims_part hb hdr cb claims now discovery jwks jwk s where
    parts: "rsplit_once (CHR ''.'') token = Some (signing_input, signature_part)"
      "split_once (CHR ''.'') signing_input = Some (header_part, claims_part)"
    and rest: "b64url_decode env header_part = Ok hb" "oidc_header_from_slice env hb = Ok hdr"
      "b64url_decode env claims_part = Ok cb" "oidc_claims_from_slice env cb = Ok claims"
      "clock = Ok now" "oc_iss claims = oid_issuer_url identity"
      "audience_contains (oc_aud claims) (oid_client_id identity)" "now < oc_exp claims"
      "oc_email claims = Some (oid_email identity)" "oc_email_verified claims"
      "Some nonce = None \<or> oc_nonce claims = Some nonce"
      "get_discovery env (trim_end_matches (CHR ''/'') (oid_issuer_url identity)
          @ ''/.well-known/openid-configuration'') = Ok discovery"
      "od_issuer discovery = oid_issuer_url identity" "get_jwks env (od_jwks_uri discovery) = Ok jwks"
    and jwk: "select_oidc_jwk jwks hdr = Ok jwk" and s: "b64url_decode env signature_part = Ok s"
    and v: "verify_oidc_jwk_signature env jwk (oh_alg hdr) (bstr signing_input) s = Ok ()"
    unfolding verify_oidc_raw by (elim exE conjE)
  have t: "token = token_of header_part claims_part signature_part"
    "signing_input = header_part @ ''.'' @ claims_part"
    using parts by (simp_all add: rsplit_once_iff split_once_iff token_of_def)
  have "oc_nonce claims = Some nonce"
    using rest(11) by simp
  with rest t s select_oidc_jwk_Ok(1,2) [OF jwk]
    verify_oidc_jwk_signature_Ok [OF v select_oidc_jwk_Ok(4) [OF jwk]]
  show ?thesis
    unfolding t(2) by blast
qed

lemma demo_oidc_token:
  "verify_oidc_identity_token demo_crates (Ok 100)
     \<lparr>oid_client_id = ''client'', oid_issuer_url = ''https://issuer/'', oid_email = ''a@b.c''\<rparr>
     (token_of (hex_encode [1]) (hex_encode [2]) (hex_encode (bstr (hex_encode [1] @ ''.'' @ hex_encode [2]))))
     (Some (hex_encode [7])) = Ok ()"
proof -
  have "rsplit_once (CHR ''.'') (token_of (hex_encode [1]) (hex_encode [2]) (hex_encode (bstr (hex_encode [1] @ ''.'' @ hex_encode [2]))))
      = Some (hex_encode [1] @ CHR ''.'' # hex_encode [2], hex_encode (bstr (hex_encode [1] @ ''.'' @ hex_encode [2])))"
    "split_once (CHR ''.'') (hex_encode [1] @ CHR ''.'' # hex_encode [2]) = Some (hex_encode [1], hex_encode [2])"
    by (simp_all add: token_of_def rsplit_once_iff split_once_iff hex_no_dot)
  then show ?thesis
    by (simp add: verify_oidc_identity_token_def unix_timestamp_now_def demo_crates_def trim_end_matches_def
        select_oidc_jwk_def oidc_jwk_supports_algorithm_def verify_oidc_jwk_signature_def decode_component_def)
qed

theorem oidc_token_sound_witness:
  "let token = token_of (hex_encode [1]) (hex_encode [2]) (hex_encode (bstr (hex_encode [1] @ ''.'' @ hex_encode [2])));
       identity = \<lparr>oid_client_id = ''client'', oid_issuer_url = ''https://issuer/'', oid_email = ''a@b.c''\<rparr>
   in verify_oidc_identity_token demo_crates (Ok 100) identity token (Some (hex_encode [7])) = Ok ()
    \<and> (\<exists>(hdr :: oidc_jwt_header) jwk m s. oidc_signed demo_crates jwk (oh_alg hdr) m s)"
  using oidc_token_sound [OF demo_oidc_token] demo_oidc_token unfolding Let_def by blast

section \<open>Files of authorized identities\<close>

datatype identity_line =
    CommentLine string
  | BlankLine
  | OidcLine oidc_identity
  | KeyLine string

fun render_line :: "identity_line \<Rightarrow> string" where
  "render_line (CommentLine s) = CHR ''#'' # s"
| "render_line BlankLine = []"
| "render_line (OidcLine i) = ''oidc'' @ '' '' @ oid_client_id i @ '' '' @ oid_issuer_url i @ '' '' @ oid_email i"
| "render_line (KeyLine l) = l"

definition no_break :: "string \<Rightarrow> bool" where
  "no_break s \<longleftrightarrow> CHR 0x0A \<notin> set s \<and> CHR 0x0D \<notin> set s"

definition word_ok :: "string \<Rightarrow> bool" where
  "word_ok w \<longleftrightarrow> w \<noteq> [] \<and> list_all is_graph w"

fun line_ok :: "identity_line \<Rightarrow> bool" where
  "line_ok (CommentLine s) \<longleftrightarrow> no_break s \<and> (s = [] \<or> is_graph (last s))"
| "line_ok BlankLine \<longleftrightarrow> True"
| "line_ok (OidcLine i) \<longleftrightarrow> word_ok (oid_client_id i) \<and> word_ok (oid_issuer_url i) \<and> word_ok (oid_email i)"
| "line_ok (KeyLine l) \<longleftrightarrow> no_break l \<and> l \<noteq> [] \<and> is_graph (hd l) \<and> is_graph (last l)
     \<and> hd l \<noteq> CHR ''#'' \<and> parse_oidc_identity l = None"

fun line_identity :: "'o crates \<Rightarrow> identity_line \<Rightarrow> authorized_identity option" where
  "line_identity env (OidcLine i) = Some (Oidc i)"
| "line_identity env (KeyLine l) = (case parse_key_entry env l of Ok k \<Rightarrow> Some (PublicKeyId k) | Err _ \<Rightarrow> None)"
| "line_identity env _ = None"

lemma is_graph_breaks: "\<not> is_graph (CHR 0x0A)" "\<not> is_graph (CHR 0x0D)" "is_graph (CHR ''#'')" "is_graph (CHR ''o'')"
  by (simp_all add: is_graph_def)

lemma word_ok_no_break: "word_ok w \<Longrightarrow> no_break w"
  using is_graph_breaks by (auto simp: word_ok_def no_break_def list_all_iff)

lemma word_ok_last: "word_ok w \<Longrightarrow> w \<noteq> [] \<and> is_graph (last w)"
  by (auto simp: word_ok_def list_all_iff)

lemma split_oidc_line:
  assumes "line_ok (OidcLine i)"
  shows "split_whitespace (render_line (OidcLine i)) = [''oidc'', oid_client_id i, oid_issuer_url i, oid_email i]"
proof -
  have "word_ok ''oidc''"
    by (simp add: word_ok_def is_graph_def)
  with assms show ?thesis
    using split_whitespace_word(1) [of "''oidc''" "oid_client_id i @ '' '' @ oid_issuer_url i @ '' '' @ oid_email i"]
      split_whitespace_word(1) [of "oid_client_id i" "oid_issuer_url i @ '' '' @ oid_email i"]
      split_whitespace_word(1) [of "oid_issuer_url i" "oid_email i"] split_whitespace_word(2) [of "oid_email i"]
    by (simp add: word_ok_def)
qed

lemma parse_authorized_line_render:
  assumes "line_ok l"
  shows "parse_authorized_line env (render_line l) = line_identity env l"
proof (cases l)
  case (CommentLine s)
  then have "str_trim (CHR ''#'' # s) = CHR ''#'' # s"
    using assms is_graph_breaks(3) by (intro str_trim_graph) auto
  with CommentLine show ?thesis
    by (simp add: parse_authorized_line_def)
next
  case BlankLine
  have "str_trim [] = []"
    by (simp add: str_trim_def trim_start.simps [of "[]"] trim_end.simps [of "[]"] ws_end_len_def)
  with BlankLine show ?thesis
    by (simp add: parse_authorized_line_def)
next
  case (OidcLine i)
  have "last (render_line l) = last (oid_email i)" "is_graph (last (oid_email i))"
    using assms OidcLine word_ok_last [of "oid_email i"] by simp_all
  then have "str_trim (render_line l) = render_line l"
    using OidcLine is_graph_breaks(4) by (intro str_trim_graph) simp_all
  with OidcLine split_oidc_line [of i] assms show ?thesis
    by (simp add: parse_authorized_line_def parse_oidc_identity_def)
next
  case (KeyLine k)
  with assms show ?thesis
    by (simp add: parse_authorized_line_def str_trim_graph)
qed

lemma render_no_break: "line_ok l \<Longrightarrow> no_break (render_line l)"
proof (cases l)
  case (OidcLine i)
  moreover assume "line_ok l"
  ultimately show ?thesis
    using word_ok_no_break [of "oid_client_id i"] word_ok_no_break [of "oid_issuer_url i"]
      word_ok_no_break [of "oid_email i"] by (simp add: no_break_def)
qed (simp_all add: no_break_def)

text \<open>
  A file of authorized identities means what its lines say. For a file of comment lines, blank
  lines, \<^verbatim>\<open>oidc\<close> lines and key lines, \<^verbatim>\<open>parse_authorized_identities\<close> returns, in the order of the file, the
  identity of every \<^verbatim>\<open>oidc\<close> line and the key of every key line that the key parser accepts, and
  nothing for the others.
\<close>

theorem authorized_identities_parsed:
  assumes "list_all line_ok ls"
  shows "parse_authorized_identities env (unlines (map render_line ls)) = List.map_filter (line_identity env) ls"
proof -
  have "str_lines (unlines (map render_line ls)) = map render_line ls"
    using assms render_no_break by (intro str_lines_unlines) (auto simp: list_all_iff no_break_def)
  moreover have "List.map_filter (parse_authorized_line env) (map render_line ls)
      = List.map_filter (line_identity env) ls"
    using assms by (induction ls) (simp_all add: parse_authorized_line_render List.map_filter_simps split: option.split)
  ultimately show ?thesis
    by (simp add: parse_authorized_identities_def)
qed

theorem authorized_identities_parsed_witness:
  "let i = \<lparr>oid_client_id = ''client'', oid_issuer_url = ''https://issuer/'', oid_email = ''a@b.c''\<rparr>
   in parse_authorized_identities demo_crates (unlines (map render_line
        [CommentLine '' keys'', OidcLine i, BlankLine, KeyLine ''ssh-ed25519 AAAA'', KeyLine ''nonsense'']))
      = [Oidc i, PublicKeyId demo_public]"
proof -
  let ?i = "\<lparr>oid_client_id = ''client'', oid_issuer_url = ''https://issuer/'', oid_email = ''a@b.c''\<rparr>"
  let ?ls = "[CommentLine '' keys'', OidcLine ?i, BlankLine, KeyLine ''ssh-ed25519 AAAA'', KeyLine ''nonsense'']"
  have "split_whitespace (''ssh-ed25519'' @ CHR '' '' # ''AAAA'') = ''ssh-ed25519'' # split_whitespace ''AAAA''"
    "split_whitespace ''AAAA'' = [''AAAA'']" "split_whitespace ''nonsense'' = [''nonsense'']"
    by (rule split_whitespace_word; simp add: is_graph_def)+
  then have "list_all line_ok ?ls"
    by (simp add: no_break_def word_ok_def is_graph_def parse_oidc_identity_def)
  from authorized_identities_parsed [OF this, of demo_crates] show ?thesis
    by (simp add: Let_def List.map_filter_simps demo_crates_def)
qed

end
