(* ===== verification/Tls_Config.thy ===== *)
theory Tls_Config
  imports Ssh3_Prelude
begin

text \<open>
  The TLS configurations of clients and servers (\<^verbatim>\<open>crates/ssh3-quinn/src/config.rs\<close>): which certificates a client
  trusts, which certificate a server shows, and the one application protocol both speak. A configuration of \<^verbatim>\<open>rustls\<close>
  is the record of what the code puts into it; the checks of \<^verbatim>\<open>rustls\<close>, \<^verbatim>\<open>quinn\<close> and \<^verbatim>\<open>rcgen\<close> are arguments.
\<close>

section \<open>Data\<close>

datatype config_error = Cfg_Rcgen string | Cfg_Rustls string | Cfg_Verifier string | NoInitialCipherSuite string

definition H3_ALPN :: bytes where "H3_ALPN = bstr ''h3''"

text \<open>How a client checks the server's certificate; no client shows a certificate of its own.\<close>

datatype cert_verifier = RootVerifier "bytes list" | SkipServerVerification

record tls_client =
  tc_verifier :: cert_verifier
  tc_alpn_protocols :: "bytes list"

record tls_server =
  tls_cert_chain :: "bytes list"
  tls_key :: bytes
  tls_alpn_protocols :: "bytes list"

text \<open>
  What the crates answer: whether their protocol versions suit the provider, whether a certificate can be put
  into a root store, whether a chain fits a key, and whether a configuration can be used for QUIC.
  \<open>webpki_verify\<close> is the check of a certificate and a server name against roots, \<open>verify_signature\<close> that of a
  handshake signature.
\<close>

record tls_crates =
  safe_default_protocol_versions :: "string + unit"
  root_add :: "bytes \<Rightarrow> string + unit"
  TLS_SERVER_ROOTS :: "bytes list"
  with_single_cert :: "bytes list \<Rightarrow> bytes \<Rightarrow> string + unit"
  quic_client_try_from :: "tls_client \<Rightarrow> string + unit"
  quic_server_try_from :: "tls_server \<Rightarrow> string + unit"
  generate_simple_self_signed :: "string list \<Rightarrow> string + bytes \<times> bytes"
  webpki_verify :: "bytes list \<Rightarrow> bytes \<Rightarrow> string \<Rightarrow> string + unit"
  verify_signature :: "bytes \<Rightarrow> bytes \<Rightarrow> bytes \<Rightarrow> string + unit"

fun cfg_then :: "string + 'a \<Rightarrow> (string \<Rightarrow> config_error) \<Rightarrow> ('a \<Rightarrow> config_error + 'b) \<Rightarrow> config_error + 'b" where
  "cfg_then (Err e) err f = Err (err e)"
| "cfg_then (Ok a) err f = f a"

section \<open>Building configurations\<close>

definition server_config_with_single_cert :: "tls_crates \<Rightarrow> bytes list \<Rightarrow> bytes \<Rightarrow> config_error + tls_server" where
  "server_config_with_single_cert tls cert_chain key =
     cfg_then (safe_default_protocol_versions tls) Cfg_Rustls (\<lambda>_.
     cfg_then (with_single_cert tls cert_chain key) Cfg_Rustls (\<lambda>_.
     let server_crypto = \<lparr>tls_cert_chain = cert_chain, tls_key = key, tls_alpn_protocols = [H3_ALPN]\<rparr> in
     cfg_then (quic_server_try_from tls server_crypto) NoInitialCipherSuite (\<lambda>_. Ok server_crypto)))"

definition client_config_with_roots :: "tls_crates \<Rightarrow> bytes list \<Rightarrow> config_error + tls_client" where
  "client_config_with_roots tls roots =
     cfg_then (safe_default_protocol_versions tls) Cfg_Rustls (\<lambda>_.
     let client_crypto = \<lparr>tc_verifier = RootVerifier roots, tc_alpn_protocols = [H3_ALPN]\<rparr> in
     cfg_then (quic_client_try_from tls client_crypto) NoInitialCipherSuite (\<lambda>_. Ok client_crypto))"

definition client_config_for_certificate :: "tls_crates \<Rightarrow> bytes \<Rightarrow> config_error + tls_client" where
  "client_config_for_certificate tls server_certificate =
     cfg_then (root_add tls server_certificate) Cfg_Rustls (\<lambda>_. client_config_with_roots tls [server_certificate])"

definition client_config_with_webpki_roots :: "tls_crates \<Rightarrow> config_error + tls_client" where
  "client_config_with_webpki_roots tls = client_config_with_roots tls (TLS_SERVER_ROOTS tls)"

definition client_config_insecure :: "tls_crates \<Rightarrow> config_error + tls_client" where
  "client_config_insecure tls =
     cfg_then (safe_default_protocol_versions tls) Cfg_Rustls (\<lambda>_.
     let client_crypto = \<lparr>tc_verifier = SkipServerVerification, tc_alpn_protocols = [H3_ALPN]\<rparr> in
     cfg_then (quic_client_try_from tls client_crypto) NoInitialCipherSuite (\<lambda>_. Ok client_crypto))"

definition self_signed_server_config :: "tls_crates \<Rightarrow> string list \<Rightarrow> config_error + tls_server \<times> bytes" where
  "self_signed_server_config tls subject_alt_names =
     cfg_then (generate_simple_self_signed tls subject_alt_names) Cfg_Rcgen (\<lambda>(certificate, private_key).
     map_sum id (\<lambda>server_config. (server_config, certificate))
       (server_config_with_single_cert tls [certificate] private_key))"

section \<open>Checking a server\<close>

text \<open>The check of the own verifier accepts every certificate, but leaves the check of signatures to \<^verbatim>\<open>rustls\<close>.\<close>

definition skip_verify_server_cert :: "bytes \<Rightarrow> string \<Rightarrow> string + unit" where
  "skip_verify_server_cert end_entity server_name = Ok ()"

definition skip_verify_tls_signature :: "tls_crates \<Rightarrow> bytes \<Rightarrow> bytes \<Rightarrow> bytes \<Rightarrow> string + unit" where
  "skip_verify_tls_signature tls message cert dss = verify_signature tls message cert dss"

fun verify_server_cert :: "tls_crates \<Rightarrow> cert_verifier \<Rightarrow> bytes \<Rightarrow> string \<Rightarrow> string + unit" where
  "verify_server_cert tls (RootVerifier roots) cert server_name = webpki_verify tls roots cert server_name"
| "verify_server_cert tls SkipServerVerification cert server_name = skip_verify_server_cert cert server_name"

section \<open>What is configured\<close>

lemma cfg_then_Ok_iff: "cfg_then r err f = Ok b \<longleftrightarrow> (\<exists>a. r = Ok a \<and> f a = Ok b)"
  by (cases r) simp_all

lemma client_config_with_roots_Ok:
  "client_config_with_roots tls roots = Ok c \<Longrightarrow> c = \<lparr>tc_verifier = RootVerifier roots, tc_alpn_protocols = [H3_ALPN]\<rparr>"
  by (auto simp: client_config_with_roots_def cfg_then_Ok_iff Let_def)

lemma client_config_insecure_Ok:
  "client_config_insecure tls = Ok c \<Longrightarrow> c = \<lparr>tc_verifier = SkipServerVerification, tc_alpn_protocols = [H3_ALPN]\<rparr>"
  by (auto simp: client_config_insecure_def cfg_then_Ok_iff Let_def)

lemma self_signed_server_config_Ok:
  assumes "self_signed_server_config tls names = Ok (c, certificate)"
  shows "tls_cert_chain c = [certificate] \<and> tls_alpn_protocols c = [H3_ALPN]
    \<and> generate_simple_self_signed tls names = Ok (certificate, tls_key c)"
  using assms
  by (auto simp: self_signed_server_config_def server_config_with_single_cert_def cfg_then_Ok_iff Let_def map_sum_Ok_iff)

end
