(* ===== verification/Server_Auth.thy ===== *)
theory Server_Auth
  imports H3_Dispatch Auth_Tokens Tls_Config
begin

text \<open>
  Who may use the server: the configuration, users, authorization and address checks of
  \<^verbatim>\<open>crates/ssh3-server/src/lib.rs\<close>, in its Linux build, up to the point where the channels of a
  conversation are served. The password database, the shadow file with \<^verbatim>\<open>crypt\<close>, the file system, the
  clock and the crates behind tokens are arguments.
\<close>

section \<open>Configuration and users\<close>

record server_config =
  bind_addr :: socket_addr
  cert_subject_alt_names :: "string list"
  server_header :: string
  cfg_max_packet_size :: u64
  cfg_datagrams_queue_size :: nat
  require_authentication :: bool
  allow_insecure_unauthenticated_remote :: bool
  enable_password_login :: bool
  authorized_identity_paths :: "string list"
  default_user :: "string option"
  cfg_shell :: "string option"
  password_verifier :: "(string \<Rightarrow> string \<Rightarrow> io_error + bool) option"

record session_user =
  su_username :: string
  su_home_dir :: string
  su_shell :: string
  su_uid :: u32
  su_gid :: u32

text \<open>An entry of the password database.\<close>

record passwd =
  pw_name :: string
  pw_dir :: string
  pw_shell :: string
  pw_uid :: u32
  pw_gid :: u32

definition extract_query_param :: "string option \<Rightarrow> string \<Rightarrow> string option" where
  "extract_query_param query name = Option.bind query (\<lambda>q.
     find_map (\<lambda>entry. case (case split_once (CHR ''='') entry of None \<Rightarrow> (entry, []) | Some kv \<Rightarrow> kv) of
       (key, v) \<Rightarrow> if key = name \<and> v \<noteq> [] then Some v else None) (str_split (CHR ''&'') q))"

definition header_str :: "('v \<Rightarrow> 't + string) \<Rightarrow> ('u, 'v) http_request \<Rightarrow> string \<Rightarrow> string option" where
  "header_str to_str req name = Option.bind (req_headers req name)
     (\<lambda>v. case to_str v of Ok s \<Rightarrow> Some s | Err _ \<Rightarrow> None)"

definition requested_username ::
    "('v \<Rightarrow> 't + string) \<Rightarrow> ('u \<Rightarrow> string option) \<Rightarrow> ('u, 'v) http_request \<Rightarrow> server_config \<Rightarrow> string option" where
  "requested_username to_str uri_query req config =
     (case Option.bind (header_str to_str req SSH3_USER_HEADER)
         (\<lambda>v. let v = str_trim v in if v \<noteq> [] then Some v else None) of
        Some u \<Rightarrow> Some u
      | None \<Rightarrow> (case extract_query_param (uri_query (req_uri req)) ''user'' of
          Some u \<Rightarrow> Some u
        | None \<Rightarrow> default_user config))"

datatype request_authorization = NoAuthorization | Basic string string | Bearer string

definition strip_scheme :: "string \<Rightarrow> string \<Rightarrow> string option" where
  "strip_scheme v scheme = (let prefix_len = length scheme in
     if length v > prefix_len \<and> eq_ignore_ascii_case (take prefix_len v) scheme \<and> v ! prefix_len = CHR '' ''
     then Some (str_trim (drop (prefix_len + 1) v)) else None)"

definition parse_request_authorization ::
    "('v \<Rightarrow> 't + string) \<Rightarrow> (string \<Rightarrow> string + bytes) \<Rightarrow> ('u, 'v) http_request \<Rightarrow> request_authorization" where
  "parse_request_authorization to_str b64_decode req = (case header_str to_str req ''authorization'' of
       None \<Rightarrow> NoAuthorization
     | Some v \<Rightarrow> (case strip_scheme v ''Basic'' of
         Some encoded \<Rightarrow> (case b64_decode encoded of
             Err _ \<Rightarrow> NoAuthorization
           | Ok decoded \<Rightarrow> (case from_utf8 decoded of
               None \<Rightarrow> NoAuthorization
             | Some decoded \<Rightarrow> (case split_once (CHR '':'') decoded of
                 None \<Rightarrow> NoAuthorization
               | Some (username, password) \<Rightarrow> Basic username password)))
       | None \<Rightarrow> (case strip_scheme v ''Bearer'' of
           Some token \<Rightarrow> if token \<noteq> [] then Bearer token else NoAuthorization
         | None \<Rightarrow> NoAuthorization)))"

definition lookup_session_user ::
    "(string \<Rightarrow> io_error + passwd option) \<Rightarrow> string \<Rightarrow> io_error + session_user" where
  "lookup_session_user from_name username =
     and_then (from_name username) (\<lambda>user. case user of
         None \<Rightarrow> Err (io_error_new NotFound (''unknown user: '' @ username))
       | Some user \<Rightarrow> Ok \<lparr>su_username = pw_name user, su_home_dir = pw_dir user,
           su_shell = (if pw_shell user = [] then ''/bin/sh'' else pw_shell user),
           su_uid = pw_uid user, su_gid = pw_gid user\<rparr>)"

definition resolve_session_user ::
    "('v \<Rightarrow> 't + string) \<Rightarrow> ('u \<Rightarrow> string option) \<Rightarrow> (string \<Rightarrow> io_error + passwd option)
     \<Rightarrow> ('u, 'v) http_request \<Rightarrow> request_authorization \<Rightarrow> server_config \<Rightarrow> io_error + session_user" where
  "resolve_session_user to_str uri_query from_name req authorization config =
     and_then (ok_or (io_error_new PermissionDenied
         ''no SSH3 user was requested and no default server user is configured'')
       (case authorization of
          Basic username _ \<Rightarrow> if username \<noteq> [] then Some username else requested_username to_str uri_query req config
        | _ \<Rightarrow> requested_username to_str uri_query req config))
     (lookup_session_user from_name)"

definition effective_shell :: "server_config \<Rightarrow> session_user \<Rightarrow> string" where
  "effective_shell config user =
     (case Option.bind (cfg_shell config) (\<lambda>p. if p \<noteq> [] then Some p else None) of
        Some p \<Rightarrow> p
      | None \<Rightarrow> if su_shell user = [] then ''/bin/sh'' else su_shell user)"

definition default_authorized_identity_paths :: "session_user \<Rightarrow> string list" where
  "default_authorized_identity_paths user =
     [path_join (path_join (su_home_dir user) ''.ssh3'') ''authorized_identities'',
      path_join (path_join (su_home_dir user) ''.ssh'') ''authorized_keys'']"

definition configured_authorized_identity_paths :: "server_config \<Rightarrow> session_user \<Rightarrow> string list" where
  "configured_authorized_identity_paths config user =
     (if authorized_identity_paths config = [] then default_authorized_identity_paths user
      else authorized_identity_paths config)"

definition should_authenticate :: "server_config \<Rightarrow> bool" where
  "should_authenticate config \<longleftrightarrow> require_authentication config \<or> enable_password_login config
     \<or> authorized_identity_paths config \<noteq> []"

section \<open>Passwords\<close>

definition platform_password_auth_available :: bool where
  "platform_password_auth_available = True"

definition password_auth_available :: "server_config \<Rightarrow> bool" where
  "password_auth_available config \<longleftrightarrow> password_verifier config \<noteq> None \<or> platform_password_auth_available"

text \<open>
  The C library: \<open>getspnam_r\<close> for a user and a buffer length returns a status and, when found, the
  password field of the entry (a null pointer is \<^const>\<open>None\<close>); \<open>crypt\<close> returns the hash of a password
  with the salt in a stored hash, or fails; \<open>os_error\<close> is the error of a status.
\<close>

record shadow_db =
  getspnam_r :: "string \<Rightarrow> nat \<Rightarrow> nat \<times> string option option"
  crypt :: "string \<Rightarrow> string \<Rightarrow> io_error + string"
  os_error :: "nat \<Rightarrow> io_error"

definition ERANGE :: nat where "ERANGE = 34"

definition check_shadow_hash :: "shadow_db \<Rightarrow> string \<Rightarrow> string option option \<Rightarrow> io_error + bool" where
  "check_shadow_hash db password entry = (case entry of
       None \<Rightarrow> Ok False
     | Some None \<Rightarrow> Ok False
     | Some (Some stored) \<Rightarrow>
         if stored = [] \<or> hd stored = CHR ''!'' \<or> hd stored = CHR ''*'' then Ok False
         else and_then (crypt db password stored) (\<lambda>computed. Ok (computed = stored)))"

lemma shadow_buffer_bound: "2 ^ k < (1024 :: nat) \<Longrightarrow> 9 - k < 10 - k"
proof -
  assume "2 ^ k < (1024 :: nat)"
  then have "(2 :: nat) ^ k < 2 ^ 10" by simp
  then have "k < 10" by (rule power_less_imp_less_exp [rotated]) simp
  then show ?thesis by simp
qed

text \<open>The loop with the buffer length after \<open>k\<close> doublings.\<close>

function shadow_loop :: "shadow_db \<Rightarrow> string \<Rightarrow> string \<Rightarrow> nat \<Rightarrow> io_error + bool" where
  "shadow_loop db username password k = (let buffer_len = 1024 * 2 ^ k in
     case getspnam_r db username buffer_len of (status, entry) \<Rightarrow>
       if status = 0 then check_shadow_hash db password entry
       else if status = ERANGE \<and> buffer_len < 2 ^ 20 then shadow_loop db username password (k + 1)
       else Err (os_error db status))"
  by pat_completeness auto
termination
  by (relation "measure (\<lambda>(_, _, _, k). 10 - k)") (auto simp: shadow_buffer_bound)

declare shadow_loop.simps [simp del]

definition default_password_verifier :: "shadow_db \<Rightarrow> string \<Rightarrow> string \<Rightarrow> io_error + bool" where
  "default_password_verifier db username password =
     (if CHR 0x00 \<in> set username then Err (io_error_new InvalidInput ''username contains NUL byte'')
      else if CHR 0x00 \<in> set password then Err (io_error_new InvalidInput ''password contains NUL byte'')
      else shadow_loop db username password 0)"

definition verify_password :: "shadow_db \<Rightarrow> server_config \<Rightarrow> string \<Rightarrow> string \<Rightarrow> io_error + bool" where
  "verify_password db config username password = (case password_verifier config of
       Some verifier \<Rightarrow> verifier username password
     | None \<Rightarrow> default_password_verifier db username password)"

section \<open>Authorization\<close>

text \<open>\<open>clock i\<close> is the time at which the \<open>i\<close>-th identity is checked.\<close>

fun authorize_identities ::
    "'o crates \<Rightarrow> (nat \<Rightarrow> string + u64) \<Rightarrow> string \<Rightarrow> string \<Rightarrow> bytes \<Rightarrow> nat \<Rightarrow> authorized_identity list \<Rightarrow> bool" where
  "authorize_identities env clock token username cid i [] = False"
| "authorize_identities env clock token username cid i (PublicKeyId k # ids) =
     (if is_ok (verify_bearer_token env (clock i) k token username cid) then True
      else authorize_identities env clock token username cid (i + 1) ids)"
| "authorize_identities env clock token username cid i (Oidc oidc # ids) =
     (if is_ok (verify_oidc_identity_token env (clock i) oidc token (Some (conversation_id_base64 env cid))) then True
      else authorize_identities env clock token username cid (i + 1) ids)"

definition authorize_request ::
    "'o crates \<Rightarrow> shadow_db \<Rightarrow> (string \<Rightarrow> io_error + string) \<Rightarrow> (nat \<Rightarrow> string + u64)
     \<Rightarrow> request_authorization \<Rightarrow> session_user \<Rightarrow> bytes \<Rightarrow> server_config \<Rightarrow> auth_error + bool" where
  "authorize_request env db fs clock authorization user cid config =
     (if \<not> should_authenticate config then Ok True
      else case authorization of
          Basic username password \<Rightarrow>
            if \<not> enable_password_login config \<or> username \<noteq> su_username user then Ok False
            else map_err Auth_Io (verify_password db config username password)
        | Bearer token \<Rightarrow>
            and_then (load_authorized_identities_from_paths env fs (configured_authorized_identity_paths config user))
              (\<lambda>identities. if identities = [] then Ok False
                else Ok (authorize_identities env clock token (su_username user) cid 0 identities))
        | NoAuthorization \<Rightarrow> Ok False)"

section \<open>Addresses\<close>

fun ipv4_is_loopback :: "bytes \<Rightarrow> bool" where
  "ipv4_is_loopback octs \<longleftrightarrow> octs \<noteq> [] \<and> hd octs = 127"

definition ipv6_is_loopback :: "bytes \<Rightarrow> bool" where
  "ipv6_is_loopback octs \<longleftrightarrow> octs = replicate 15 0 @ [1]"

definition to_ipv4_mapped :: "bytes \<Rightarrow> bytes option" where
  "to_ipv4_mapped octs = (if take 12 octs = replicate 10 0 @ [0xFF, 0xFF] then Some (drop 12 octs) else None)"

fun is_loopback_ip :: "ip_addr \<Rightarrow> bool" where
  "is_loopback_ip (V4 ip) \<longleftrightarrow> ipv4_is_loopback ip"
| "is_loopback_ip (V6 ip) \<longleftrightarrow> ipv6_is_loopback ip
     \<or> (case to_ipv4_mapped ip of None \<Rightarrow> False | Some ipv4 \<Rightarrow> ipv4_is_loopback ipv4)"

datatype server_error =
    Srv_Config config_error
  | Srv_Auth auth_error
  | Srv_Io io_error
  | Srv_Http string
  | Srv_H3Connection string
  | Srv_BuildResponse "(string, string) build_connect_request_error"
  | Srv_Connection connection_error
  | Srv_OpenChannel open_channel_error
  | Srv_AcceptChannel accept_channel_error
  | Srv_RouteAcceptedChannel route_accepted_channel_error
  | Srv_ServerConversation string
  | Srv_DatagramDispatch datagram_dispatch_error
  | Srv_Conversation conversation_error
  | Srv_Channel channel_error

text \<open>\<open>show_addr\<close> prints a socket address.\<close>

definition validate_listener_addr ::
    "(socket_addr \<Rightarrow> string) \<Rightarrow> server_config \<Rightarrow> socket_addr \<Rightarrow> server_error + unit" where
  "validate_listener_addr show_addr config addr =
     (if \<not> is_loopback_ip (socket_ip addr) \<and> \<not> should_authenticate config
         \<and> \<not> allow_insecure_unauthenticated_remote config
      then Err (Srv_Io (io_error_new InvalidInput (''non-loopback listener '' @ show_addr addr
        @ '' requires authentication; enable --require-auth, --authorized-identity, or --enable-password-login,''
        @ '' or explicitly opt into insecure development with --allow-insecure-unauthenticated-remote'')))
      else Ok ())"

definition validate_server_config :: "(socket_addr \<Rightarrow> string) \<Rightarrow> server_config \<Rightarrow> server_error + unit" where
  "validate_server_config show_addr config =
     (if enable_password_login config \<and> \<not> password_auth_available config
      then Err (Srv_Io (io_error_new Unsupported ''password authentication is not supported on this platform''))
      else validate_listener_addr show_addr config (bind_addr config))"

definition validate_connection_addresses ::
    "server_config \<Rightarrow> ip_addr option \<Rightarrow> socket_addr \<Rightarrow> server_error + unit" where
  "validate_connection_addresses config local_ip remote_addr =
     (if \<not> should_authenticate config \<and> \<not> allow_insecure_unauthenticated_remote config
         \<and> (\<not> is_loopback_ip (socket_ip remote_addr)
            \<or> (case local_ip of None \<Rightarrow> False | Some ip \<Rightarrow> \<not> is_loopback_ip ip))
      then Err (Srv_Io (io_error_new PermissionDenied (''non-loopback connections require authentication; ''
        @ ''allow_insecure_unauthenticated_remote is for deliberately insecure development only'')))
      else Ok ())"

section \<open>Conversations\<close>

text \<open>
  What the server relies on: crates, shadow file, file system, clock, conversions of \<^verbatim>\<open>http\<close> values,
  password database and the printing of addresses.
\<close>

record ('o, 'u, 'v) server_env =
  srv_crates :: "'o crates"
  srv_shadow :: shadow_db
  srv_fs :: "string \<Rightarrow> io_error + string"
  srv_clock :: "nat \<Rightarrow> string + u64"
  srv_to_str :: "'v \<Rightarrow> string + string"
  srv_from_str :: "string \<Rightarrow> string + 'v"
  srv_uri_query :: "'u \<Rightarrow> string option"
  srv_b64_decode :: "string \<Rightarrow> string + bytes"
  srv_from_name :: "string \<Rightarrow> io_error + passwd option"
  srv_body :: "'v http_response \<Rightarrow> string + 'v http_response"
  srv_show_addr :: "socket_addr \<Rightarrow> string"

text \<open>The control stream: sending a response and finishing.\<close>

record ('v, 'c) control_stream_ops =
  send_response :: "'v http_response \<Rightarrow> ('c, string, unit) reader"
  finish_stream :: "('c, string, unit) reader"

definition refuse_request ::
    "('o, 'u, 'v) server_env \<Rightarrow> ('v, 'c) control_stream_ops \<Rightarrow> nat \<Rightarrow> ('c, server_error, unit) reader" where
  "refuse_request srv ops status =
     rbind (rlift (map_err Srv_Http (srv_body srv \<lparr>resp_status = status, resp_headers = Map.empty\<rparr>))) (\<lambda>resp.
     rbind (rmap_err Srv_ServerConversation (send_response ops resp)) (\<lambda>_.
     rmap_err Srv_ServerConversation (finish_stream ops)))"

text \<open>The first part of \<^verbatim>\<open>handle_conversation\<close>: the user to serve, if the request is accepted.\<close>

definition authenticate_conversation ::
    "('o, 'u, 'v) server_env \<Rightarrow> ('v, 'c) control_stream_ops \<Rightarrow> server_config \<Rightarrow> bytes \<Rightarrow> ('u, 'v) http_request
     \<Rightarrow> ('c, server_error, session_user option) reader" where
  "authenticate_conversation srv ops config cid req =
     (if \<not> is_ssh3_connect req then rbind (refuse_request srv ops 404) (\<lambda>_. rret None)
      else
        let authorization = parse_request_authorization (srv_to_str srv) (srv_b64_decode srv) req
        in case resolve_session_user (srv_to_str srv) (srv_uri_query srv) (srv_from_name srv) req authorization config of
          Err _ \<Rightarrow> rbind (refuse_request srv ops 401) (\<lambda>_. rret None)
        | Ok user \<Rightarrow>
            rbind (rlift (map_err Srv_Auth (authorize_request (srv_crates srv) (srv_shadow srv) (srv_fs srv) (srv_clock srv)
              authorization user cid config))) (\<lambda>authorized.
            if \<not> authorized then rbind (refuse_request srv ops 401) (\<lambda>_. rret None)
            else
              rbind (rlift (map_err Srv_BuildResponse (response_with_server_header (srv_body srv) (srv_from_str srv) 200
                (server_header config)))) (\<lambda>resp.
              rbind (rmap_err Srv_ServerConversation (send_response ops resp)) (\<lambda>_.
              rret (Some user)))))"

text \<open>
  The accept loop of a conversation, over what it waits for: the end of the connection or the next
  accepted channel. It returns its result and the channels it has spawned handlers for.
\<close>

datatype conversation_event = ConnectionEnded | ChannelAccepted "conversation_error + accepted_channel"

fun serve_channels :: "conversation_event list \<Rightarrow> (server_error + unit) \<times> accepted_channel list" where
  "serve_channels [] = (Ok (), [])"
| "serve_channels (ConnectionEnded # evs) = (Ok (), [])"
| "serve_channels (ChannelAccepted (Err e) # evs) = (Err (Srv_Conversation e), [])"
| "serve_channels (ChannelAccepted (Ok ch) # evs) = (case serve_channels evs of (res, chs) \<Rightarrow> (res, ch # chs))"

definition handle_conversation ::
    "('o, 'u, 'v) server_env \<Rightarrow> ('v, 'c) control_stream_ops \<Rightarrow> server_config \<Rightarrow> ('r, 'w) conversation
     \<Rightarrow> ('u, 'v) http_request \<Rightarrow> conversation_event list \<Rightarrow> 'c \<times> ('r, 'w) channel_router
     \<Rightarrow> ((server_error + unit) \<times> (accepted_channel \<times> session_user) list) \<times> 'c \<times> ('r, 'w) channel_router" where
  "handle_conversation srv ops config cv req evs = (\<lambda>(c, rt).
     let (result, c) = (case authenticate_conversation srv ops config (conversation_id cv) req c of
         (Err e, c) \<Rightarrow> ((Err e, []), c)
       | (Ok None, c) \<Rightarrow> ((Ok (), []), c)
       | (Ok (Some user), c) \<Rightarrow> (case serve_channels evs of
           (res, chs) \<Rightarrow> ((res, map (\<lambda>ch. (ch, user)) chs), c)))
     in (result, c, snd (unregister_conversation (control_stream_id cv) rt)))"

text \<open>
  A connection: \<open>accepted\<close> is what the driver accepted on it. The flag of the result says that the
  connection was closed because of its addresses.
\<close>

definition serve_connection ::
    "('o, 'u, 'v) server_env \<Rightarrow> ('v, 'c) control_stream_ops \<Rightarrow> server_config \<Rightarrow> ip_addr option \<Rightarrow> socket_addr
     \<Rightarrow> string + (('r, 'w) conversation \<times> ('u, 'v) http_request) option \<Rightarrow> conversation_event list
     \<Rightarrow> 'c \<times> ('r, 'w) channel_router
     \<Rightarrow> (server_error + unit) \<times> bool \<times> (accepted_channel \<times> session_user) list" where
  "serve_connection srv ops config local_ip remote_addr accepted evs s =
     (case validate_server_config (srv_show_addr srv) config of
        Err e \<Rightarrow> (Err e, False, [])
      | Ok _ \<Rightarrow> (case validate_connection_addresses config local_ip remote_addr of
          Err e \<Rightarrow> (Err e, True, [])
        | Ok _ \<Rightarrow> (case accepted of
            Err e \<Rightarrow> (Err (Srv_ServerConversation e), False, [])
          | Ok None \<Rightarrow> (Ok (), False, [])
          | Ok (Some (cv, req)) \<Rightarrow> (case handle_conversation srv ops config cv req evs s of
              ((res, handlers), _, _) \<Rightarrow> (res, False, handlers)))))"

section \<open>Benign errors\<close>

definition is_benign_connection_error :: "connection_error \<Rightarrow> bool" where
  "is_benign_connection_error e \<longleftrightarrow> e \<in> {ApplicationClosed, ConnectionClosed, LocallyClosed, TimedOut}"

definition is_benign_io_error :: "io_error \<Rightarrow> bool" where
  "is_benign_io_error e \<longleftrightarrow>
     io_kind e \<in> {BrokenPipe, ConnectionAborted, ConnectionReset, NotConnected, UnexpectedEof}
     \<or> (case io_source e of None \<Rightarrow> False | Some s \<Rightarrow> is_benign_connection_error s)
     \<or> (let message = to_ascii_lowercase (io_message e) in
          str_contains ''connection lost'' message \<or> str_contains ''closed stream'' message
          \<or> str_contains ''connection closed'' message)"

fun is_benign_channel_error :: "channel_error \<Rightarrow> bool" where
  "is_benign_channel_error (Ch_Io e) \<longleftrightarrow> is_benign_io_error e"
| "is_benign_channel_error _ \<longleftrightarrow> False"

fun is_benign_conversation_error :: "conversation_error \<Rightarrow> bool" where
  "is_benign_conversation_error (Conv_Channel e) \<longleftrightarrow> is_benign_channel_error e"
| "is_benign_conversation_error _ \<longleftrightarrow> False"

fun is_benign_open_channel_error :: "open_channel_error \<Rightarrow> bool" where
  "is_benign_open_channel_error (Open_Connection e) \<longleftrightarrow> is_benign_connection_error e"
| "is_benign_open_channel_error (Open_Conversation e) \<longleftrightarrow> is_benign_conversation_error e"

fun is_benign_accept_channel_error :: "accept_channel_error \<Rightarrow> bool" where
  "is_benign_accept_channel_error (Accept_Connection e) \<longleftrightarrow> is_benign_connection_error e"
| "is_benign_accept_channel_error _ \<longleftrightarrow> False"

fun is_benign_route_error :: "route_accepted_channel_error \<Rightarrow> bool" where
  "is_benign_route_error (Route_Accept (Accept_Connection e)) \<longleftrightarrow> is_benign_connection_error e"
| "is_benign_route_error _ \<longleftrightarrow> False"

fun is_benign_datagram_error :: "datagram_dispatch_error \<Rightarrow> bool" where
  "is_benign_datagram_error (Dispatch_Connection e) \<longleftrightarrow> is_benign_connection_error e"
| "is_benign_datagram_error _ \<longleftrightarrow> False"

fun is_benign_server_error :: "server_error \<Rightarrow> bool" where
  "is_benign_server_error (Srv_Connection e) \<longleftrightarrow> is_benign_connection_error e"
| "is_benign_server_error (Srv_OpenChannel e) \<longleftrightarrow> is_benign_open_channel_error e"
| "is_benign_server_error (Srv_AcceptChannel e) \<longleftrightarrow> is_benign_accept_channel_error e"
| "is_benign_server_error (Srv_RouteAcceptedChannel e) \<longleftrightarrow> is_benign_route_error e"
| "is_benign_server_error (Srv_DatagramDispatch e) \<longleftrightarrow> is_benign_datagram_error e"
| "is_benign_server_error (Srv_Conversation e) \<longleftrightarrow> is_benign_conversation_error e"
| "is_benign_server_error (Srv_Channel e) \<longleftrightarrow> is_benign_channel_error e"
| "is_benign_server_error (Srv_Io e) \<longleftrightarrow> is_benign_io_error e"
| "is_benign_server_error _ \<longleftrightarrow> False"

section \<open>What authorization means\<close>

text \<open>A token that a listed key has signed for the user and the conversation, at a time it is valid.\<close>

definition bearer_proof :: "'o crates \<Rightarrow> string + u64 \<Rightarrow> public_key \<Rightarrow> string \<Rightarrow> string \<Rightarrow> bytes \<Rightarrow> bool" where
  "bearer_proof env clock k token username cid \<longleftrightarrow>
     (\<exists>a header_part claims_part signature_part hb hdr cb claims now s.
        token = token_of header_part claims_part signature_part
      \<and> CHR ''.'' \<notin> set header_part \<and> CHR ''.'' \<notin> set signature_part
      \<and> jwt_algorithm_for_public_key k = Ok a
      \<and> b64url_decode env header_part = Ok hb \<and> header_from_slice env hb = Ok hdr
      \<and> jh_alg hdr = jwt_algorithm_as_str a
      \<and> b64url_decode env claims_part = Ok cb \<and> claims_from_slice env cb = Ok claims
      \<and> clock = Ok now \<and> claims_accepted env now username cid claims
      \<and> b64url_decode env signature_part = Ok s
      \<and> verify_jwt_signature env k a (bstr (header_part @ ''.'' @ claims_part)) s = Ok ())"

definition identity_proof ::
    "'o crates \<Rightarrow> string + u64 \<Rightarrow> authorized_identity \<Rightarrow> string \<Rightarrow> string \<Rightarrow> bytes \<Rightarrow> bool" where
  "identity_proof env clock identity token username cid \<longleftrightarrow> (case identity of
       PublicKeyId k \<Rightarrow> bearer_proof env clock k token username cid
     | Oidc i \<Rightarrow> verify_oidc_identity_token env clock i token (Some (b64_encode env cid)) = Ok ())"

text \<open>The request proves that it comes from the user, by password or by token.\<close>

definition proves_identity ::
    "'o crates \<Rightarrow> shadow_db \<Rightarrow> (string \<Rightarrow> io_error + string) \<Rightarrow> (nat \<Rightarrow> string + u64)
     \<Rightarrow> request_authorization \<Rightarrow> session_user \<Rightarrow> bytes \<Rightarrow> server_config \<Rightarrow> bool" where
  "proves_identity env db fs clock authorization user cid config \<longleftrightarrow>
     (\<exists>password. authorization = Basic (su_username user) password \<and> enable_password_login config
        \<and> verify_password db config (su_username user) password = Ok True)
   \<or> (\<exists>token identities i. authorization = Bearer token
        \<and> load_authorized_identities_from_paths env fs (configured_authorized_identity_paths config user) = Ok identities
        \<and> i < length identities \<and> identity_proof env (clock i) (identities ! i) token (su_username user) cid)"

lemma is_ok_unit: "is_ok (r :: 'e + unit) \<longleftrightarrow> r = Ok ()"
  by (cases r) simp_all

lemma is_ok_bearer_proof:
  "verify_bearer_token env clock k token username cid = Ok () \<longleftrightarrow> bearer_proof env clock k token username cid"
  unfolding bearer_proof_def by (rule verify_bearer_token_Ok_iff)

lemma authorize_identities_iff:
  "authorize_identities env clock token username cid n ids \<longleftrightarrow>
     (\<exists>i<length ids. identity_proof env (clock (n + i)) (ids ! i) token username cid)"
proof (induction ids arbitrary: n)
  case (Cons d ids)
  have "authorize_identities env clock token username cid n (d # ids) \<longleftrightarrow>
      identity_proof env (clock n) d token username cid \<or> authorize_identities env clock token username cid (n + 1) ids"
    by (cases d) (simp_all add: identity_proof_def is_ok_bearer_proof is_ok_unit conversation_id_base64_def)
  then show ?case
    using Cons.IH [of "n + 1"] by (simp add: Ex_less_Suc2)
qed simp

lemma authorize_request_Ok_iff:
  "authorize_request env db fs clock authorization user cid config = Ok True \<longleftrightarrow>
     \<not> should_authenticate config \<or> proves_identity env db fs clock authorization user cid config"
proof (cases authorization)
  case NoAuthorization
  then show ?thesis
    by (simp add: authorize_request_def proves_identity_def)
next
  case (Basic username password)
  then show ?thesis
    by (cases "should_authenticate config"; cases "enable_password_login config"; cases "username = su_username user")
      (simp_all add: authorize_request_def proves_identity_def map_err_Ok_iff should_authenticate_def)
next
  case (Bearer token)
  show ?thesis
  proof (cases "load_authorized_identities_from_paths env fs (configured_authorized_identity_paths config user)")
    case (Inl e)
    with Bearer show ?thesis
      by (simp add: authorize_request_def proves_identity_def)
  next
    case (Inr ids)
    with Bearer authorize_identities_iff [of env clock token "su_username user" cid 0 ids] show ?thesis
      by (cases ids) (simp_all add: authorize_request_def proves_identity_def)
  qed
qed

lemma refuse_request_None: "rbind (refuse_request srv ops status) (\<lambda>_. rret None) c \<noteq> (Ok (Some user), c')"
  by (auto simp: rbind_def rret_def split: prod.splits sum.splits)

lemma rlift_Ok_iff: "rlift r s = (Ok a, t) \<longleftrightarrow> r = Ok a \<and> s = t"
  by (cases r) (auto simp: rret_def rfail_def)

lemma authenticate_conversation_Some:
  assumes "authenticate_conversation srv ops config cid req c = (Ok (Some user), c')"
  shows "is_ssh3_connect req
    \<and> (let authorization = parse_request_authorization (srv_to_str srv) (srv_b64_decode srv) req
       in resolve_session_user (srv_to_str srv) (srv_uri_query srv) (srv_from_name srv) req authorization config = Ok user
        \<and> authorize_request (srv_crates srv) (srv_shadow srv) (srv_fs srv) (srv_clock srv) authorization user cid config = Ok True)"
proof -
  let ?a = "parse_request_authorization (srv_to_str srv) (srv_b64_decode srv) req"
  let ?u = "resolve_session_user (srv_to_str srv) (srv_uri_query srv) (srv_from_name srv) req ?a config"
  have ssh: "is_ssh3_connect req"
    using assms refuse_request_None [of srv ops 404 c user c']
    by (cases "is_ssh3_connect req") (simp_all add: authenticate_conversation_def)
  obtain u where u: "?u = Ok u"
    using assms refuse_request_None [of srv ops 401 c user c']
    by (cases ?u) (simp_all add: authenticate_conversation_def ssh)
  let ?auth = "authorize_request (srv_crates srv) (srv_shadow srv) (srv_fs srv) (srv_clock srv) ?a u cid config"
  have "rbind (rlift (map_err Srv_Auth ?auth)) (\<lambda>authorized.
            if \<not> authorized then rbind (refuse_request srv ops 401) (\<lambda>_. rret None)
            else
              rbind (rlift (map_err Srv_BuildResponse (response_with_server_header (srv_body srv) (srv_from_str srv) 200
                (server_header config)))) (\<lambda>resp.
              rbind (rmap_err Srv_ServerConversation (send_response ops resp)) (\<lambda>_.
              rret (Some u)))) c = (Ok (Some user), c')"
    using assms by (simp add: authenticate_conversation_def ssh u)
  then obtain b t where b: "rlift (map_err Srv_Auth ?auth) c = (Ok b, t)"
    and r: "(if \<not> b then rbind (refuse_request srv ops 401) (\<lambda>_. rret None)
            else
              rbind (rlift (map_err Srv_BuildResponse (response_with_server_header (srv_body srv) (srv_from_str srv) 200
                (server_header config)))) (\<lambda>resp.
              rbind (rmap_err Srv_ServerConversation (send_response ops resp)) (\<lambda>_.
              rret (Some u)))) t = (Ok (Some user), c')"
    by (rule rbind_OkE)
  have "b"
    using r refuse_request_None [of srv ops 401 t user c'] by (cases b) simp_all
  moreover have "u = user"
    using r \<open>b\<close> by simp (elim rbind_OkE, simp add: rret_def)
  ultimately show ?thesis
    using b u ssh by (simp add: rlift_Ok_iff map_err_Ok_iff)
qed

lemma handle_conversation_handlers:
  assumes "(ch, user) \<in> set (snd (fst (handle_conversation srv ops config cv req evs (c, rt))))"
  obtains c' where "authenticate_conversation srv ops config (conversation_id cv) req c = (Ok (Some user), c')"
proof -
  obtain auth c' where a: "authenticate_conversation srv ops config (conversation_id cv) req c = (auth, c')"
    by (cases "authenticate_conversation srv ops config (conversation_id cv) req c")
  have "auth = Ok (Some user)"
  proof (cases auth)
    case (Inl e)
    with assms show ?thesis by (simp add: handle_conversation_def a)
  next
    case (Inr x)
    with assms show ?thesis
      by (cases x) (auto simp: handle_conversation_def a split_beta)
  qed
  with a that show ?thesis by simp
qed

lemma serve_connection_handlers:
  assumes run: "serve_connection srv ops config local_ip remote_addr (Ok (Some (cv, req))) evs s = (res, closed, handlers)"
    and "handlers \<noteq> []"
  shows "validate_connection_addresses config local_ip remote_addr = Ok ()
    \<and> handlers = snd (fst (handle_conversation srv ops config cv req evs s))"
proof (cases "validate_server_config (srv_show_addr srv) config")
  case (Inl e)
  with assms show ?thesis by (simp add: serve_connection_def)
next
  case w: (Inr u)
  show ?thesis
  proof (cases "validate_connection_addresses config local_ip remote_addr")
    case (Inl e)
    with assms w show ?thesis by (simp add: serve_connection_def)
  next
    case (Inr v)
    with run w show ?thesis
      by (simp add: serve_connection_def split_beta)
  qed
qed

lemma served_channel_authorized:
  assumes "serve_connection srv ops config local_ip remote_addr (Ok (Some (cv, req))) evs s = (res, closed, handlers)"
    and "(ch, user) \<in> set handlers"
  shows "is_ssh3_connect req
    \<and> (let authorization = parse_request_authorization (srv_to_str srv) (srv_b64_decode srv) req
       in resolve_session_user (srv_to_str srv) (srv_uri_query srv) (srv_from_name srv) req authorization config = Ok user
        \<and> (if should_authenticate config
           then proves_identity (srv_crates srv) (srv_shadow srv) (srv_fs srv) (srv_clock srv) authorization user
                  (conversation_id cv) config
           else allow_insecure_unauthenticated_remote config
             \<or> is_loopback_ip (socket_ip remote_addr)
               \<and> (case local_ip of None \<Rightarrow> True | Some ip \<Rightarrow> is_loopback_ip ip)))"
proof -
  obtain c rt where s: "s = (c, rt)" by (cases s)
  have "handlers \<noteq> []"
    using assms(2) by auto
  note served = serve_connection_handlers [OF assms(1) this]
  from assms(2) obtain c' where a: "authenticate_conversation srv ops config (conversation_id cv) req c = (Ok (Some user), c')"
    unfolding conjunct2 [OF served] s by (rule handle_conversation_handlers)
  note auth = authenticate_conversation_Some [OF a]
  show ?thesis
  proof (cases "should_authenticate config")
    case True
    with auth show ?thesis
      by (simp add: Let_def authorize_request_Ok_iff)
  next
    case False
    with conjunct1 [OF served] have "allow_insecure_unauthenticated_remote config \<or> is_loopback_ip (socket_ip remote_addr)
        \<and> (case local_ip of None \<Rightarrow> True | Some ip \<Rightarrow> is_loopback_ip ip)"
      by (cases local_ip) (simp_all add: validate_connection_addresses_def split: if_splits)
    with auth False show ?thesis
      by (simp add: Let_def)
  qed
qed

section \<open>Properties\<close>

text \<open>
  C16: No channel is served without authorization. Whenever \<^verbatim>\<open>serve_connection\<close> has spawned a handler for
  a channel, the request was an SSH3 CONNECT for a user the server resolved, and either that user
  has proved itself, by the right password where password login is enabled or by a token that one
  of the user's authorized identities vouches for and that is bound to this conversation, or no
  authentication is configured and then remote access was explicitly allowed or both ends of the
  connection are loopback addresses.
\<close>

theorem channels_served_only_if_authorized:
  assumes "serve_connection srv ops config local_ip remote_addr (Ok (Some (cv, req))) evs s = (res, closed, handlers)"
    and "(ch, user) \<in> set handlers"
  shows "is_ssh3_connect req
    \<and> (let authorization = parse_request_authorization (srv_to_str srv) (srv_b64_decode srv) req
       in resolve_session_user (srv_to_str srv) (srv_uri_query srv) (srv_from_name srv) req authorization config = Ok user
        \<and> (if should_authenticate config
           then proves_identity (srv_crates srv) (srv_shadow srv) (srv_fs srv) (srv_clock srv) authorization user
                  (conversation_id cv) config
           else allow_insecure_unauthenticated_remote config
             \<or> is_loopback_ip (socket_ip remote_addr)
               \<and> (case local_ip of None \<Rightarrow> True | Some ip \<Rightarrow> is_loopback_ip ip)))"
  by (rule served_channel_authorized [OF assms])

text \<open>A server with one user, a password verifier and a control stream that records what is sent.\<close>

definition demo_server :: "(bytes, string, string) server_env" where
  "demo_server =
     \<lparr>srv_crates = demo_crates,
      srv_shadow = \<lparr>getspnam_r = (\<lambda>_ _. (0, None)), crypt = (\<lambda>_ _. Ok []), os_error = (\<lambda>_. io_error_new OtherKind [])\<rparr>,
      srv_fs = (\<lambda>_. Err (io_error_new NotFound [])), srv_clock = (\<lambda>_. Ok 120),
      srv_to_str = Inr, srv_from_str = Inr, srv_uri_query = (\<lambda>_. None),
      srv_b64_decode = (\<lambda>_. Ok (bstr ''alice:pw'')),
      srv_from_name = (\<lambda>n. Ok (Some \<lparr>pw_name = n, pw_dir = ''/home/alice'', pw_shell = ''/bin/sh'', pw_uid = 1, pw_gid = 1\<rparr>)),
      srv_body = Inr, srv_show_addr = (\<lambda>_. [])\<rparr>"

definition demo_config :: server_config where
  "demo_config =
     \<lparr>bind_addr = SocketAddrV4 [0, 0, 0, 0] 443, cert_subject_alt_names = [], server_header = ''ssh3'',
      cfg_max_packet_size = 30000, cfg_datagrams_queue_size = 10, require_authentication = False,
      allow_insecure_unauthenticated_remote = False, enable_password_login = True,
      authorized_identity_paths = [], default_user = None, cfg_shell = None,
      password_verifier = Some (\<lambda>u p. Ok (p = ''pw''))\<rparr>"

definition demo_user :: session_user where
  "demo_user = \<lparr>su_username = ''alice'', su_home_dir = ''/home/alice'', su_shell = ''/bin/sh'', su_uid = 1, su_gid = 1\<rparr>"

definition demo_request :: "(string, string) http_request" where
  "demo_request = \<lparr>req_method = ''CONNECT'', req_uri = ''/'', req_headers = [''authorization'' \<mapsto> ''Basic QQ''],
     req_protocol = Some SSH3_PROTOCOL_NAME\<rparr>"

definition record_ops :: "(string, nat list \<times> bool) control_stream_ops" where
  "record_ops = \<lparr>send_response = (\<lambda>r (l, f). (Ok (), l @ [resp_status r], f)),
     finish_stream = (\<lambda>(l, f). (Ok (), l, True))\<rparr>"

lemma demo_authorization:
  "parse_request_authorization (srv_to_str demo_server) (srv_b64_decode demo_server) demo_request = Basic ''alice'' ''pw''"
proof -
  have "str_trim ''QQ'' = ''QQ''"
    by (rule str_trim_graph) (simp_all add: is_graph_def)
  then have "strip_scheme ''Basic QQ'' ''Basic'' = Some ''QQ''"
    by (simp add: strip_scheme_def eq_ignore_ascii_case_def)
  moreover have "from_utf8 (bstr ''alice:pw'') = Some (str_of_bytes (bstr ''alice:pw''))"
    by (rule from_utf8_ascii) (simp add: bstr_def)
  then have "from_utf8 (bstr ''alice:pw'') = Some ''alice:pw''"
    by (simp only: str_of_bytes_bstr)
  ultimately show ?thesis
    by (simp add: parse_request_authorization_def header_str_def demo_server_def demo_request_def)
qed

lemma demo_authorized:
  "is_ssh3_connect demo_request"
  "resolve_session_user (srv_to_str demo_server) (srv_uri_query demo_server) (srv_from_name demo_server) demo_request
     (Basic ''alice'' ''pw'') demo_config = Ok demo_user"
  "authorize_request (srv_crates demo_server) (srv_shadow demo_server) (srv_fs demo_server) (srv_clock demo_server)
     (Basic ''alice'' ''pw'') demo_user cid demo_config = Ok True"
  by (simp_all add: is_ssh3_connect_def request_protocol_def demo_request_def resolve_session_user_def
      lookup_session_user_def demo_server_def demo_user_def authorize_request_def should_authenticate_def
      demo_config_def verify_password_def)

lemma demo_authenticated:
  "authenticate_conversation demo_server record_ops demo_config cid demo_request ([], False)
     = (Ok (Some demo_user), [200], False)"
  using demo_authorized demo_authorization
  by (simp add: authenticate_conversation_def Let_def rbind_def rmap_err_def rret_def record_ops_def
      response_with_server_header_def) (simp add: demo_server_def rbind_def rmap_err_def rret_def)

theorem channels_served_only_if_authorized_witness:
  "\<exists>res handlers. serve_connection demo_server record_ops demo_config None (SocketAddrV4 [10, 0, 0, 1] 5000)
       (Ok (Some (memory_conversation, demo_request))) [ChannelAccepted (Ok (Accepted 0))] (([], False), router_new (\<lambda>_. memory_conversation))
     = (res, False, handlers) \<and> (Accepted 0, demo_user) \<in> set handlers
     \<and> proves_identity (srv_crates demo_server) (srv_shadow demo_server) (srv_fs demo_server) (srv_clock demo_server)
         (Basic ''alice'' ''pw'') demo_user (conversation_id memory_conversation) demo_config"
proof -
  have run: "serve_connection demo_server record_ops demo_config None (SocketAddrV4 [10, 0, 0, 1] 5000)
       (Ok (Some (memory_conversation, demo_request))) [ChannelAccepted (Ok (Accepted 0))] (([], False), router_new (\<lambda>_. memory_conversation))
     = (Ok (), False, [(Accepted 0, demo_user)])"
  proof -
    have w: "validate_server_config (srv_show_addr demo_server) demo_config = Ok ()"
      by (simp add: validate_server_config_def password_auth_available_def platform_password_auth_available_def
          validate_listener_addr_def should_authenticate_def demo_config_def)
    have v: "validate_connection_addresses demo_config None (SocketAddrV4 [10, 0, 0, 1] 5000) = Ok ()"
      by (simp add: validate_connection_addresses_def should_authenticate_def demo_config_def)
    show ?thesis
      unfolding serve_connection_def w v by (simp add: handle_conversation_def demo_authenticated)
  qed
  from channels_served_only_if_authorized [OF run, of "Accepted 0" demo_user] run show ?thesis
    by (simp add: demo_authorization Let_def) (simp add: demo_config_def should_authenticate_def)
qed

lemma refuse_recorded:
  assumes "\<forall>r. srv_body srv r = Ok r"
  shows "refuse_request srv record_ops status (l, f) = (Ok (), l @ [status], True)"
  using assms by (simp add: refuse_request_def rbind_def rmap_err_def rret_def record_ops_def)



lemma shadow_loop_Ok_True:
  "shadow_loop db username password k = Ok True \<Longrightarrow>
     \<exists>n stored. getspnam_r db username n = (0, Some (Some stored)) \<and> stored \<noteq> []
       \<and> hd stored \<notin> {CHR ''!'', CHR ''*''} \<and> crypt db password stored = Ok stored"
proof (induction db username password k rule: shadow_loop.induct)
  case (1 db username password k)
  obtain status entry where g: "getspnam_r db username (1024 * 2 ^ k) = (status, entry)"
    by fastforce
  show ?case
  proof (cases "status = 0")
    case True
    with 1(2) g have "check_shadow_hash db password entry = Ok True"
      by (simp add: shadow_loop.simps [of db username password k])
    then obtain stored where "entry = Some (Some stored)" "stored \<noteq> []" "hd stored \<notin> {CHR ''!'', CHR ''*''}"
      "crypt db password stored = Ok stored"
      by (auto simp: check_shadow_hash_def and_then_Ok_iff split: option.splits if_splits)
    with g True show ?thesis by blast
  next
    case False
    with 1(2) g have "status = ERANGE \<and> (1024 :: nat) * 2 ^ k < 2 ^ 20" "shadow_loop db username password (k + 1) = Ok True"
      by (simp_all add: shadow_loop.simps [of db username password k] split: if_splits)
    with 1(1) [OF refl g [symmetric] False] show ?thesis by simp
  qed
qed

text \<open>
  C29: A password is accepted only if it is the account's. When the shadow file check accepts a password,
  neither name nor password has a NUL byte, the user has an entry whose stored hash is neither empty
  nor locked, and hashing the password with that entry's salt gives exactly the stored hash. The
  loop that enlarges the buffer always ends: the function is total.
\<close>

theorem password_check_sound:
  assumes "default_password_verifier db username password = Ok True"
  shows "CHR 0x00 \<notin> set username \<and> CHR 0x00 \<notin> set password
    \<and> (\<exists>n stored. getspnam_r db username n = (0, Some (Some stored)) \<and> stored \<noteq> []
       \<and> hd stored \<notin> {CHR ''!'', CHR ''*''} \<and> crypt db password stored = Ok stored)"
  using assms shadow_loop_Ok_True [of db username password 0]
  by (auto simp: default_password_verifier_def split: if_splits)

theorem password_check_sound_witness:
  "let db = \<lparr>getspnam_r = (\<lambda>u n. if n < 4096 then (ERANGE, None) else (0, Some (Some ''$6$hash''))),
         crypt = (\<lambda>p salt. Ok (if p = ''pw'' then salt else ''*0'')), os_error = (\<lambda>_. io_error_new OtherKind [])\<rparr>
   in default_password_verifier db ''alice'' ''pw'' = Ok True
     \<and> (\<exists>n stored. getspnam_r db ''alice'' n = (0, Some (Some stored)) \<and> crypt db ''pw'' stored = Ok stored)"
proof -
  let ?db = "\<lparr>getspnam_r = (\<lambda>u n. if n < 4096 then (ERANGE, None) else (0, Some (Some ''$6$hash''))),
         crypt = (\<lambda>p salt. Ok (if p = ''pw'' then salt else ''*0'')), os_error = (\<lambda>_. io_error_new OtherKind [])\<rparr>"
  have "default_password_verifier ?db ''alice'' ''pw'' = Ok True"
    by (simp add: default_password_verifier_def shadow_loop.simps ERANGE_def check_shadow_hash_def)
  with password_check_sound [OF this] show ?thesis
    unfolding Let_def by blast
qed

end
