(* ===== verification/Server_Session.thy ===== *)
theory Server_Session
  imports Server_Auth
begin

text \<open>
  Session channels of the server: the state machine of \<^verbatim>\<open>handle_session_channel\<close> in
  \<^verbatim>\<open>crates/ssh3-server/src/lib.rs\<close>, the processes it starts, signals, terminal sizes and the output pump.
  The operating system is an argument: its answer to a call may depend on all calls made before,
  which the state records. Unix build.
\<close>

section \<open>Terminal sizes and signals\<close>

record session_pty_size =
  sz_char_width :: u16
  sz_char_height :: u16
  sz_pixel_width :: u16
  sz_pixel_height :: u16

definition clamp_u64_to_u16 :: "u64 \<Rightarrow> u16" where
  "clamp_u64_to_u16 v = ucast (min v 65535)"

definition from_pty_request :: "pty_request \<Rightarrow> session_pty_size" where
  "from_pty_request r = \<lparr>sz_char_width = clamp_u64_to_u16 (pty_char_width r),
     sz_char_height = clamp_u64_to_u16 (pty_char_height r),
     sz_pixel_width = clamp_u64_to_u16 (pty_pixel_width r),
     sz_pixel_height = clamp_u64_to_u16 (pty_pixel_height r)\<rparr>"

definition from_window_change :: "window_change_request \<Rightarrow> session_pty_size" where
  "from_window_change r = \<lparr>sz_char_width = clamp_u64_to_u16 (win_char_width r),
     sz_char_height = clamp_u64_to_u16 (win_char_height r),
     sz_pixel_width = clamp_u64_to_u16 (win_pixel_width r),
     sz_pixel_height = clamp_u64_to_u16 (win_pixel_height r)\<rparr>"

record winsize =
  ws_row :: u16
  ws_col :: u16
  ws_xpixel :: u16
  ws_ypixel :: u16

definition to_winsize :: "session_pty_size \<Rightarrow> winsize" where
  "to_winsize s = \<lparr>ws_row = sz_char_height s, ws_col = sz_char_width s,
     ws_xpixel = sz_pixel_width s, ws_ypixel = sz_pixel_height s\<rparr>"

definition ssh_bytes_to_string :: "bytes \<Rightarrow> string option" where
  "ssh_bytes_to_string bytes = (if bytes = [] then None else Some (from_utf8_lossy bytes))"

datatype unix_signal =
    SIGABRT | SIGALRM | SIGBUS | SIGCHLD | SIGCONT | SIGFPE | SIGHUP | SIGILL | SIGINT | SIGPIPE | SIGQUIT
  | SIGSEGV | SIGSTOP | SIGTERM | SIGTRAP | SIGTSTP | SIGTTIN | SIGTTOU | SIGUSR1 | SIGUSR2 | SIGWINCH
  | SIGXCPU | SIGXFSZ

definition signal_names :: "(string \<times> unix_signal) list" where
  "signal_names = [(''ABRT'', SIGABRT), (''IOT'', SIGABRT), (''ALRM'', SIGALRM), (''BUS'', SIGBUS),
     (''CHLD'', SIGCHLD), (''CLD'', SIGCHLD), (''CONT'', SIGCONT), (''FPE'', SIGFPE), (''HUP'', SIGHUP),
     (''ILL'', SIGILL), (''INT'', SIGINT), (''PIPE'', SIGPIPE), (''QUIT'', SIGQUIT), (''SEGV'', SIGSEGV),
     (''STOP'', SIGSTOP), (''TERM'', SIGTERM), (''TRAP'', SIGTRAP), (''TSTP'', SIGTSTP), (''TTIN'', SIGTTIN),
     (''TTOU'', SIGTTOU), (''USR1'', SIGUSR1), (''USR2'', SIGUSR2), (''WINCH'', SIGWINCH),
     (''XCPU'', SIGXCPU), (''XFSZ'', SIGXFSZ)]"

definition parse_signal_request :: "signal_request \<Rightarrow> unix_signal option" where
  "parse_signal_request r = (
     let signal_name = to_ascii_uppercase (from_utf8_lossy (sig_name_without_sig r));
         signal_name = (case strip_prefix ''SIG'' signal_name of None \<Rightarrow> signal_name | Some n \<Rightarrow> n)
     in map_of signal_names signal_name)"

section \<open>Processes\<close>

datatype session_command = ShellCommand | ExecCommand string

record pending_pty =
  pp_term :: "string option"
  pp_size :: session_pty_size

text \<open>A \<^verbatim>\<open>Command\<close> with everything that is set on it; \<open>ps_pty\<close> tells that it runs on a terminal.\<close>

record process_spec =
  ps_program :: string
  ps_args :: "string list"
  ps_env :: "(string \<times> string) list"
  ps_cwd :: "string option"
  ps_ids :: "(u32 \<times> u32) option"
  ps_arg0 :: "string option"
  ps_pty :: bool

text \<open>
  The calls to the operating system that may fail, and its answers: \<open>os_do\<close> answers a call after the
  calls made before, \<open>os_child_id\<close> is the pid of the child after the calls made so far and
  \<open>os_show_request\<close> the text of the derived \<^verbatim>\<open>Debug\<close>, which nothing depends on.
\<close>

datatype os_event =
    OpenPty winsize
  | TryClone
  | Spawned process_spec
  | Killed int unix_signal
  | Resized winsize
  | InputWritten bytes
  | InputFlushed
  | CreateDir string
  | SetMode string nat
  | BindSocket string
  | Chown string u32 u32

record os =
  os_uid :: u32
  os_gid :: u32
  os_path_var :: "string option"
  os_is_dir :: "string \<Rightarrow> bool"
  os_pid :: nat
  os_temp_dir :: string
  os_nanos :: "os_event list \<Rightarrow> nat"
  os_do :: "os_event list \<Rightarrow> os_event \<Rightarrow> io_error + unit"
  os_child_id :: "os_event list \<Rightarrow> u32 option"
  os_show_request :: "channel_request \<Rightarrow> string"

definition login_shell_arg0 :: "string \<Rightarrow> string" where
  "login_shell_arg0 shell = ''-'' @
     (case Option.bind (path_file_name shell) (\<lambda>n. from_utf8 (bstr n)) of None \<Rightarrow> ''sh'' | Some n \<Rightarrow> n)"

definition configure_process ::
    "os \<Rightarrow> server_config \<Rightarrow> session_user \<Rightarrow> session_command \<Rightarrow> string option \<Rightarrow> process_spec \<Rightarrow> process_spec" where
  "configure_process os config user command agent_socket_path p =
     (let shell = effective_shell config user in
      p\<lparr>ps_env := ps_env p @ [(''HOME'', su_home_dir user), (''USER'', su_username user),
          (''LOGNAME'', su_username user), (''SHELL'', shell)]
          @ (case agent_socket_path of None \<Rightarrow> [] | Some path \<Rightarrow> [(''SSH_AUTH_SOCK'', path)])
          @ [(''PATH'', case os_path_var os of None \<Rightarrow> ''/usr/bin:/bin:/usr/sbin:/sbin'' | Some v \<Rightarrow> v)],
        ps_cwd := (if os_is_dir os (su_home_dir user) then Some (su_home_dir user) else ps_cwd p),
        ps_ids := (if su_uid user \<noteq> os_uid os \<or> su_gid user \<noteq> os_gid os
          then Some (su_uid user, su_gid user) else ps_ids p),
        ps_arg0 := (if command = ShellCommand then Some (login_shell_arg0 shell) else ps_arg0 p)\<rparr>)"

text \<open>\<^verbatim>\<open>Command::new(&shell)\<close> with the arguments of the command.\<close>

definition session_process :: "server_config \<Rightarrow> session_user \<Rightarrow> session_command \<Rightarrow> process_spec" where
  "session_process config user command =
     \<lparr>ps_program = effective_shell config user,
      ps_args = (case command of ShellCommand \<Rightarrow> [] | ExecCommand c \<Rightarrow> [''-c'', c]),
      ps_env = [], ps_cwd = None, ps_ids = None, ps_arg0 = None, ps_pty = False\<rparr>"

definition pipe_process ::
    "os \<Rightarrow> server_config \<Rightarrow> session_user \<Rightarrow> string option \<Rightarrow> session_command \<Rightarrow> process_spec" where
  "pipe_process os config user agent_socket_path command =
     configure_process os config user command agent_socket_path (session_process config user command)"

definition pty_process ::
    "os \<Rightarrow> server_config \<Rightarrow> session_user \<Rightarrow> pending_pty \<Rightarrow> string option \<Rightarrow> session_command \<Rightarrow> process_spec" where
  "pty_process os config user pty agent_socket_path command =
     (let p = configure_process os config user command agent_socket_path (session_process config user command) in
      p\<lparr>ps_env := ps_env p @ (case pp_term pty of None \<Rightarrow> [] | Some t \<Rightarrow> [(''TERM'', t)]),
        ps_pty := True\<rparr>)"

record running_session =
  rs_child_id :: "u32 option"
  rs_pty :: bool

section \<open>The state of a session channel\<close>

record ('r, 'w) session_state =
  ss_channel :: "('r, 'w) channel"
  ss_pending_pty :: "pending_pty option"
  ss_agent :: "string option"
  ss_session :: "running_session option"
  ss_log :: "os_event list"

definition session_start :: "('r, 'w) channel \<Rightarrow> ('r, 'w) session_state" where
  "session_start c = \<lparr>ss_channel = c, ss_pending_pty = None, ss_agent = None, ss_session = None, ss_log = []\<rparr>"

text \<open>A call to the operating system: it is recorded, and its answer may be an error.\<close>

definition os_call :: "os \<Rightarrow> os_event \<Rightarrow> (('r, 'w) session_state, server_error, unit) op" where
  "os_call os ev s = Some (map_sum Srv_Io id (os_do os (ss_log s) ev), s\<lparr>ss_log := ss_log s @ [ev]\<rparr>)"

fun os_calls :: "os \<Rightarrow> os_event list \<Rightarrow> (('r, 'w) session_state, server_error, unit) op" where
  "os_calls os [] = pret ()"
| "os_calls os (ev # evs) = pbind (os_call os ev) (\<lambda>_. os_calls os evs)"

definition write_stderr ::
    "'w write_all_fn \<Rightarrow> string \<Rightarrow> (('r, 'w) session_state, server_error, unit) op" where
  "write_stderr wr msg s = (case write_data wr (bstr msg) SSH_EXTENDED_DATA_STDERR (ss_channel s) of
       None \<Rightarrow> None
     | Some (res, c) \<Rightarrow> Some (map_sum Srv_Channel (\<lambda>_. ()) res, s\<lparr>ss_channel := c\<rparr>))"

text \<open>
  Starting the process. On a terminal, its slave side is cloned for the three standard streams before
  and its master side for input and output after the process is spawned.
\<close>

definition spawn_pipe_session_process ::
    "os \<Rightarrow> server_config \<Rightarrow> session_user \<Rightarrow> string option \<Rightarrow> session_command
     \<Rightarrow> (('r, 'w) session_state, server_error, running_session) op" where
  "spawn_pipe_session_process os config user agent_socket_path command =
     pbind (os_call os (Spawned (pipe_process os config user agent_socket_path command)))
       (\<lambda>_ s. Some (Ok \<lparr>rs_child_id = os_child_id os (ss_log s), rs_pty = False\<rparr>, s))"

definition spawn_pty_session_process ::
    "os \<Rightarrow> server_config \<Rightarrow> session_user \<Rightarrow> pending_pty \<Rightarrow> string option \<Rightarrow> session_command
     \<Rightarrow> (('r, 'w) session_state, server_error, running_session) op" where
  "spawn_pty_session_process os config user pty agent_socket_path command =
     pbind (os_calls os [OpenPty (to_winsize (pp_size pty)), TryClone, TryClone, TryClone,
         Spawned (pty_process os config user pty agent_socket_path command)])
       (\<lambda>_ s. let child_id = os_child_id os (ss_log s)
          in pbind (os_calls os [TryClone, TryClone]) (\<lambda>_. pret \<lparr>rs_child_id = child_id, rs_pty = True\<rparr>) s)"

definition spawn_session_process ::
    "os \<Rightarrow> server_config \<Rightarrow> session_user \<Rightarrow> session_command \<Rightarrow> (('r, 'w) session_state, server_error, running_session) op" where
  "spawn_session_process os config user command s = (case ss_pending_pty s of
       Some pty \<Rightarrow> spawn_pty_session_process os config user pty (ss_agent s) command s
     | None \<Rightarrow> spawn_pipe_session_process os config user (ss_agent s) command s)"

section \<open>The agent socket\<close>

definition agent_socket_paths :: "os \<Rightarrow> os_event list \<Rightarrow> string \<times> string" where
  "agent_socket_paths os log =
     (let socket_dir = path_join (os_temp_dir os)
            (''ssh3-agent-'' @ show_nat (os_pid os) @ ''-'' @ show_nat (os_nanos os log))
      in (socket_dir, path_join socket_dir (''agent.'' @ show_nat (os_pid os))))"

definition new_agent_socket_paths :: "os \<Rightarrow> (('r, 'w) session_state, server_error, string \<times> string) op" where
  "new_agent_socket_paths os s =
     (let (socket_dir, socket_path) = agent_socket_paths os (ss_log s)
      in pbind (os_calls os [CreateDir socket_dir, SetMode socket_dir 448]) (\<lambda>_. pret (socket_dir, socket_path)) s)"

text \<open>448 and 384 are the modes \<^verbatim>\<open>0o700\<close> and \<^verbatim>\<open>0o600\<close>.\<close>

definition socket_permission_calls :: "os \<Rightarrow> string \<Rightarrow> string \<Rightarrow> session_user \<Rightarrow> os_event list" where
  "socket_permission_calls os socket_dir socket_path user =
     [SetMode socket_dir 448, SetMode socket_path 384]
     @ (if su_uid user \<noteq> os_uid os \<or> su_gid user \<noteq> os_gid os
        then [Chown socket_dir (su_uid user) (su_gid user), Chown socket_path (su_uid user) (su_gid user)]
        else [])"

definition prepare_agent_socket_permissions ::
    "os \<Rightarrow> string \<Rightarrow> string \<Rightarrow> session_user \<Rightarrow> (('r, 'w) session_state, server_error, unit) op" where
  "prepare_agent_socket_permissions os socket_dir socket_path user =
     os_calls os (socket_permission_calls os socket_dir socket_path user)"

definition open_agent_socket_and_forward_agent ::
    "os \<Rightarrow> session_user \<Rightarrow> (('r, 'w) session_state, server_error, string) op" where
  "open_agent_socket_and_forward_agent os user =
     pbind (new_agent_socket_paths os) (\<lambda>(socket_dir, socket_path).
     pbind (os_call os (BindSocket socket_path)) (\<lambda>_.
     pbind (prepare_agent_socket_permissions os socket_dir socket_path user) (\<lambda>_. pret socket_path)))"

section \<open>Signals and window changes of a running process\<close>

text \<open>\<^verbatim>\<open>child_id as i32\<close> reads the pid as signed; a session on a terminal is signalled as a process group.\<close>

definition kill_target :: "u32 \<Rightarrow> bool \<Rightarrow> int" where
  "kill_target child_id pty = (if pty then sint (- child_id) else sint child_id)"

definition send_signal ::
    "os \<Rightarrow> running_session \<Rightarrow> signal_request \<Rightarrow> (('r, 'w) session_state, server_error, unit) op" where
  "send_signal os session r = (case parse_signal_request r of
       None \<Rightarrow> pfail (Srv_Io (io_error_new InvalidInput
         (''unsupported signal: '' @ from_utf8_lossy (sig_name_without_sig r))))
     | Some sig \<Rightarrow> (case rs_child_id session of
         None \<Rightarrow> pfail (Srv_Io (io_error_new OtherKind ''running session does not have a child pid''))
       | Some child_id \<Rightarrow> os_call os (Killed (kill_target child_id (rs_pty session)) sig)))"

definition apply_window_change ::
    "os \<Rightarrow> running_session \<Rightarrow> session_pty_size \<Rightarrow> (('r, 'w) session_state, server_error, unit) op" where
  "apply_window_change os session sz =
     (if rs_pty session then os_call os (Resized (to_winsize sz))
      else pfail (Srv_Io (io_error_new Unsupported ''window-change requires a PTY-backed session'')))"

definition write_input :: "os \<Rightarrow> bytes \<Rightarrow> (('r, 'w) session_state, server_error, unit) op" where
  "write_input os bytes = os_calls os [InputWritten bytes, InputFlushed]"

text \<open>An error of these two is reported on the channel; both are I/O errors.\<close>

fun show_server_io_error :: "server_error \<Rightarrow> string" where
  "show_server_io_error (Srv_Io e) = io_message e"
| "show_server_io_error _ = []"

definition report_error ::
    "'w write_all_fn \<Rightarrow> (('r, 'w) session_state, server_error, unit) op \<Rightarrow> (('r, 'w) session_state, server_error, unit) op" where
  "report_error wr f s = (case f s of
       None \<Rightarrow> None
     | Some (Ok _, s) \<Rightarrow> Some (Ok (), s)
     | Some (Err e, s) \<Rightarrow> write_stderr wr (show_server_io_error e @ [CHR 0x0A]) s)"

definition line :: "string \<Rightarrow> string" where
  "line s = s @ [CHR 0x0A]"

section \<open>Messages\<close>

definition start_command ::
    "os \<Rightarrow> 'w write_all_fn \<Rightarrow> server_config \<Rightarrow> session_user \<Rightarrow> session_command
     \<Rightarrow> (('r, 'w) session_state, server_error, unit) op" where
  "start_command os wr config user command s = (case ss_session s of
       None \<Rightarrow> pbind (spawn_session_process os config user command)
         (\<lambda>session. pupdate (\<lambda>s. s\<lparr>ss_session := Some session\<rparr>)) s
     | Some _ \<Rightarrow> write_stderr wr (line ''session is already running'') s)"

fun session_request ::
    "os \<Rightarrow> 'w write_all_fn \<Rightarrow> server_config \<Rightarrow> session_user \<Rightarrow> channel_request
     \<Rightarrow> (('r, 'w) session_state, server_error, unit) op" where
  "session_request os wr config user (Pty pty) s =
     (if ss_session s \<noteq> None
      then write_stderr wr (line ''cannot request a PTY after the session has started'') s
      else pupdate (\<lambda>s. s\<lparr>ss_pending_pty := Some \<lparr>pp_term = ssh_bytes_to_string (pty_term pty),
        pp_size = from_pty_request pty\<rparr>\<rparr>) s)"
| "session_request os wr config user Shell s = start_command os wr config user ShellCommand s"
| "session_request os wr config user (Exec exec) s = start_command os wr config user
     (ExecCommand (case ssh_bytes_to_string (exec_command exec) of None \<Rightarrow> [] | Some c \<Rightarrow> c)) s"
| "session_request os wr config user (Signal r) s = (case ss_session s of
       Some session \<Rightarrow> report_error wr (send_signal os session r) s
     | None \<Rightarrow> write_stderr wr (line ''cannot signal a session before it has started'') s)"
| "session_request os wr config user (WindowChange r) s = (let sz = from_window_change r in
     case ss_session s of
       Some session \<Rightarrow> report_error wr (apply_window_change os session sz) s
     | None \<Rightarrow> (case ss_pending_pty s of
         Some pty \<Rightarrow> pupdate (\<lambda>s. s\<lparr>ss_pending_pty := Some (pty\<lparr>pp_size := sz\<rparr>)\<rparr>) s
       | None \<Rightarrow> write_stderr wr (line ''window-change requires a pending or running PTY session'') s))"
| "session_request os wr config user other s =
     write_stderr wr (line (''unsupported session request: '' @ os_show_request os other)) s"

definition session_data ::
    "os \<Rightarrow> 'w write_all_fn \<Rightarrow> session_user \<Rightarrow> data_message \<Rightarrow> (('r, 'w) session_state, server_error, unit) op" where
  "session_data os wr user m s =
     (if data_type m \<noteq> SSH_EXTENDED_DATA_NONE
      then write_stderr wr (line ''unsupported extended data message'') s
      else case ss_session s of
          Some _ \<Rightarrow> write_input os (data m) s
        | None \<Rightarrow>
            if data m = bstr ''forward-agent'' then
              (if ss_agent s = None
               then pbind (open_agent_socket_and_forward_agent os user)
                 (\<lambda>path. pupdate (\<lambda>s. s\<lparr>ss_agent := Some path\<rparr>)) s
               else pret () s)
            else write_stderr wr (line ''cannot send session data before the session has started'') s)"

fun session_message ::
    "os \<Rightarrow> 'w write_all_fn \<Rightarrow> server_config \<Rightarrow> session_user \<Rightarrow> message
     \<Rightarrow> (('r, 'w) session_state, server_error, unit) op" where
  "session_message os wr config user (ChannelRequest r) s = session_request os wr config user (request r) s"
| "session_message os wr config user (Data m) s = session_data os wr user m s"
| "session_message os wr config user _ s = pret () s"

text \<open>The loop ends with the first error: of the channel, of the process or of a write.\<close>

partial_function (option) handle_session_channel ::
    "os \<Rightarrow> 'r read_exact_fn \<Rightarrow> 'w write_all_fn \<Rightarrow> server_config \<Rightarrow> session_user \<Rightarrow> ('r, 'w) session_state
     \<Rightarrow> (server_error \<times> ('r, 'w) session_state) option" where
  "handle_session_channel os rd wr config user s = (case next_message rd (ss_channel s) of
       None \<Rightarrow> None
     | Some (Err e, c) \<Rightarrow> Some (Srv_Channel e, s\<lparr>ss_channel := c\<rparr>)
     | Some (Ok m, c) \<Rightarrow> (case session_message os wr config user m (s\<lparr>ss_channel := c\<rparr>) of
         None \<Rightarrow> None
       | Some (Err e, s) \<Rightarrow> Some (e, s)
       | Some (Ok _, s) \<Rightarrow> handle_session_channel os rd wr config user s))"

section \<open>What a session may do\<close>

text \<open>
  The life of a session, as a specification: before its process is started only sockets and terminals
  are prepared; then one process is started, as the session's user; afterwards only that process is
  signalled, resized and fed.
\<close>

datatype session_phase = Idle | Running "u32 option" bool | Violated

fun grants :: "os \<Rightarrow> os_event list \<Rightarrow> os_event list \<Rightarrow> bool" where
  "grants os log [] \<longleftrightarrow> True"
| "grants os log (ev # evs) \<longleftrightarrow> os_do os log ev = Ok () \<and> grants os (log @ [ev]) evs"

definition agent_socket_calls :: "os \<Rightarrow> session_user \<Rightarrow> string \<Rightarrow> string \<Rightarrow> os_event list" where
  "agent_socket_calls os user dir path =
     [CreateDir dir, SetMode dir 448, BindSocket path] @ socket_permission_calls os dir path user"

text \<open>The socket was created in a directory of its own, private to the user, and every step succeeded.\<close>

definition agent_socket_granted :: "os \<Rightarrow> session_user \<Rightarrow> os_event list \<Rightarrow> string \<Rightarrow> bool" where
  "agent_socket_granted os user log path \<longleftrightarrow> (\<exists>pre dir post.
     agent_socket_paths os pre = (dir, path) \<and> log = pre @ agent_socket_calls os user dir path @ post
     \<and> grants os pre (agent_socket_calls os user dir path))"

definition runs_as_user :: "os \<Rightarrow> server_config \<Rightarrow> session_user \<Rightarrow> os_event list \<Rightarrow> process_spec \<Rightarrow> bool" where
  "runs_as_user os config user log p \<longleftrightarrow>
     ps_program p = effective_shell config user
   \<and> (case ps_ids p of None \<Rightarrow> su_uid user = os_uid os \<and> su_gid user = os_gid os
      | Some ids \<Rightarrow> ids = (su_uid user, su_gid user))
   \<and> map_of (ps_env p) ''HOME'' = Some (su_home_dir user)
   \<and> map_of (ps_env p) ''USER'' = Some (su_username user)
   \<and> map_of (ps_env p) ''LOGNAME'' = Some (su_username user)
   \<and> map_of (ps_env p) ''SHELL'' = Some (effective_shell config user)
   \<and> (case map_of (ps_env p) ''SSH_AUTH_SOCK'' of None \<Rightarrow> True
      | Some path \<Rightarrow> agent_socket_granted os user log path)"

fun phase_step ::
    "os \<Rightarrow> server_config \<Rightarrow> session_user \<Rightarrow> os_event list \<Rightarrow> session_phase \<Rightarrow> os_event \<Rightarrow> session_phase" where
  "phase_step os config user log Idle (Spawned p) =
     (if runs_as_user os config user log p then Running (os_child_id os (log @ [Spawned p])) (ps_pty p) else Violated)"
| "phase_step os config user log Idle (Killed _ _) = Violated"
| "phase_step os config user log Idle (Resized _) = Violated"
| "phase_step os config user log Idle (InputWritten _) = Violated"
| "phase_step os config user log Idle InputFlushed = Violated"
| "phase_step os config user log Idle _ = Idle"
| "phase_step os config user log (Running child pty) (Killed target sig) =
     (if Some target = map_option (\<lambda>c. kill_target c pty) child then Running child pty else Violated)"
| "phase_step os config user log (Running child pty) (Resized _) = (if pty then Running child pty else Violated)"
| "phase_step os config user log (Running child pty) (InputWritten _) = Running child pty"
| "phase_step os config user log (Running child pty) InputFlushed = Running child pty"
| "phase_step os config user log (Running child pty) TryClone = Running child pty"
| "phase_step os config user log _ _ = Violated"

fun phase_rev :: "os \<Rightarrow> server_config \<Rightarrow> session_user \<Rightarrow> os_event list \<Rightarrow> session_phase" where
  "phase_rev os config user [] = Idle"
| "phase_rev os config user (ev # evs) = phase_step os config user (rev evs) (phase_rev os config user evs) ev"

definition session_phase :: "os \<Rightarrow> server_config \<Rightarrow> session_user \<Rightarrow> os_event list \<Rightarrow> session_phase" where
  "session_phase os config user log = phase_rev os config user (rev log)"

lemma session_phase_Nil [simp]: "session_phase os config user [] = Idle"
  by (simp add: session_phase_def)

lemma session_phase_snoc [simp]:
  "session_phase os config user (log @ [ev]) = phase_step os config user log (session_phase os config user log) ev"
  by (simp add: session_phase_def)

lemma session_phase_stable:
  assumes "session_phase os config user log = ph" "list_all (\<lambda>ev. \<forall>l. phase_step os config user l ph ev = ph) evs"
  shows "session_phase os config user (log @ evs) = ph"
  using assms(2)
proof (induction evs rule: rev_induct)
  case (snoc ev evs)
  then show ?case
    by (simp flip: append_assoc)
qed (simp add: assms(1))

lemma grants_append: "grants os log (xs @ ys) \<longleftrightarrow> grants os log xs \<and> grants os (log @ xs) ys"
  by (induction xs arbitrary: log) simp_all

lemma os_calls_cases:
  assumes "os_calls os evs s = Some (res, s')"
  obtains (ok) "res = Ok ()" "s' = s\<lparr>ss_log := ss_log s @ evs\<rparr>" "grants os (ss_log s) evs"
    | (err) e k where "res = Err (Srv_Io e)" "s' = s\<lparr>ss_log := ss_log s @ take k evs\<rparr>"
  using assms
proof (induction evs arbitrary: s thesis)
  case Nil
  then show ?case
    by (simp add: pret_def)
next
  case (Cons ev evs)
  show ?case
  proof (cases "os_do os (ss_log s) ev")
    case (Inl e)
    with Cons.prems show ?thesis
      by (auto simp: os_call_def pbind_def intro: Cons.prems(2) [of e 1])
  next
    case (Inr u)
    then have run: "os_calls os evs (s\<lparr>ss_log := ss_log s @ [ev]\<rparr>) = Some (res, s')"
      using Cons.prems(3) by (simp add: os_call_def pbind_def)
    show ?thesis
    proof (rule Cons.IH [OF _ _ run])
      fix e k
      assume "res = Err (Srv_Io e)"
        "s' = s\<lparr>ss_log := ss_log s @ [ev]\<rparr>\<lparr>ss_log := ss_log (s\<lparr>ss_log := ss_log s @ [ev]\<rparr>) @ take k evs\<rparr>"
      then show thesis
        by (intro Cons.prems(2) [of e "Suc k"]) simp_all
    qed (use Inr in \<open>auto intro: Cons.prems(1)\<close>)
  qed
qed

lemma pbind_os_call_pret [simp]: "pbind (os_call os ev) pret = os_call os ev"
  by (auto simp: pbind_def os_call_def pret_def split: sum.splits intro!: ext)

lemma write_stderr_frame:
  assumes "write_stderr wr msg s = Some (res, s')"
  shows "\<exists>c. s' = s\<lparr>ss_channel := c\<rparr>"
  using assms by (auto simp: write_stderr_def split: option.splits prod.splits)

definition session_inv :: "os \<Rightarrow> server_config \<Rightarrow> session_user \<Rightarrow> ('r, 'w) session_state \<Rightarrow> bool" where
  "session_inv os config user s \<longleftrightarrow>
     session_phase os config user (ss_log s)
       = (case ss_session s of None \<Rightarrow> Idle | Some r \<Rightarrow> Running (rs_child_id r) (rs_pty r))
   \<and> (\<forall>path. ss_agent s = Some path \<longrightarrow> agent_socket_granted os user (ss_log s) path)"

text \<open>What an operation guarantees, whether it succeeds or fails.\<close>

definition keeps_session ::
    "os \<Rightarrow> server_config \<Rightarrow> session_user \<Rightarrow> (('e + 'a) \<times> ('r, 'w) session_state) option \<Rightarrow> bool" where
  "keeps_session os config user out \<longleftrightarrow> (\<forall>res s'. out = Some (res, s') \<longrightarrow>
     session_phase os config user (ss_log s') \<noteq> Violated \<and> (is_ok res \<longrightarrow> session_inv os config user s'))"

lemma session_inv_not_violated:
  "session_inv os config user s \<Longrightarrow> session_phase os config user (ss_log s) \<noteq> Violated"
  by (simp add: session_inv_def split: option.splits)

lemma keeps_write_stderr:
  "session_inv os config user s \<Longrightarrow> keeps_session os config user (write_stderr wr msg s)"
  using session_inv_not_violated [of os config user s]
  by (auto simp: keeps_session_def session_inv_def dest!: write_stderr_frame)

lemma agent_socket_granted_append:
  "agent_socket_granted os user log path \<Longrightarrow> agent_socket_granted os user (log @ evs) path"
  unfolding agent_socket_granted_def by (metis append_assoc)

abbreviation phase_of_session :: "('r, 'w) session_state \<Rightarrow> session_phase" where
  "phase_of_session s \<equiv> (case ss_session s of None \<Rightarrow> Idle | Some r \<Rightarrow> Running (rs_child_id r) (rs_pty r))"

abbreviation harmless :: "os \<Rightarrow> server_config \<Rightarrow> session_user \<Rightarrow> session_phase \<Rightarrow> os_event list \<Rightarrow> bool" where
  "harmless os config user ph evs \<equiv> list_all (\<lambda>ev. \<forall>l. phase_step os config user l ph ev = ph) evs"

lemma session_inv_log:
  assumes "session_inv os config user s" "harmless os config user (phase_of_session s) evs"
  shows "session_inv os config user (s\<lparr>ss_log := ss_log s @ evs\<rparr>)"
  using assms session_phase_stable [of os config user "ss_log s" "phase_of_session s" evs]
  by (simp add: session_inv_def agent_socket_granted_append)

lemma inv_os_calls:
  assumes inv: "session_inv os config user s" and h: "harmless os config user (phase_of_session s) evs"
    and run: "os_calls os evs s = Some (res, s')"
  shows "session_inv os config user s'"
  using run
proof (cases rule: os_calls_cases)
  case ok
  then show ?thesis
    using session_inv_log [OF inv h] by simp
next
  case (err e k)
  have "harmless os config user (phase_of_session s) (take k evs)"
    using h in_set_takeD unfolding list_all_iff by metis
  with err show ?thesis
    using session_inv_log [OF inv] by simp
qed

lemma keeps_session_inv:
  "(\<And>res s'. p s = Some (res, s') \<Longrightarrow> session_inv os config user s') \<Longrightarrow> keeps_session os config user (p s)"
  unfolding keeps_session_def using session_inv_not_violated by blast

lemma inv_write_stderr:
  "session_inv os config user s \<Longrightarrow> write_stderr wr msg s = Some (res, s') \<Longrightarrow> session_inv os config user s'"
  by (auto simp: session_inv_def dest!: write_stderr_frame)

lemma inv_send_signal:
  assumes "session_inv os config user s" "ss_session s = Some session" "send_signal os session r s = Some (res, s')"
  shows "session_inv os config user s'"
  using assms inv_os_calls [OF assms(1), of "[Killed (kill_target (the (rs_child_id session)) (rs_pty session)) (the (parse_signal_request r))]" res s']
  by (auto simp: send_signal_def pfail_def split: option.splits)

lemma inv_window_change:
  assumes "session_inv os config user s" "ss_session s = Some session"
    "apply_window_change os session sz s = Some (res, s')"
  shows "session_inv os config user s'"
  using assms inv_os_calls [OF assms(1), of "[Resized (to_winsize sz)]" res s']
  by (auto simp: apply_window_change_def pfail_def split: if_splits)

lemma inv_write_input:
  assumes "session_inv os config user s" "ss_session s = Some session" "write_input os bs s = Some (res, s')"
  shows "session_inv os config user s'"
  using assms inv_os_calls [OF assms(1), of "[InputWritten bs, InputFlushed]" res s']
  by (simp add: write_input_def)

lemma inv_report_error:
  assumes "\<And>res s'. f s = Some (res, s') \<Longrightarrow> session_inv os config user s'"
    and "report_error wr f s = Some (res, s')"
  shows "session_inv os config user s'"
  using assms(2) by (auto simp: report_error_def split: option.splits prod.splits sum.splits
      intro: assms(1) inv_write_stderr)

lemma runs_as_user_process:
  assumes "\<forall>path. agent = Some path \<longrightarrow> agent_socket_granted os user log path"
  shows "runs_as_user os config user log (pipe_process os config user agent command)"
    and "runs_as_user os config user log (pty_process os config user pty agent command)"
  using assms
  by (auto simp: runs_as_user_def pipe_process_def pty_process_def configure_process_def
      session_process_def Let_def split: option.splits)

lemma ps_pty_process [simp]:
  "ps_pty (pipe_process os config user agent command) = False"
  "ps_pty (pty_process os config user pty agent command) = True"
  by (simp_all add: pipe_process_def pty_process_def configure_process_def session_process_def Let_def)

lemma phase_take:
  assumes "\<forall>k\<le>length evs. session_phase os config user (log @ take k evs) \<noteq> Violated"
    and "os_calls os evs s = Some (res, s')" "ss_log s = log"
  shows "session_phase os config user (ss_log s') \<noteq> Violated"
  using assms(2)
proof (cases rule: os_calls_cases)
  case ok
  with assms(1) [rule_format, of "length evs"] assms(3) show ?thesis
    by simp
next
  case (err e k)
  with assms(1) [rule_format, of "min k (length evs)"] assms(3) show ?thesis
    by (cases "k \<le> length evs") (simp_all add: min_def)
qed

text \<open>Starting a process: the phase is \<open>Running\<close> afterwards, with the child that was started.\<close>

lemma spawn_pipe:
  assumes inv: "session_inv os config user s" and idle: "ss_session s = None"
    and run: "spawn_pipe_session_process os config user (ss_agent s) command s = Some (res, s')"
  shows "session_phase os config user (ss_log s') \<noteq> Violated"
    and "res = Ok session \<Longrightarrow> session_inv os config user (s'\<lparr>ss_session := Some session\<rparr>)"
proof -
  let ?p = "pipe_process os config user (ss_agent s) command"
  have "runs_as_user os config user (ss_log s) ?p"
    using inv by (intro runs_as_user_process(1)) (simp add: session_inv_def)
  with inv idle have ph: "session_phase os config user (ss_log s @ [Spawned ?p])
      = Running (os_child_id os (ss_log s @ [Spawned ?p])) False"
    by (simp add: session_inv_def)
  have s': "s' = s\<lparr>ss_log := ss_log s @ [Spawned ?p]\<rparr>"
    using run by (auto simp: spawn_pipe_session_process_def os_call_def pbind_def split: sum.splits)
  show "session_phase os config user (ss_log s') \<noteq> Violated"
    using ph by (simp add: s')
  show "session_inv os config user (s'\<lparr>ss_session := Some session\<rparr>)" if "res = Ok session"
    using run ph inv that
    by (auto simp: spawn_pipe_session_process_def os_call_def pbind_def session_inv_def
        agent_socket_granted_append split: sum.splits)
qed

lemma spawn_pty_phase:
  assumes inv: "session_inv os config user s" and idle: "ss_session s = None"
    and p: "p = pty_process os config user pty (ss_agent s) command"
    and pre: "pre = [OpenPty w, TryClone, TryClone, TryClone]"
  shows "k \<le> 4 \<Longrightarrow> session_phase os config user (ss_log s @ take k pre) = Idle"
    and "session_phase os config user (ss_log s @ pre @ [Spawned p])
      = Running (os_child_id os (ss_log s @ pre @ [Spawned p])) True"
proof -
  have idle_log: "session_phase os config user (ss_log s) = Idle"
    using inv idle by (simp add: session_inv_def)
  have "harmless os config user Idle pre"
    by (simp add: pre)
  then have "harmless os config user Idle (take j pre)" for j
    unfolding list_all_iff by (metis in_set_takeD)
  then have prefix: "session_phase os config user (ss_log s @ take j pre) = Idle" for j
    by (intro session_phase_stable idle_log)
  then show "session_phase os config user (ss_log s @ take k pre) = Idle" .
  have "runs_as_user os config user (ss_log s @ pre) p"
    unfolding p using inv
    by (intro runs_as_user_process(2)) (simp add: session_inv_def agent_socket_granted_append)
  moreover have "session_phase os config user (ss_log s @ pre) = Idle" "ps_pty p"
    using prefix [of 4] by (simp_all add: pre p)
  ultimately show "session_phase os config user (ss_log s @ pre @ [Spawned p])
      = Running (os_child_id os (ss_log s @ pre @ [Spawned p])) True"
    using session_phase_snoc [of os config user "ss_log s @ pre" "Spawned p"] by simp
qed

lemma spawn_pty_calls_phase:
  assumes inv: "session_inv os config user s" and idle: "ss_session s = None"
    and p: "p = pty_process os config user pty (ss_agent s) command"
    and pre: "pre = [OpenPty w, TryClone, TryClone, TryClone]"
    and run: "os_calls os (pre @ [Spawned p]) s = Some (res, s')"
  shows "session_phase os config user (ss_log s') \<noteq> Violated"
proof (rule phase_take [OF _ run refl], intro allI impI)
  fix j
  assume "j \<le> length (pre @ [Spawned p])"
  moreover have len: "length pre = 4"
    by (simp add: pre)
  ultimately consider "j \<le> 4" | "j = 5"
    by force
  then show "session_phase os config user (ss_log s @ take j (pre @ [Spawned p])) \<noteq> Violated"
    using spawn_pty_phase [OF inv idle p pre] len by cases simp_all
qed

lemma spawn_pty:
  assumes inv: "session_inv os config user s" and idle: "ss_session s = None"
    and run: "spawn_pty_session_process os config user pty (ss_agent s) command s = Some (res, s')"
  shows "session_phase os config user (ss_log s') \<noteq> Violated"
    and "res = Ok session \<Longrightarrow> session_inv os config user (s'\<lparr>ss_session := Some session\<rparr>)"
proof -
  define p where "p = pty_process os config user pty (ss_agent s) command"
  define pre where "pre = [OpenPty (to_winsize (pp_size pty)), TryClone, TryClone, TryClone]"
  define s1 where "s1 = s\<lparr>ss_log := ss_log s @ pre @ [Spawned p]\<rparr>"
  define child where "child = os_child_id os (ss_log s1)"
  note phases = spawn_pty_phase [OF inv idle p_def pre_def]
  have inv1: "session_inv os config user (s1\<lparr>ss_session := Some \<lparr>rs_child_id = child, rs_pty = True\<rparr>\<rparr>)"
    using phases(2) inv unfolding s1_def child_def
    by (simp add: session_inv_def agent_socket_granted_append)
  have calls: "spawn_pty_session_process os config user pty (ss_agent s) command
      = pbind (os_calls os (pre @ [Spawned p])) (\<lambda>_ s. let child_id = os_child_id os (ss_log s)
          in pbind (os_calls os [TryClone, TryClone]) (\<lambda>_. pret \<lparr>rs_child_id = child_id, rs_pty = True\<rparr>) s)"
    by (simp add: spawn_pty_session_process_def pre_def p_def)
  obtain r1 t1 where c1: "os_calls os (pre @ [Spawned p]) s = Some (r1, t1)"
    using run unfolding calls pbind_def by (auto split: option.splits)
  have goal: "session_phase os config user (ss_log s') \<noteq> Violated
      \<and> (res = Ok session \<longrightarrow> session_inv os config user (s'\<lparr>ss_session := Some session\<rparr>))"
    using c1
  proof (cases rule: os_calls_cases)
    case (err e k)
    then have "res = Err (Srv_Io e)" "s' = t1"
      using run c1 unfolding calls by (simp_all add: pbind_def)
    moreover have "session_phase os config user (ss_log t1) \<noteq> Violated"
      by (rule spawn_pty_calls_phase [OF inv idle p_def pre_def c1])
    ultimately show ?thesis
      by simp
  next
    case ok
    then have t1: "t1 = s1" "r1 = Ok ()"
      by (simp_all add: s1_def)
    obtain r2 t2 where c2: "os_calls os [TryClone, TryClone] s1 = Some (r2, t2)"
      and res: "res = map_sum id (\<lambda>_. \<lparr>rs_child_id = child, rs_pty = True\<rparr>) r2" "s' = t2"
      using run c1 unfolding calls child_def t1
      by (auto simp: pbind_def pret_def Let_def simp del: os_calls.simps split: option.splits sum.splits prod.splits)
    show ?thesis
      using c2
    proof (cases rule: os_calls_cases)
      case ok
      with session_inv_log [OF inv1, of "[TryClone, TryClone]"] res show ?thesis
        by (auto simp: session_inv_def)
    next
      case (err e k)
      have "harmless os config user (Running child True) (take k [TryClone, TryClone])"
        by (auto simp: list_all_iff dest!: in_set_takeD)
      from session_phase_stable [OF _ this, of "ss_log s1"] inv1 err res show ?thesis
        by (simp add: session_inv_def)
    qed
  qed
  then show "session_phase os config user (ss_log s') \<noteq> Violated"
    "res = Ok session \<Longrightarrow> session_inv os config user (s'\<lparr>ss_session := Some session\<rparr>)"
    by simp_all
qed

lemma keeps_start_command:
  assumes inv: "session_inv os config user s"
  shows "keeps_session os config user (start_command os wr config user command s)"
proof (cases "ss_session s")
  case None
  show ?thesis
    unfolding keeps_session_def
  proof (intro allI impI)
    fix res s'
    assume run: "start_command os wr config user command s = Some (res, s')"
    then obtain r1 t1 where c1: "spawn_session_process os config user command s = Some (r1, t1)"
      and res: "case r1 of Err e \<Rightarrow> res = Err e \<and> s' = t1
        | Ok session \<Rightarrow> res = Ok () \<and> s' = t1\<lparr>ss_session := Some session\<rparr>"
      by (auto simp: start_command_def None pbind_def pupdate_def split: option.splits sum.splits)
    have "session_phase os config user (ss_log t1) \<noteq> Violated"
      "r1 = Ok session \<Longrightarrow> session_inv os config user (t1\<lparr>ss_session := Some session\<rparr>)" for session
      using c1 spawn_pipe [OF inv None] spawn_pty [OF inv None]
      unfolding spawn_session_process_def by (auto split: option.splits)
    with res show "session_phase os config user (ss_log s') \<noteq> Violated \<and> (is_ok res \<longrightarrow> session_inv os config user s')"
      by (cases r1) auto
  qed
next
  case (Some r)
  with keeps_write_stderr [OF inv] show ?thesis
    by (simp add: keeps_session_def start_command_def)
qed

lemma open_agent_socket_eq:
  assumes paths: "agent_socket_paths os (ss_log s) = (dir, path)"
  shows "open_agent_socket_and_forward_agent os user s
    = pbind (os_calls os (agent_socket_calls os user dir path)) (\<lambda>_. pret path) s"
proof -
  have "new_agent_socket_paths os s
      = pbind (os_calls os [CreateDir dir, SetMode dir 448]) (\<lambda>_. pret (dir, path)) s"
    by (simp add: new_agent_socket_paths_def paths)
  then have "open_agent_socket_and_forward_agent os user s
      = pbind (pbind (os_calls os [CreateDir dir, SetMode dir 448]) (\<lambda>_. pret (dir, path)))
          (\<lambda>(socket_dir, socket_path).
             pbind (os_call os (BindSocket socket_path)) (\<lambda>_.
             pbind (prepare_agent_socket_permissions os socket_dir socket_path user) (\<lambda>_. pret socket_path))) s"
    unfolding open_agent_socket_and_forward_agent_def by (rule pbind_cong)
  then show ?thesis
    by (simp add: prepare_agent_socket_permissions_def agent_socket_calls_def pbind_assoc)
qed

lemma harmless_agent_socket: "harmless os config user Idle (agent_socket_calls os user dir path)"
  by (simp add: agent_socket_calls_def socket_permission_calls_def)

lemma keeps_open_agent_socket:
  assumes inv: "session_inv os config user s" and idle: "ss_session s = None"
  shows "keeps_session os config user (pbind (open_agent_socket_and_forward_agent os user)
     (\<lambda>path. pupdate (\<lambda>s. s\<lparr>ss_agent := Some path\<rparr>)) s)"
proof -
  obtain dir path where paths: "agent_socket_paths os (ss_log s) = (dir, path)"
    by (cases "agent_socket_paths os (ss_log s)")
  let ?evs = "agent_socket_calls os user dir path"
  show ?thesis
    unfolding keeps_session_def
  proof (intro allI impI)
    fix res s'
    assume run: "pbind (open_agent_socket_and_forward_agent os user)
      (\<lambda>path. pupdate (\<lambda>s. s\<lparr>ss_agent := Some path\<rparr>)) s = Some (res, s')"
    then obtain r1 t1 where c1: "os_calls os ?evs s = Some (r1, t1)"
      and res: "case r1 of Err e \<Rightarrow> res = Err e \<and> s' = t1 | Ok _ \<Rightarrow> res = Ok () \<and> s' = t1\<lparr>ss_agent := Some path\<rparr>"
      by (auto simp: pbind_def [of "open_agent_socket_and_forward_agent os user"] open_agent_socket_eq [OF paths]
          pbind_def [of "os_calls os ?evs"] pret_def pupdate_def split: option.splits sum.splits)
    have inv1: "session_inv os config user t1"
      by (rule inv_os_calls [OF inv _ c1]) (simp add: idle harmless_agent_socket)
    have "session_inv os config user s'" if "is_ok res"
    proof -
      from that res have s': "s' = t1\<lparr>ss_agent := Some path\<rparr>" "is_ok r1"
        by (auto split: sum.splits)
      from c1 s'(2) have t1: "t1 = s\<lparr>ss_log := ss_log s @ ?evs\<rparr>" "grants os (ss_log s) ?evs"
        by (auto elim: os_calls_cases)
      then have "agent_socket_granted os user (ss_log t1) path"
        unfolding agent_socket_granted_def using paths
        by (intro exI [of _ "ss_log s"] exI [of _ dir] exI [of _ "[]"]) simp
      with inv1 show ?thesis
        by (simp add: session_inv_def s')
    qed
    with res session_inv_not_violated [OF inv1]
    show "session_phase os config user (ss_log s') \<noteq> Violated \<and> (is_ok res \<longrightarrow> session_inv os config user s')"
      by (auto split: sum.splits)
  qed
qed

lemma keeps_update:
  "session_inv os config user (f s) \<Longrightarrow> keeps_session os config user (pupdate f s)"
  by (auto simp: keeps_session_def pupdate_def session_inv_not_violated)

lemma keeps_ret:
  "session_inv os config user s \<Longrightarrow> keeps_session os config user (pret a s)"
  by (auto simp: keeps_session_def pret_def session_inv_not_violated)

lemma keeps_report_error:
  assumes "\<And>res s'. f s = Some (res, s') \<Longrightarrow> session_inv os config user s'"
  shows "keeps_session os config user (report_error wr f s)"
  by (rule keeps_session_inv, erule inv_report_error [rotated]) (rule assms)

lemma keeps_session_request:
  assumes inv: "session_inv os config user s"
  shows "keeps_session os config user (session_request os wr config user r s)"
proof -
  have upd: "session_inv os config user (s\<lparr>ss_pending_pty := x\<rparr>)" for x
    using inv by (simp add: session_inv_def)
  note keeps = keeps_write_stderr [OF inv] keeps_start_command [OF inv] keeps_update [where s = s] upd
  show ?thesis
  proof (cases r)
    case (Signal sr)
    then show ?thesis
      using keeps inv_send_signal [OF inv] by (cases "ss_session s") (auto intro!: keeps_report_error)
  next
    case (WindowChange w)
    then show ?thesis
      using keeps inv_window_change [OF inv]
      by (cases "ss_session s"; cases "ss_pending_pty s") (auto simp: Let_def intro!: keeps_report_error keeps_update)
  qed (auto intro!: keeps)
qed

lemma keeps_session_data:
  assumes inv: "session_inv os config user s"
  shows "keeps_session os config user (session_data os wr user m s)"
  unfolding session_data_def
  using keeps_write_stderr [OF inv] keeps_ret [OF inv] keeps_open_agent_socket [OF inv]
    keeps_session_inv [of "write_input os (data m)" s os config user, OF inv_write_input [OF inv]]
  by (cases "ss_session s") auto

lemma keeps_session_message:
  assumes inv: "session_inv os config user s"
  shows "keeps_session os config user (session_message os wr config user m s)"
  by (cases m) (simp_all add: keeps_session_request keeps_session_data keeps_ret inv)

lemma session_inv_channel: "session_inv os config user (s\<lparr>ss_channel := c\<rparr>) = session_inv os config user s"
  by (simp add: session_inv_def)

lemma session_inv_start: "session_inv os config user (session_start c)"
  by (simp add: session_inv_def session_start_def)

lemma handle_session_channel_phase:
  assumes "handle_session_channel os rd wr config user s = Some (e, s')" "session_inv os config user s"
  shows "session_phase os config user (ss_log s') \<noteq> Violated"
proof -
  have "session_inv os config user s \<longrightarrow> session_phase os config user (ss_log (snd (e, s'))) \<noteq> Violated"
  proof (rule handle_session_channel.raw_induct [OF _ assms(1)])
    fix loop os rd wr config user and s :: "('a, 'b) session_state" and out
    assume IH: "\<And>os rd wr config user (s :: ('a, 'b) session_state) out. loop os rd wr config user s = Some out
        \<Longrightarrow> session_inv os config user s \<longrightarrow> session_phase os config user (ss_log (snd out)) \<noteq> Violated"
      and run: "(case next_message rd (ss_channel s) of
           None \<Rightarrow> None
         | Some (Err e, c) \<Rightarrow> Some (Srv_Channel e, s\<lparr>ss_channel := c\<rparr>)
         | Some (Ok m, c) \<Rightarrow> (case session_message os wr config user m (s\<lparr>ss_channel := c\<rparr>) of
             None \<Rightarrow> None
           | Some (Err e, s) \<Rightarrow> Some (e, s)
           | Some (Ok _, s) \<Rightarrow> loop os rd wr config user s)) = Some out"
    show "session_inv os config user s \<longrightarrow> session_phase os config user (ss_log (snd out)) \<noteq> Violated"
    proof
      assume inv: "session_inv os config user s"
      then have keeps: "keeps_session os config user (session_message os wr config user m (s\<lparr>ss_channel := c\<rparr>))" for m c
        by (simp add: keeps_session_message session_inv_channel)
      obtain res c where nm: "next_message rd (ss_channel s) = Some (res, c)"
        using run by (auto split: option.splits)
      show "session_phase os config user (ss_log (snd out)) \<noteq> Violated"
      proof (cases res)
        case (Inl e)
        with run nm session_inv_not_violated [OF inv] show ?thesis
          by auto
      next
        case (Inr m)
        then obtain r s1 where msg: "session_message os wr config user m (s\<lparr>ss_channel := c\<rparr>) = Some (r, s1)"
          using run nm by (auto split: option.splits)
        from keeps [of m c] have "session_phase os config user (ss_log s1) \<noteq> Violated"
          "is_ok r \<Longrightarrow> session_inv os config user s1"
          by (simp_all add: keeps_session_def msg)
        with run nm Inr msg IH [of os rd wr config user s1 out] show ?thesis
          by (cases r) auto
      qed
    qed
  qed
  with assms(2) show ?thesis
    by simp
qed

fun is_spawned :: "os_event \<Rightarrow> bool" where
  "is_spawned (Spawned _) = True"
| "is_spawned _ = False"

lemma one_process:
  "session_phase os config user log \<noteq> Violated \<Longrightarrow>
    length (filter is_spawned log) = (if session_phase os config user log = Idle then 0 else 1)"
proof (induction log rule: rev_induct)
  case (snoc ev log)
  then show ?case
    by (cases "session_phase os config user log"; cases ev) (auto split: if_splits)
qed simp

section \<open>The session loop ends\<close>

text \<open>Operations that return, on every state, and leave the receiving side of the channel alone.\<close>

definition returns :: "(('r, 'w) session_state, 'e, 'a) op \<Rightarrow> bool" where
  "returns p \<longleftrightarrow> (\<forall>s. \<exists>res s'. p s = Some (res, s') \<and> recv (ss_channel s') = recv (ss_channel s))"

lemma returns_pbind:
  assumes "returns p" "\<And>a. returns (f a)"
  shows "returns (pbind p f)"
  unfolding returns_def
proof
  fix s
  obtain res s1 where p: "p s = Some (res, s1)" "recv (ss_channel s1) = recv (ss_channel s)"
    using assms(1) unfolding returns_def by blast
  show "\<exists>res s'. pbind p f s = Some (res, s') \<and> recv (ss_channel s') = recv (ss_channel s)"
  proof (cases res)
    case (Inr a)
    then show ?thesis
      using p assms(2) [of a] unfolding returns_def by (auto simp: pbind_def dest!: spec [of _ s1])
  qed (use p in \<open>simp add: pbind_def\<close>)
qed

lemma returns_simps:
  "returns (pret a)" "returns (pfail e)" "returns (os_call os ev)"
  by (simp_all add: returns_def pret_def pfail_def os_call_def)

lemma returns_pupdate: "(\<And>s. recv (ss_channel (f s)) = recv (ss_channel s)) \<Longrightarrow> returns (pupdate f)"
  by (simp add: returns_def pupdate_def)

lemma returns_os_calls: "returns (os_calls os evs)"
  by (induction evs) (simp_all add: returns_simps returns_pbind)

lemma returns_state: "(\<And>s. returns (f s)) \<Longrightarrow> returns (\<lambda>s. f s s)"
  by (simp add: returns_def)

text \<open>An operation that looks at the state and then runs one of several operations.\<close>

lemma returns_choice: "(\<And>s. \<exists>q. returns q \<and> p s = q s) \<Longrightarrow> returns p"
  unfolding returns_def by metis

lemma returns_write_stderr:
  assumes "length msg < 2 ^ 60"
  shows "returns (write_stderr wr msg :: (('r, 'w) session_state, server_error, unit) op)"
  unfolding returns_def
proof
  fix s :: "('r, 'w) session_state"
  have "varint_ok SSH_EXTENDED_DATA_STDERR" "length (bstr msg) \<le> unat MAX_VARINT"
    using assms by (simp_all add: SSH_EXTENDED_DATA_STDERR_def max_varint_defs)
  from write_data_returns [OF this]
  obtain res c where "write_data wr (bstr msg) SSH_EXTENDED_DATA_STDERR (ss_channel s) = Some (res, c)"
    "recv c = recv (ss_channel s)"
    by blast
  then show "\<exists>res s'. write_stderr wr msg s = Some (res, s') \<and> recv (ss_channel s') = recv (ss_channel s)"
    by (simp add: write_stderr_def)
qed

text \<open>The texts that the operating system and the derived \<^verbatim>\<open>Debug\<close> produce fit into memory.\<close>

definition os_texts_short :: "os \<Rightarrow> bool" where
  "os_texts_short os \<longleftrightarrow>
     (\<forall>r. payload_ok r \<longrightarrow> length (os_show_request os r) < 2 ^ 50)
   \<and> (\<forall>log ev e. os_do os log ev = Err e \<longrightarrow> length (io_message e) < 2 ^ 50)"

lemma returns_report_error:
  assumes "returns f" "\<And>s e s'. f s = Some (Err e, s') \<Longrightarrow> length (show_server_io_error e) < 2 ^ 50"
  shows "returns (report_error wr f)"
  unfolding returns_def
proof
  fix s
  obtain res s1 where f: "f s = Some (res, s1)" "recv (ss_channel s1) = recv (ss_channel s)"
    using assms(1) unfolding returns_def by blast
  show "\<exists>res s'. report_error wr f s = Some (res, s') \<and> recv (ss_channel s') = recv (ss_channel s)"
  proof (cases res)
    case (Inl e)
    with f assms(2) [of s e s1] have "length (show_server_io_error e @ [CHR 0x0A]) < 2 ^ 60"
      by simp
    from returns_write_stderr [OF this, of wr] f Inl show ?thesis
      unfolding returns_def by (auto simp: report_error_def dest!: spec [of _ s1])
  qed (use f in \<open>simp add: report_error_def\<close>)
qed

lemma returns_send_signal:
  assumes "os_texts_short os" "ssh_string_ok (sig_name_without_sig r)"
  shows "returns (report_error wr (send_signal os session r))"
proof (rule returns_report_error)
  show "returns (send_signal os session r)"
    by (simp add: send_signal_def returns_simps split: option.split)
  fix s e s'
  assume "send_signal os session r s = Some (Err e, s')"
  moreover have "length (from_utf8_lossy (sig_name_without_sig r)) < 2 ^ 30"
    using from_utf8_lossy_length [of "sig_name_without_sig r"] assms(2)
    by (simp add: ssh_string_ok_def MAX_SSH_STRING_LEN_def)
  ultimately show "length (show_server_io_error e) < 2 ^ 50"
    using assms(1)
    by (auto simp: send_signal_def pfail_def os_call_def os_texts_short_def io_error_new_def map_sum_def
        split: option.splits sum.splits)
qed

lemma returns_window_change:
  assumes "os_texts_short os"
  shows "returns (report_error wr (apply_window_change os session sz))"
proof (rule returns_report_error)
  show "returns (apply_window_change os session sz)"
    by (simp add: apply_window_change_def returns_simps)
  show "length (show_server_io_error e) < 2 ^ 50" if "apply_window_change os session sz s = Some (Err e, s')" for s e s'
    using assms that
    by (auto simp: apply_window_change_def pfail_def os_call_def os_texts_short_def io_error_new_def map_sum_def
        split: if_splits sum.splits)
qed

lemma returns_spawn: "returns (spawn_session_process os config user command)"
proof -
  have "returns (spawn_pipe_session_process os config user agent command)" for agent
    unfolding spawn_pipe_session_process_def
    by (intro returns_pbind returns_simps) (simp add: returns_def)
  moreover have "returns (spawn_pty_session_process os config user pty agent command)" for pty agent
    unfolding spawn_pty_session_process_def Let_def
    by (rule returns_pbind, rule returns_os_calls, rule returns_state, rule returns_pbind, rule returns_os_calls,
        rule returns_simps)
  ultimately show ?thesis
    by (intro returns_choice) (auto simp: spawn_session_process_def split: option.split)
qed

lemma returns_start_command:
  "returns (start_command os wr config user command :: (('r, 'w) session_state, server_error, unit) op)"
proof (rule returns_choice)
  fix s :: "('r, 'w) session_state"
  have "returns (write_stderr wr (line ''session is already running''))"
    by (rule returns_write_stderr) (simp add: line_def)
  moreover have "returns (pbind (spawn_session_process os config user command)
      (\<lambda>session. pupdate (\<lambda>s. s\<lparr>ss_session := Some session\<rparr>)))"
    by (intro returns_pbind returns_spawn returns_pupdate) simp
  ultimately show "\<exists>q. returns q \<and> start_command os wr config user command s = q s"
    by (cases "ss_session s") (auto simp: start_command_def)
qed

lemma returns_open_agent_socket:
  "returns (open_agent_socket_and_forward_agent os user :: (('r, 'w) session_state, server_error, string) op)"
proof (rule returns_choice)
  fix s :: "('r, 'w) session_state"
  obtain dir path where "agent_socket_paths os (ss_log s) = (dir, path)"
    by (cases "agent_socket_paths os (ss_log s)")
  moreover have "returns (pbind (os_calls os (agent_socket_calls os user dir path)) (\<lambda>_. pret path))"
    by (intro returns_pbind returns_os_calls returns_simps)
  ultimately show "\<exists>q. returns q \<and> open_agent_socket_and_forward_agent os user s = q s"
    using open_agent_socket_eq by blast
qed

lemma returns_session_request:
  assumes "os_texts_short os" "payload_ok r"
  shows "returns (session_request os wr config user r :: (('r, 'w) session_state, server_error, unit) op)"
proof (rule returns_choice)
  fix s :: "('r, 'w) session_state"
  have err: "returns (write_stderr wr (line msg) :: (('r, 'w) session_state, server_error, unit) op)" if "length msg < 2 ^ 59" for msg
    using that by (intro returns_write_stderr) (simp add: line_def)
  have "length (os_show_request os r) < 2 ^ 50"
    using assms by (simp add: os_texts_short_def)
  then have other: "returns (write_stderr wr (line (''unsupported session request: '' @ os_show_request os r))
      :: (('r, 'w) session_state, server_error, unit) op)"
    by (intro err) simp
  have upd: "returns (pupdate (\<lambda>s. s\<lparr>ss_pending_pty := x\<rparr>) :: (('r, 'w) session_state, server_error, unit) op)" for x
    by (rule returns_pupdate) simp
  have start: "returns (start_command os wr config user command :: (('r, 'w) session_state, server_error, unit) op)" for command
    by (rule returns_start_command)
  have signal: "returns (report_error wr (send_signal os session x) :: (('r, 'w) session_state, server_error, unit) op)" if "r = Signal x" for session x
    using assms that by (intro returns_send_signal) simp_all
  have window: "returns (report_error wr (apply_window_change os session sz) :: (('r, 'w) session_state, server_error, unit) op)" for session sz
    by (rule returns_window_change [OF assms(1)])
  show "\<exists>q. returns q \<and> session_request os wr config user r s = q s"
  proof (cases r)
    case (Pty p)
    show ?thesis
      using err [of "''cannot request a PTY after the session has started''"] upd
      by (cases "ss_session s") (auto simp: Pty)
  next
    case (Signal sr)
    then show ?thesis
      using err [of "''cannot signal a session before it has started''"] signal
      by (cases "ss_session s") auto
  next
    case (WindowChange w)
    then show ?thesis
      using err [of "''window-change requires a pending or running PTY session''"] upd window
      by (cases "ss_session s"; cases "ss_pending_pty s") (auto simp: Let_def)
  qed (use other start in auto)
qed

lemma returns_session_data:
  "returns (session_data os wr user m :: (('r, 'w) session_state, server_error, unit) op)"
proof (rule returns_choice)
  fix s :: "('r, 'w) session_state"
  have err: "returns (write_stderr wr (line msg) :: (('r, 'w) session_state, server_error, unit) op)" if "length msg < 2 ^ 59" for msg
    using that by (intro returns_write_stderr) (simp add: line_def)
  have agent: "returns (pbind (open_agent_socket_and_forward_agent os user)
      (\<lambda>path. pupdate (\<lambda>s. s\<lparr>ss_agent := Some path\<rparr>)) :: (('r, 'w) session_state, server_error, unit) op)"
    by (intro returns_pbind returns_open_agent_socket returns_pupdate) simp
  have none: "returns (pret () :: (('r, 'w) session_state, server_error, unit) op)"
    by (rule returns_simps)
  have input: "returns (write_input os (data m) :: (('r, 'w) session_state, server_error, unit) op)"
    by (simp only: write_input_def returns_os_calls)
  show "\<exists>q. returns q \<and> session_data os wr user m s = q s"
    using err [of "''unsupported extended data message''"] agent input none
      err [of "''cannot send session data before the session has started''"]
    by (cases "ss_session s") (auto simp: session_data_def)
qed

lemma session_message_eqs:
  "session_message os wr config user (ChannelRequest r) = session_request os wr config user (request r)"
  "session_message os wr config user (Data d) = session_data os wr user d"
  "session_message os wr config user (ChannelOpenConfirmation x) = pret ()"
  "session_message os wr config user (ChannelOpenFailure y) = pret ()"
  by (simp_all add: fun_eq_iff)

lemma returns_session_message:
  assumes "os_texts_short os" "message_ok m"
  shows "returns (session_message os wr config user m)"
  using assms
  by (cases m) (simp_all add: session_message_eqs returns_session_request returns_session_data returns_simps)

context byte_source
begin

lemma handle_session_channel_returns:
  assumes "os_texts_short os"
  shows "\<exists>e s'. handle_session_channel os rd wr config user s = Some (e, s')"
proof (induction "length (view (recv (ss_channel s)))" arbitrary: s rule: less_induct)
  case less
  obtain res c where nm: "next_message rd (ss_channel s) = Some (res, c)"
    using next_message_returns by fastforce
  show ?case
  proof (cases res)
    case (Inr m)
    with next_message_Ok [of "ss_channel s" m c] nm
    have m: "length (view (recv c)) < length (view (recv (ss_channel s)))" "message_ok m"
      by simp_all
    from returns_session_message [OF assms m(2)]
    obtain r s1 where msg: "session_message os wr config user m (s\<lparr>ss_channel := c\<rparr>) = Some (r, s1)"
      and "recv (ss_channel s1) = recv (ss_channel (s\<lparr>ss_channel := c\<rparr>))"
      unfolding returns_def by blast
    with m(1) less [of s1] show ?thesis
      using nm Inr by (cases r) (simp_all add: handle_session_channel.simps [of os rd wr config user s])
  qed (use nm in \<open>simp add: handle_session_channel.simps [of os rd wr config user s]\<close>)
qed

end

section \<open>Properties of sessions\<close>

text \<open>A system that grants every call, for concrete runs: the child has pid 42.\<close>

definition demo_os :: os where
  "demo_os = \<lparr>os_uid = 0, os_gid = 0, os_path_var = None, os_is_dir = (\<lambda>_. True), os_pid = 7,
     os_temp_dir = ''/tmp'', os_nanos = (\<lambda>_. 5), os_do = (\<lambda>_ _. Ok ()), os_child_id = (\<lambda>_. Some 42),
     os_show_request = (\<lambda>_. ''?'')\<rparr>"

text \<open>A peer that asks for the command \<^verbatim>\<open>ls\<close> and interrupts it.\<close>

definition demo_session_input :: bytes where
  "demo_session_input = [0x40, 98, 4, 101, 120, 101, 99, 0, 2, 108, 115]
     @ [0x40, 98, 6, 115, 105, 103, 110, 97, 108, 0, 3, 73, 78, 84]"

declare handle_session_channel.simps [code]

lemma demo_session_run:
  "map_option (\<lambda>(e, s). ss_log s) (handle_session_channel demo_os brs_read_exact rss_write_all demo_config demo_user
     (session_start (memory_channel 100 None demo_session_input)))
   = Some [Spawned (pipe_process demo_os demo_config demo_user None (ExecCommand ''ls'')), Killed 42 SIGINT]"
  by code_simp

text \<open>
  C3: A session channel stays within its rights, whatever its peer sends and whatever the operating
  system answers. From the calls that \<^verbatim>\<open>handle_session_channel\<close> has made when it ends: at most one process
  was started; it is the user's shell, runs with the user's uid and gid (set explicitly unless they are
  the server's own), with the user's \<^verbatim>\<open>HOME\<close>, \<^verbatim>\<open>USER\<close>, \<^verbatim>\<open>LOGNAME\<close> and \<^verbatim>\<open>SHELL\<close>, and an agent socket it is told of
  was created in a directory of mode 0700 and given to the user, every step granted. Nothing is
  signalled, resized or fed before the process was started; afterwards only that process is, as a
  process group when it runs on a terminal, and it is resized only if it does.
\<close>

theorem session_process_lifecycle:
  assumes "handle_session_channel os rd wr config user (session_start c) = Some (e, s)"
  shows "session_phase os config user (ss_log s) \<noteq> Violated \<and> length (filter is_spawned (ss_log s)) \<le> 1"
  using handle_session_channel_phase [OF assms session_inv_start] one_process [of os config user "ss_log s"]
  by simp

theorem session_process_lifecycle_witness:
  "\<exists>e s. handle_session_channel demo_os brs_read_exact rss_write_all demo_config demo_user
       (session_start (memory_channel 100 None demo_session_input)) = Some (e, s)
     \<and> ss_log s = [Spawned (pipe_process demo_os demo_config demo_user None (ExecCommand ''ls'')), Killed 42 SIGINT]
     \<and> session_phase demo_os demo_config demo_user (ss_log s) \<noteq> Violated"
  using demo_session_run session_process_lifecycle [of demo_os brs_read_exact rss_write_all demo_config demo_user
      "memory_channel 100 None demo_session_input"]
  by (auto split: prod.splits)

text \<open>
  C30: A session channel always comes to an end. On every finite input and whatever the writes and the
  operating system answer, \<^verbatim>\<open>handle_session_channel\<close> returns: no message makes it loop or panic, as
  long as the error texts it reports fit into memory. It returns an error in all cases: the loop has
  no other exit than the error of the channel, of the process or of a write.
\<close>

theorem session_channel_ends:
  assumes "byte_source rd view adv eof" "os_texts_short os"
  shows "\<exists>e s'. handle_session_channel os rd wr config user s = Some (e, s')"
  using byte_source.handle_session_channel_returns [OF assms] .

theorem session_channel_ends_witness:
  "\<exists>e s'. handle_session_channel demo_os brs_read_exact rss_write_all demo_config demo_user
     (session_start (memory_channel 100 None demo_session_input)) = Some (e, s')"
proof -
  have "os_texts_short demo_os"
    by (simp add: os_texts_short_def demo_os_def)
  from session_channel_ends [OF brs.byte_source_axioms this] show ?thesis .
qed

end
