(* ===== verification/Forwarding.thy ===== *)
theory Forwarding
  imports Server_Session
begin

text \<open>
  The tasks that copy between a channel and something local: the output pumps of a process and the
  report of its exit status, agent forwarding on the server (\<^verbatim>\<open>handle_agent_socket_conn\<close>) and on the client
  (\<^verbatim>\<open>forward_agent_channel\<close>), TCP forwarding, and the dispatch on the type of an accepted channel
  (\<^verbatim>\<open>ssh3-server/src/lib.rs\<close>, \<^verbatim>\<open>ssh3-client/src/lib.rs\<close>). Tasks that run concurrently are step functions over their
  common state; a schedule is the list of what happens next, in any order. \<^verbatim>\<open>flush\<close> of a socket does
  nothing and is left out.
\<close>

section \<open>Buffers\<close>

text \<open>\<^verbatim>\<open>usize\<close> has 64 bits, so the conversion of the packet size never fails.\<close>

definition copy_buffer_len :: "('r, 'w) channel \<Rightarrow> nat" where
  "copy_buffer_len c = max (unat (info_max_packet_size (info c))) 1"

section \<open>The output of a process\<close>

text \<open>One iteration of \<^verbatim>\<open>pump_process_output\<close>: what was read is written; nothing read is the end.\<close>

definition pump_iteration ::
    "'w write_all_fn \<Rightarrow> u64 \<Rightarrow> io_error + bytes \<Rightarrow> (('r, 'w) channel, server_error, bool) op" where
  "pump_iteration wr ty r c = (case r of
       Err e \<Rightarrow> Some (Err (Srv_Io e), c)
     | Ok chunk \<Rightarrow> if chunk = [] then Some (Ok True, c)
         else (case write_data wr chunk ty c of
             None \<Rightarrow> None
           | Some (Err e, c) \<Rightarrow> Some (Err (Srv_Channel e), c)
           | Some (Ok _, c) \<Rightarrow> Some (Ok False, c)))"

definition exit_status_of :: "io_error + int option \<Rightarrow> u64" where
  "exit_status_of status = (let code = (case status of Ok (Some c) \<Rightarrow> c | _ \<Rightarrow> 1) in of_int (max code 0))"

definition exit_status_message :: "u64 \<Rightarrow> channel_request_message" where
  "exit_status_message code = \<lparr>want_reply = False, request = ExitStatus \<lparr>exit_status = code\<rparr>\<rparr>"

text \<open>
  The two pumps of a process and the task that waits for it: \<open>o_stdout\<close> and \<open>o_stderr\<close> tell that a pump has
  ended, in whatever way; a process on a terminal has no second pump.
\<close>

record ('r, 'w) process_output =
  o_channel :: "('r, 'w) channel"
  o_stdout :: bool
  o_stderr :: bool
  o_exit :: "(io_error + int option) option"
  o_reported :: bool

datatype output_event =
    StdoutRead "io_error + bytes"
  | StderrRead "io_error + bytes"
  | ChildExited "io_error + int option"

definition output_start :: "bool \<Rightarrow> ('r, 'w) channel \<Rightarrow> ('r, 'w) process_output" where
  "output_start pty c = \<lparr>o_channel = c, o_stdout = False, o_stderr = pty, o_exit = None, o_reported = False\<rparr>"

definition pump_ended :: "server_error + bool \<Rightarrow> bool" where
  "pump_ended r \<longleftrightarrow> (case r of Ok b \<Rightarrow> b | Err _ \<Rightarrow> True)"

fun output_event_step ::
    "'w write_all_fn \<Rightarrow> output_event \<Rightarrow> ('r, 'w) process_output \<Rightarrow> ('r, 'w) process_output option" where
  "output_event_step wr (StdoutRead r) s =
     (if o_stdout s then Some s
      else case pump_iteration wr SSH_EXTENDED_DATA_NONE r (o_channel s) of
          None \<Rightarrow> None
        | Some (res, c) \<Rightarrow> Some (s\<lparr>o_channel := c, o_stdout := pump_ended res\<rparr>))"
| "output_event_step wr (StderrRead r) s =
     (if o_stderr s then Some s
      else case pump_iteration wr SSH_EXTENDED_DATA_STDERR r (o_channel s) of
          None \<Rightarrow> None
        | Some (res, c) \<Rightarrow> Some (s\<lparr>o_channel := c, o_stderr := pump_ended res\<rparr>))"
| "output_event_step wr (ChildExited status) s =
     Some (if o_exit s = None then s\<lparr>o_exit := Some status\<rparr> else s)"

text \<open>Once the process has exited and both pumps have ended, the status is sent; errors are ignored.\<close>

definition report_exit :: "'w write_all_fn \<Rightarrow> ('r, 'w) process_output \<Rightarrow> ('r, 'w) process_output option" where
  "report_exit wr s = (case o_exit s of
       Some status \<Rightarrow>
         if o_stdout s \<and> o_stderr s \<and> \<not> o_reported s
         then (case send_request wr (exit_status_message (exit_status_of status)) (o_channel s) of
             None \<Rightarrow> None
           | Some (_, c) \<Rightarrow> Some (s\<lparr>o_channel := c, o_reported := True\<rparr>))
         else Some s
     | None \<Rightarrow> Some s)"

fun run_output ::
    "'w write_all_fn \<Rightarrow> output_event list \<Rightarrow> ('r, 'w) process_output \<Rightarrow> ('r, 'w) process_output option" where
  "run_output wr [] s = Some s"
| "run_output wr (ev # evs) s = do {
     s \<leftarrow> output_event_step wr ev s;
     s \<leftarrow> report_exit wr s;
     run_output wr evs s
   }"

section \<open>Relays between a channel and a socket\<close>

datatype relay_error = Relay_Channel channel_error | Relay_Io io_error

record ('r, 'w, 'k) relay =
  rl_channel :: "('r, 'w) channel"
  rl_socket :: 'k
  rl_to :: "(relay_error + unit) option"
  rl_from :: "(relay_error + unit) option"

definition relay_start :: "('r, 'w) channel \<Rightarrow> 'k \<Rightarrow> ('r, 'w, 'k) relay" where
  "relay_start c k = \<lparr>rl_channel = c, rl_socket = k, rl_to = None, rl_from = None\<rparr>"

text \<open>One iteration of the task that writes to the socket.\<close>

definition to_socket_iteration ::
    "'r read_exact_fn \<Rightarrow> 'k write_all_fn \<Rightarrow> ('r, 'w, 'k) relay \<Rightarrow> ('r, 'w, 'k) relay option" where
  "to_socket_iteration rd sw s = (case next_message rd (rl_channel s) of
       None \<Rightarrow> None
     | Some (Err e, c) \<Rightarrow> Some (s\<lparr>rl_channel := c, rl_to := Some (Err (Relay_Channel e))\<rparr>)
     | Some (Ok m, c) \<Rightarrow> (case m of
         Data d \<Rightarrow>
           if data_type d = SSH_EXTENDED_DATA_NONE
           then (case sw (data d) (rl_socket s) of
               (Ok _, k) \<Rightarrow> Some (s\<lparr>rl_channel := c, rl_socket := k\<rparr>)
             | (Err e, k) \<Rightarrow> Some (s\<lparr>rl_channel := c, rl_socket := k, rl_to := Some (Err (Relay_Io e))\<rparr>))
           else Some (s\<lparr>rl_channel := c\<rparr>)
       | _ \<Rightarrow> Some (s\<lparr>rl_channel := c\<rparr>)))"

text \<open>One iteration of the task that reads from the socket; \<open>at_eof\<close> is what it does at the end of the data.\<close>

definition from_socket_iteration ::
    "'w write_all_fn \<Rightarrow> (('r, 'w) channel \<Rightarrow> ('r, 'w) channel) \<Rightarrow> io_error + bytes
     \<Rightarrow> ('r, 'w, 'k) relay \<Rightarrow> ('r, 'w, 'k) relay option" where
  "from_socket_iteration wr at_eof r s = (case r of
       Err e \<Rightarrow> Some (s\<lparr>rl_from := Some (Err (Relay_Io e))\<rparr>)
     | Ok chunk \<Rightarrow> if chunk = [] then Some (s\<lparr>rl_channel := at_eof (rl_channel s), rl_from := Some (Ok ())\<rparr>)
         else (case write_data wr chunk SSH_EXTENDED_DATA_NONE (rl_channel s) of
             None \<Rightarrow> None
           | Some (Err e, c) \<Rightarrow> Some (s\<lparr>rl_channel := c, rl_from := Some (Err (Relay_Channel e))\<rparr>)
           | Some (Ok _, c) \<Rightarrow> Some (s\<lparr>rl_channel := c\<rparr>)))"

text \<open>\<^verbatim>\<open>let _ = channel.close().await\<close>.\<close>

definition close_ignoring :: "'w close_fn \<Rightarrow> ('r, 'w) channel \<Rightarrow> ('r, 'w) channel" where
  "close_ignoring cl c = (case channel_close cl c of None \<Rightarrow> c | Some (_, c) \<Rightarrow> c)"

datatype relay_event =
    ToSocket
  | FromSocket "io_error + bytes"
  | ClosedTo
  | ClosedFrom

subsection \<open>TCP forwarding\<close>

text \<open>Each task also ends when the connection is closed; \<open>ClosedTo\<close> and \<open>ClosedFrom\<close> are these ends.\<close>

fun tcp_relay_step ::
    "'r read_exact_fn \<Rightarrow> 'w write_all_fn \<Rightarrow> 'k write_all_fn \<Rightarrow> relay_event
     \<Rightarrow> ('r, 'w, 'k) relay \<Rightarrow> ('r, 'w, 'k) relay option" where
  "tcp_relay_step rd wr sw ToSocket s = (if rl_to s \<noteq> None then Some s else to_socket_iteration rd sw s)"
| "tcp_relay_step rd wr sw (FromSocket r) s =
     (if rl_from s \<noteq> None then Some s else from_socket_iteration wr (\<lambda>c. c) r s)"
| "tcp_relay_step rd wr sw ClosedTo s = Some (if rl_to s \<noteq> None then s else s\<lparr>rl_to := Some (Ok ())\<rparr>)"
| "tcp_relay_step rd wr sw ClosedFrom s = Some (if rl_from s \<noteq> None then s else s\<lparr>rl_from := Some (Ok ())\<rparr>)"

fun run_tcp_relay ::
    "'r read_exact_fn \<Rightarrow> 'w write_all_fn \<Rightarrow> 'k write_all_fn \<Rightarrow> relay_event list
     \<Rightarrow> ('r, 'w, 'k) relay \<Rightarrow> ('r, 'w, 'k) relay option" where
  "run_tcp_relay rd wr sw [] s = Some s"
| "run_tcp_relay rd wr sw (ev # evs) s = Option.bind (tcp_relay_step rd wr sw ev s) (run_tcp_relay rd wr sw evs)"

text \<open>The handler connects and then waits for both tasks, whose results it ignores.\<close>

definition handle_tcp_forwarding ::
    "'r read_exact_fn \<Rightarrow> 'w write_all_fn \<Rightarrow> 'k write_all_fn \<Rightarrow> io_error + 'k \<Rightarrow> relay_event list
     \<Rightarrow> ('r, 'w) channel \<Rightarrow> ((server_error + unit) poll \<times> ('r, 'w) channel) option" where
  "handle_tcp_forwarding rd wr sw connected evs c = (case connected of
       Err e \<Rightarrow> Some (Ready (Err (Srv_Io e)), c)
     | Ok k \<Rightarrow> map_option (\<lambda>s. (if rl_to s \<noteq> None \<and> rl_from s \<noteq> None then Ready (Ok ()) else Pending, rl_channel s))
         (run_tcp_relay rd wr sw evs (relay_start c k)))"

subsection \<open>Agent forwarding\<close>

text \<open>
  \<^verbatim>\<open>select!\<close> waits for the end of either task: \<open>JoinTo\<close> and \<open>JoinFrom\<close> are the moments at which it looks. The
  other task is aborted, the channel closed and the result of the ended task returned.
\<close>

datatype agent_relay_event =
    AgentTo
  | AgentFrom "io_error + bytes"
  | JoinTo
  | JoinFrom

fun run_agent_relay ::
    "'r read_exact_fn \<Rightarrow> 'w write_all_fn \<Rightarrow> 'w close_fn \<Rightarrow> 'k write_all_fn \<Rightarrow> agent_relay_event list
     \<Rightarrow> ('r, 'w, 'k) relay \<Rightarrow> ((relay_error + unit) poll \<times> ('r, 'w, 'k) relay) option" where
  "run_agent_relay rd wr cl sw [] s = Some (Pending, s)"
| "run_agent_relay rd wr cl sw (AgentTo # evs) s = do {
     s \<leftarrow> (if rl_to s \<noteq> None then Some s else to_socket_iteration rd sw s);
     run_agent_relay rd wr cl sw evs s
   }"
| "run_agent_relay rd wr cl sw (AgentFrom r # evs) s = do {
     s \<leftarrow> (if rl_from s \<noteq> None then Some s else from_socket_iteration wr (close_ignoring cl) r s);
     run_agent_relay rd wr cl sw evs s
   }"
| "run_agent_relay rd wr cl sw (JoinTo # evs) s = (case rl_to s of
       None \<Rightarrow> run_agent_relay rd wr cl sw evs s
     | Some r \<Rightarrow> Some (Ready r, s\<lparr>rl_channel := close_ignoring cl (rl_channel s)\<rparr>))"
| "run_agent_relay rd wr cl sw (JoinFrom # evs) s = (case rl_from s of
       None \<Rightarrow> run_agent_relay rd wr cl sw evs s
     | Some r \<Rightarrow> Some (Ready r, s\<lparr>rl_channel := close_ignoring cl (rl_channel s)\<rparr>))"

fun relay_server_error :: "relay_error \<Rightarrow> server_error" where
  "relay_server_error (Relay_Channel e) = Srv_Channel e"
| "relay_server_error (Relay_Io e) = Srv_Io e"

fun map_poll :: "('a \<Rightarrow> 'b) \<Rightarrow> 'a poll \<Rightarrow> 'b poll" where
  "map_poll f (Ready a) = Ready (f a)"
| "map_poll f Pending = Pending"

text \<open>The server's side, once the channel is open: its header is sent and its confirmation awaited first.\<close>

definition handle_agent_socket_conn ::
    "'r read_exact_fn \<Rightarrow> 'w write_all_fn \<Rightarrow> 'w close_fn \<Rightarrow> 'k write_all_fn \<Rightarrow> 'k \<Rightarrow> agent_relay_event list
     \<Rightarrow> ('r, 'w) channel \<Rightarrow> ((server_error + unit) poll \<times> ('r, 'w) channel \<times> 'k) option" where
  "handle_agent_socket_conn rd wr cl sw k evs c = (case maybe_send_header wr c of
       None \<Rightarrow> None
     | Some (Err e, c) \<Rightarrow> Some (Ready (Err (Srv_Channel e)), c, k)
     | Some (Ok _, c) \<Rightarrow> (case wait_for_confirmation rd c of
         (Err e, c) \<Rightarrow> Some (Ready (Err (Srv_Channel e)), c, k)
       | (Ok _, c) \<Rightarrow> map_option (\<lambda>(r, s). (map_poll (map_sum relay_server_error id) r, rl_channel s, rl_socket s))
           (run_agent_relay rd wr cl sw evs (relay_start c k))))"

text \<open>The client's side connects to its own agent.\<close>

definition forward_agent_channel ::
    "'r read_exact_fn \<Rightarrow> 'w write_all_fn \<Rightarrow> 'w close_fn \<Rightarrow> 'k write_all_fn \<Rightarrow> io_error + 'k \<Rightarrow> agent_relay_event list
     \<Rightarrow> ('r, 'w) channel \<Rightarrow> ((relay_error + unit) poll \<times> ('r, 'w) channel \<times> 'k option) option" where
  "forward_agent_channel rd wr cl sw connected evs c = (case connected of
       Err e \<Rightarrow> Some (Ready (Err (Relay_Io e)), c, None)
     | Ok k \<Rightarrow> map_option (\<lambda>(r, s). (r, rl_channel s, Some (rl_socket s)))
         (run_agent_relay rd wr cl sw evs (relay_start c k)))"

section \<open>Channels that are not forwarded\<close>

definition handle_plain_channel ::
    "os \<Rightarrow> 'r read_exact_fn \<Rightarrow> 'w write_all_fn \<Rightarrow> 'w close_fn \<Rightarrow> server_config \<Rightarrow> session_user
     \<Rightarrow> (('r, 'w) session_state, server_error, unit) op" where
  "handle_plain_channel os rd wr cl config user s =
     (let channel_type = info_channel_type (info (ss_channel s)) in
      if channel_type = bstr ''session''
      then map_option (\<lambda>(e, s). (Err e, s)) (handle_session_channel os rd wr config user s)
      else pbind (write_stderr wr (''unsupported channel type: '' @ from_utf8_lossy channel_type @ [CHR 0x0A]))
        (\<lambda>_ s. case channel_close cl (ss_channel s) of
           None \<Rightarrow> None
         | Some (res, c) \<Rightarrow> Some (map_sum Srv_Channel id res, s\<lparr>ss_channel := c\<rparr>)) s)"

section \<open>What the pumps put on the channel\<close>

fun stdout_reads :: "output_event list \<Rightarrow> (io_error + bytes) list" where
  "stdout_reads [] = []"
| "stdout_reads (StdoutRead r # evs) = r # stdout_reads evs"
| "stdout_reads (_ # evs) = stdout_reads evs"

fun stderr_reads :: "output_event list \<Rightarrow> (io_error + bytes) list" where
  "stderr_reads [] = []"
| "stderr_reads (StderrRead r # evs) = r # stderr_reads evs"
| "stderr_reads (_ # evs) = stderr_reads evs"

fun first_exit :: "output_event list \<Rightarrow> (io_error + int option) option" where
  "first_exit [] = None"
| "first_exit (ChildExited status # evs) = Some status"
| "first_exit (_ # evs) = first_exit evs"

text \<open>The data a reader delivers: everything up to its end or its first error.\<close>

fun read_data :: "(io_error + bytes) list \<Rightarrow> bytes" where
  "read_data [] = []"
| "read_data (r # rs) = (case r of Err _ \<Rightarrow> [] | Ok chunk \<Rightarrow> if chunk = [] then [] else chunk @ read_data rs)"

fun read_ended :: "(io_error + bytes) list \<Rightarrow> bool" where
  "read_ended [] \<longleftrightarrow> False"
| "read_ended (r # rs) \<longleftrightarrow> (case r of Err _ \<Rightarrow> True | Ok chunk \<Rightarrow> chunk = [] \<or> read_ended rs)"

text \<open>A read fills at most the buffer.\<close>

definition reads_fit :: "nat \<Rightarrow> (io_error + bytes) list \<Rightarrow> bool" where
  "reads_fit n rs \<longleftrightarrow> (\<forall>chunk. Ok chunk \<in> set rs \<longrightarrow> length chunk \<le> n)"

definition payload :: "u64 \<Rightarrow> data_message list \<Rightarrow> bytes" where
  "payload ty msgs = concat (map data (filter (\<lambda>m. data_type m = ty) msgs))"

lemma payload_append [simp]: "payload ty (xs @ ys) = payload ty xs @ payload ty ys"
  by (simp add: payload_def)

lemma payload_Nil [simp]: "payload ty [] = []"
  by (simp add: payload_def)

lemma payload_same: "\<forall>m\<in>set msgs. data_type m = ty \<Longrightarrow> payload ty msgs = concat (map data msgs)"
  and payload_other: "\<forall>m\<in>set msgs. data_type m = ty \<Longrightarrow> ty \<noteq> ty' \<Longrightarrow> payload ty' msgs = []"
  by (simp_all add: payload_def filter_id_conv filter_empty_conv)

text \<open>A channel that data can be written to: header sent, packets large enough and not too large.\<close>

definition writable :: "('r, 'w) channel \<Rightarrow> bool" where
  "writable c \<longleftrightarrow> header c = None \<and> 12 \<le> info_max_packet_size (info c)
     \<and> info_max_packet_size (info c) \<le> MAX_SSH_STRING_LEN"

lemma writable_buffer: "writable c \<Longrightarrow> copy_buffer_len c \<le> 16 * 1024 * 1024"
  by (simp add: writable_def copy_buffer_len_def word_le_nat_alt MAX_SSH_STRING_LEN_def)

lemma writable_send [simp]: "writable (c\<lparr>send := w\<rparr>) = writable c"
  by (simp add: writable_def)

lemma copy_buffer_len_send [simp]: "copy_buffer_len (c\<lparr>send := w\<rparr>) = copy_buffer_len c"
  by (simp add: copy_buffer_len_def)

lemma to_vec_fields: "message_ok k \<Longrightarrow> to_vec k = Some (concat (message_fields k))"
  using encode_message_fields [of k] by (simp add: to_vec_def)

context reliable_stream
begin

lemma write_data_relays:
  assumes "writable c" "length buf \<le> copy_buffer_len c" "varint_ok ty"
  obtains n w msgs where "write_data wr buf ty c = Some (Ok n, c\<lparr>send := w\<rparr>)"
    "\<forall>m\<in>set msgs. message_ok (Data m) \<and> data_type m = ty" "concat (map data msgs) = buf"
    "written w = written (send c) @ concat (map data_packet msgs)"
proof -
  have "length buf \<le> unat MAX_VARINT"
    using assms(2) writable_buffer [OF assms(1)] by (simp add: max_varint_defs)
  then obtain n w where wd: "write_data wr buf ty c = Some (Ok n, c\<lparr>header := None, send := w\<rparr>)"
    using write_data_succeeds [OF assms(3)] assms(1) unfolding writable_def by blast
  moreover have "c\<lparr>header := None, send := w\<rparr> = c\<lparr>send := w\<rparr>"
    using assms(1) by (simp add: writable_def)
  ultimately have wd: "write_data wr buf ty c = Some (Ok n, c\<lparr>send := w\<rparr>)"
    by simp
  obtain msgs where "\<forall>m\<in>set msgs. message_ok (Data m)" "concat (map data msgs) = buf" "\<forall>m\<in>set msgs. data_type m = ty"
    "written (send (c\<lparr>send := w\<rparr>)) = written (send c) @ (case header c of None \<Rightarrow> [] | Some h \<Rightarrow> h) @ concat (map data_packet msgs)"
    using write_data_packets [OF _ wd] assms(1) unfolding writable_def by metis
  with wd assms(1) that [of n w msgs] show ?thesis
    by (simp add: writable_def)
qed

lemma send_request_relays:
  assumes "writable c" "message_ok (ChannelRequest m)"
  obtains w where "send_request wr m c = Some (Ok (), c\<lparr>send := w\<rparr>)"
    "written w = written (send c) @ concat (message_fields (ChannelRequest m))"
proof -
  let ?enc = "concat (message_fields (ChannelRequest m))"
  obtain w where w: "send_write_all wr ?enc c = Some (Ok (), c\<lparr>send := w\<rparr>)"
    using send_write_all_succeeds by blast
  moreover note to_vec_fields [OF assms(2)]
  ultimately have "send_request wr m c = Some (Ok (), c\<lparr>send := w\<rparr>)"
    using assms(1) by (simp add: send_request_def send_message_def maybe_send_header_def writable_def pbind_def pret_def)
  moreover have "written w = written (send c) @ ?enc"
    using send_write_all_ok(1) [OF w] by simp
  ultimately show ?thesis
    using that by blast
qed

end

text \<open>
  How the state of the output tasks and the stream change over a run: \<open>msgs\<close> are the data messages and
  \<open>report\<close> the exit status that were sent.
\<close>

definition output_ok :: "('r, 'w) process_output \<Rightarrow> bool" where
  "output_ok s \<longleftrightarrow> writable (o_channel s) \<and> o_reported s = (o_stdout s \<and> o_stderr s \<and> o_exit s \<noteq> None)"

definition data_msgs_ok :: "data_message list \<Rightarrow> bool" where
  "data_msgs_ok msgs \<longleftrightarrow> (\<forall>m\<in>set msgs. message_ok (Data m) \<and> data_type m \<in> {0, 1})"

definition exit_packet :: "io_error + int option \<Rightarrow> bytes" where
  "exit_packet status = concat (message_fields (ChannelRequest (exit_status_message (exit_status_of status))))"

lemma exit_status_ok:
  assumes "\<forall>code. status = Ok (Some code) \<longrightarrow> code < 2 ^ 31"
  shows "message_ok (ChannelRequest (exit_status_message (exit_status_of status)))"
proof -
  define n where "n = nat (case status of Ok (Some c) \<Rightarrow> max c 0 | _ \<Rightarrow> 1)"
  have n: "n < 2 ^ 31"
    using assms by (auto simp: n_def nat_less_iff split: sum.splits option.splits)
  have "exit_status_of status = of_nat n"
    by (auto simp: n_def exit_status_of_def Let_def split: sum.splits option.splits)
  moreover have "unat (of_nat n :: u64) = n"
    using n by (simp add: unsigned_of_nat take_bit_eq_mod)
  ultimately show ?thesis
    using n by (simp add: exit_status_message_def max_varint_defs word_le_nat_alt)
qed

text \<open>One event: the two pumps behave alike, each on its own data type.\<close>

definition only_sent :: "('r, 'w) channel \<Rightarrow> ('r, 'w) channel \<Rightarrow> bool" where
  "only_sent c c' \<longleftrightarrow> (\<exists>w. c' = c\<lparr>send := w\<rparr>)"

lemma only_sent_refl [simp]: "only_sent c c"
  unfolding only_sent_def by (rule exI [of _ "send c"]) simp

lemma only_sent_update [simp]: "only_sent c (c\<lparr>send := w\<rparr>)"
  unfolding only_sent_def by blast

lemma only_sent_trans: "only_sent c c' \<Longrightarrow> only_sent c' c'' \<Longrightarrow> only_sent c c''"
  unfolding only_sent_def by force

lemma only_sent_eqs:
  "only_sent c c' \<Longrightarrow> writable c' = writable c \<and> copy_buffer_len c' = copy_buffer_len c"
  unfolding only_sent_def by auto

definition output_effect :: "('w \<Rightarrow> bytes) \<Rightarrow> output_event list \<Rightarrow> ('r, 'w) process_output
    \<Rightarrow> ('r, 'w) process_output \<Rightarrow> data_message list \<Rightarrow> bytes \<Rightarrow> bool" where
  "output_effect written evs s s' msgs report \<longleftrightarrow>
     only_sent (o_channel s) (o_channel s')
   \<and> written (send (o_channel s')) = written (send (o_channel s)) @ concat (map data_packet msgs) @ report
   \<and> o_stdout s' = (o_stdout s \<or> read_ended (stdout_reads evs))
   \<and> o_stderr s' = (o_stderr s \<or> read_ended (stderr_reads evs))
   \<and> o_exit s' = (case o_exit s of None \<Rightarrow> first_exit evs | Some status \<Rightarrow> Some status)
   \<and> data_msgs_ok msgs \<and> (o_stdout s \<and> o_stderr s \<longrightarrow> msgs = [])
   \<and> payload 0 msgs = (if o_stdout s then [] else read_data (stdout_reads evs))
   \<and> payload 1 msgs = (if o_stderr s then [] else read_data (stderr_reads evs))"

lemma output_effect_none:
  assumes "o_channel s' = o_channel s" "o_stdout s' = (o_stdout s \<or> read_ended (stdout_reads evs))"
    and "o_stderr s' = (o_stderr s \<or> read_ended (stderr_reads evs))"
    and "o_exit s' = (case o_exit s of None \<Rightarrow> first_exit evs | Some status \<Rightarrow> Some status)"
    and "o_stdout s \<or> read_data (stdout_reads evs) = []" "o_stderr s \<or> read_data (stderr_reads evs) = []"
  shows "output_effect written evs s s' [] []"
  using assms unfolding output_effect_def data_msgs_ok_def
  by auto

context reliable_stream
begin

lemma pump_iteration_relays:
  assumes "writable c" "reads_fit (copy_buffer_len c) [r]" "varint_ok ty"
  obtains res w msgs where "pump_iteration wr ty r c = Some (res, c\<lparr>send := w\<rparr>)"
    "pump_ended res \<longleftrightarrow> read_ended [r]"
    "\<forall>m\<in>set msgs. message_ok (Data m) \<and> data_type m = ty" "concat (map data msgs) = read_data [r]"
    "written w = written (send c) @ concat (map data_packet msgs)"
proof (cases r)
  case (Inl e)
  then show ?thesis
    using that [of "Err (Srv_Io e)" "send c" "[]"] by (simp add: pump_iteration_def pump_ended_def)
next
  case (Inr chunk)
  show ?thesis
  proof (cases "chunk = []")
    case True
    with Inr show ?thesis
      using that [of "Ok True" "send c" "[]"] by (simp add: pump_iteration_def pump_ended_def)
  next
    case False
    have "length chunk \<le> copy_buffer_len c"
      using assms(2) Inr by (simp add: reads_fit_def)
    from write_data_relays [OF assms(1) this assms(3)] obtain n w msgs
      where "write_data wr chunk ty c = Some (Ok n, c\<lparr>send := w\<rparr>)"
        "\<forall>m\<in>set msgs. message_ok (Data m) \<and> data_type m = ty" "concat (map data msgs) = chunk"
        "written w = written (send c) @ concat (map data_packet msgs)"
      by blast
    with Inr False show ?thesis
      by (intro that [of "Ok False" w msgs]) (simp_all add: pump_iteration_def pump_ended_def del: message_ok.simps)
  qed
qed

lemma output_event_step_relays:
  assumes "output_ok s" "reads_fit (copy_buffer_len (o_channel s)) (stdout_reads [ev] @ stderr_reads [ev])"
  shows "\<exists>s' msgs. output_event_step wr ev s = Some s' \<and> o_reported s' = o_reported s
    \<and> output_effect written [ev] s s' msgs []"
proof (cases ev)
  case (StdoutRead r)
  show ?thesis
  proof (cases "o_stdout s")
    case False
    have "writable (o_channel s)" "reads_fit (copy_buffer_len (o_channel s)) [r]" "varint_ok SSH_EXTENDED_DATA_NONE"
      using assms StdoutRead by (simp_all add: output_ok_def SSH_EXTENDED_DATA_NONE_def)
    from pump_iteration_relays [OF this] obtain res w msgs
      where p: "pump_iteration wr SSH_EXTENDED_DATA_NONE r (o_channel s) = Some (res, (o_channel s)\<lparr>send := w\<rparr>)"
        "pump_ended res \<longleftrightarrow> read_ended [r]"
        "\<forall>m\<in>set msgs. message_ok (Data m) \<and> data_type m = SSH_EXTENDED_DATA_NONE" "concat (map data msgs) = read_data [r]"
        "written w = written (send (o_channel s)) @ concat (map data_packet msgs)"
      by blast
    moreover from p(3,4) have "data_msgs_ok msgs" "payload 0 msgs = read_data [r]" "payload 1 msgs = []"
      using payload_same [of msgs 0] payload_other [of msgs 0 1]
      by (simp_all add: data_msgs_ok_def SSH_EXTENDED_DATA_NONE_def del: message_ok.simps)
    ultimately show ?thesis
      using StdoutRead False
      by (intro exI [of _ "s\<lparr>o_channel := (o_channel s)\<lparr>send := w\<rparr>, o_stdout := pump_ended res\<rparr>"] exI [of _ msgs])
        (simp add: output_effect_def split: option.split)
  qed (use StdoutRead in \<open>auto intro!: exI [of _ s] exI [of _ "[]"] output_effect_none split: option.split\<close>)
next
  case (StderrRead r)
  show ?thesis
  proof (cases "o_stderr s")
    case False
    have "writable (o_channel s)" "reads_fit (copy_buffer_len (o_channel s)) [r]" "varint_ok SSH_EXTENDED_DATA_STDERR"
      using assms StderrRead by (simp_all add: output_ok_def SSH_EXTENDED_DATA_STDERR_def max_varint_defs)
    from pump_iteration_relays [OF this] obtain res w msgs
      where p: "pump_iteration wr SSH_EXTENDED_DATA_STDERR r (o_channel s) = Some (res, (o_channel s)\<lparr>send := w\<rparr>)"
        "pump_ended res \<longleftrightarrow> read_ended [r]"
        "\<forall>m\<in>set msgs. message_ok (Data m) \<and> data_type m = SSH_EXTENDED_DATA_STDERR" "concat (map data msgs) = read_data [r]"
        "written w = written (send (o_channel s)) @ concat (map data_packet msgs)"
      by blast
    moreover from p(3,4) have "data_msgs_ok msgs" "payload 1 msgs = read_data [r]" "payload 0 msgs = []"
      using payload_same [of msgs 1] payload_other [of msgs 1 0]
      by (simp_all add: data_msgs_ok_def SSH_EXTENDED_DATA_STDERR_def del: message_ok.simps)
    ultimately show ?thesis
      using StderrRead False
      by (intro exI [of _ "s\<lparr>o_channel := (o_channel s)\<lparr>send := w\<rparr>, o_stderr := pump_ended res\<rparr>"] exI [of _ msgs])
        (simp add: output_effect_def split: option.split)
  qed (use StderrRead in \<open>auto intro!: exI [of _ s] exI [of _ "[]"] output_effect_none split: option.split\<close>)
next
  case (ChildExited status)
  then show ?thesis
    by (intro exI [of _ "if o_exit s = None then s\<lparr>o_exit := Some status\<rparr> else s"] exI [of _ "[]"])
      (auto intro!: output_effect_none split: option.split)
qed

end

lemma reads_append [simp]:
  "stdout_reads (xs @ ys) = stdout_reads xs @ stdout_reads ys"
  "stderr_reads (xs @ ys) = stderr_reads xs @ stderr_reads ys"
  by (induction xs rule: stdout_reads.induct) simp_all

lemma read_append [simp]:
  "read_ended (rs @ rs') \<longleftrightarrow> read_ended rs \<or> read_ended rs'"
  "read_data (rs @ rs') = read_data rs @ (if read_ended rs then [] else read_data rs')"
  by (induction rs) (auto split: sum.splits)

lemma first_exit_append [simp]:
  "first_exit (xs @ ys) = (case first_exit xs of None \<Rightarrow> first_exit ys | Some status \<Rightarrow> Some status)"
  by (induction xs rule: first_exit.induct) simp_all

lemma output_effectD:
  assumes "output_effect written evs s s' msgs report"
  shows "only_sent (o_channel s) (o_channel s')"
    and "written (send (o_channel s')) = written (send (o_channel s)) @ concat (map data_packet msgs) @ report"
    and "o_stdout s' = (o_stdout s \<or> read_ended (stdout_reads evs))"
    and "o_stderr s' = (o_stderr s \<or> read_ended (stderr_reads evs))"
    and "o_exit s' = (case o_exit s of None \<Rightarrow> first_exit evs | Some status \<Rightarrow> Some status)"
    and "data_msgs_ok msgs" "o_stdout s \<and> o_stderr s \<longrightarrow> msgs = []"
    and "payload 0 msgs = (if o_stdout s then [] else read_data (stdout_reads evs))"
    and "payload 1 msgs = (if o_stderr s then [] else read_data (stderr_reads evs))"
  using assms unfolding output_effect_def by blast+

lemma output_effect_trans:
  assumes "output_effect written evs s s1 msgs []" "output_effect written evs' s1 s2 msgs' report"
  shows "output_effect written (evs @ evs') s s2 (msgs @ msgs') report"
proof -
  note e1 = output_effectD [OF assms(1)] and e2 = output_effectD [OF assms(2)]
  show ?thesis
    unfolding output_effect_def
  proof (intro conjI)
    show "only_sent (o_channel s) (o_channel s2)"
      by (rule only_sent_trans [OF e1(1) e2(1)])
    show "data_msgs_ok (msgs @ msgs')"
      using e1(6) e2(6) unfolding data_msgs_ok_def by auto
    show "o_exit s2 = (case o_exit s of None \<Rightarrow> first_exit (evs @ evs') | Some status \<Rightarrow> Some status)"
      unfolding e2(5) e1(5) by (simp split: option.split)
    show "o_stdout s \<and> o_stderr s \<longrightarrow> msgs @ msgs' = []"
      using e1(3,4,7) e2(7) by blast
  qed (simp_all add: e1(2-4,8,9) e2(2-4,8,9))
qed

context reliable_stream
begin

lemma report_exit_relays:
  assumes "writable (o_channel s)" "o_exit s = Some status" "o_stdout s" "o_stderr s" "\<not> o_reported s"
    and "\<forall>code. status = Ok (Some code) \<longrightarrow> code < 2 ^ 31"
  shows "\<exists>w. report_exit wr s = Some (s\<lparr>o_channel := (o_channel s)\<lparr>send := w\<rparr>, o_reported := True\<rparr>)
    \<and> written w = written (send (o_channel s)) @ exit_packet status"
proof -
  let ?m = "exit_status_message (exit_status_of status)"
  obtain w where "send_request wr ?m (o_channel s) = Some (Ok (), (o_channel s)\<lparr>send := w\<rparr>)"
    "written w = written (send (o_channel s)) @ concat (message_fields (ChannelRequest ?m))"
    by (rule send_request_relays [OF assms(1) exit_status_ok [OF assms(6)]])
  with assms(2-5) show ?thesis
    by (intro exI [of _ w]) (simp add: report_exit_def exit_packet_def del: message_fields.simps)
qed

end

definition codes_ok :: "(io_error + int option) option \<Rightarrow> output_event list \<Rightarrow> bool" where
  "codes_ok ex evs \<longleftrightarrow> (\<forall>code. ex = Some (Ok (Some code)) \<or> ChildExited (Ok (Some code)) \<in> set evs \<longrightarrow> code < 2 ^ 31)"

lemma first_exit_mem: "first_exit evs = Some status \<Longrightarrow> ChildExited status \<in> set evs"
  by (induction evs rule: first_exit.induct) auto

lemma reads_fit_append [simp]: "reads_fit n (xs @ ys) \<longleftrightarrow> reads_fit n xs \<and> reads_fit n ys"
  by (auto simp: reads_fit_def)

lemma codes_ok_Cons: "codes_ok ex (ev # evs) \<longleftrightarrow> codes_ok ex [ev] \<and> codes_ok ex evs"
  by (auto simp: codes_ok_def)

lemma codes_ok_next:
  "codes_ok ex (ev # evs) \<Longrightarrow> codes_ok (case ex of None \<Rightarrow> first_exit [ev] | Some status \<Rightarrow> Some status) evs"
  using first_exit_mem [of "[ev]"] by (cases ex) (auto simp: codes_ok_def)

text \<open>A report is the last thing that is sent: afterwards both pumps have ended.\<close>

lemma output_effect_Cons:
  assumes eff: "output_effect written [ev] s s2 msgs report" and ok: "output_ok s" "output_ok s2"
    and report: "report = (if o_reported s2 \<and> \<not> o_reported s then exit_packet (the (o_exit s2)) else [])"
    and eff': "output_effect written evs s2 s' msgs'
      (if o_reported s' \<and> \<not> o_reported s2 then exit_packet (the (o_exit s')) else [])" and ok': "output_ok s'"
  shows "output_effect written (ev # evs) s s' (msgs @ msgs')
      (if o_reported s' \<and> \<not> o_reported s then exit_packet (the (o_exit s')) else [])"
proof (cases "o_reported s2 \<and> \<not> o_reported s")
  case False
  have "o_reported s \<Longrightarrow> o_reported s2"
    using output_effectD(3-5) [OF eff] ok by (auto simp: output_ok_def)
  with False have "o_reported s2 = o_reported s" "report = []"
    by (auto simp: report)
  with output_effect_trans [of written "[ev]" s s2 msgs evs s' msgs'] eff eff' show ?thesis
    by simp
next
  case True
  note e = output_effectD [OF eff] and e' = output_effectD [OF eff']
  from True ok(2) have both: "o_stdout s2" "o_stderr s2" "o_exit s2 \<noteq> None"
    by (simp_all add: output_ok_def)
  then have s': "msgs' = []" "o_exit s' = o_exit s2" "o_stdout s'" "o_stderr s'"
    using e'(3,4,5,7) by auto
  then have "o_reported s'"
    using both ok' by (simp add: output_ok_def)
  then have rep: "(if o_reported s' \<and> \<not> o_reported s then exit_packet (the (o_exit s')) else []) = report"
    "(if o_reported s' \<and> \<not> o_reported s2 then exit_packet (the (o_exit s')) else []) = []"
    using True s'(2) report by simp_all
  have split: "stdout_reads (ev # evs) = stdout_reads [ev] @ stdout_reads evs"
    "stderr_reads (ev # evs) = stderr_reads [ev] @ stderr_reads evs"
    using reads_append [of "[ev]" evs] by simp_all
  have "o_exit s' = (case o_exit s of None \<Rightarrow> first_exit (ev # evs) | Some status \<Rightarrow> Some status)"
    using e(5) both(3) s'(2) first_exit_append [of "[ev]" evs] by (cases "first_exit [ev]") (auto split: option.splits)
  moreover
  have "o_stdout s \<or> read_ended (stdout_reads [ev])" "o_stderr s \<or> read_ended (stderr_reads [ev])"
    using e(3,4) both by simp_all
  ultimately show ?thesis
    unfolding output_effect_def rep split
    using only_sent_trans [OF e(1) e'(1)] e(2,6-9) e'(2) rep(2) s'
    by (auto simp del: stdout_reads.simps stderr_reads.simps first_exit.simps)
qed

context reliable_stream
begin

text \<open>One event followed by the check whether the status can be reported.\<close>

lemma output_step_relays:
  assumes ok: "output_ok s" and fit: "reads_fit (copy_buffer_len (o_channel s)) (stdout_reads [ev] @ stderr_reads [ev])"
    and codes: "codes_ok (o_exit s) [ev]"
  obtains s1 s2 msgs report where "output_event_step wr ev s = Some s1" "report_exit wr s1 = Some s2" "output_ok s2"
    "report = (if o_reported s2 \<and> \<not> o_reported s then exit_packet (the (o_exit s2)) else [])"
    "output_effect written [ev] s s2 msgs report"
proof -
  obtain s1 msgs where s1: "output_event_step wr ev s = Some s1" "o_reported s1 = o_reported s"
    and eff: "output_effect written [ev] s s1 msgs []"
    using output_event_step_relays [OF ok fit] by blast
  note e = output_effectD [OF eff]
  have wr1: "writable (o_channel s1)"
    using only_sent_eqs [OF e(1)] ok by (simp add: output_ok_def)
  have rep: "o_reported s \<Longrightarrow> o_stdout s1 \<and> o_stderr s1 \<and> o_exit s1 \<noteq> None"
    using ok e(3-5) by (auto simp: output_ok_def)
  show ?thesis
  proof (cases "o_stdout s1 \<and> o_stderr s1 \<and> o_exit s1 \<noteq> None \<and> \<not> o_reported s1")
    case True
    then obtain status where status: "o_exit s1 = Some status"
      by blast
    have "\<forall>code. status = Ok (Some code) \<longrightarrow> code < 2 ^ 31"
      using codes e(5) status first_exit_mem [of "[ev]"] by (auto simp: codes_ok_def split: option.splits)
    from report_exit_relays [OF wr1 status _ _ _ this] True obtain w
      where w: "report_exit wr s1 = Some (s1\<lparr>o_channel := (o_channel s1)\<lparr>send := w\<rparr>, o_reported := True\<rparr>)"
        "written w = written (send (o_channel s1)) @ exit_packet status"
      by blast
    let ?s2 = "s1\<lparr>o_channel := (o_channel s1)\<lparr>send := w\<rparr>, o_reported := True\<rparr>"
    have "only_sent (o_channel s) (o_channel ?s2)"
      using e(1) by (auto intro: only_sent_trans)
    then have "output_effect written [ev] s ?s2 msgs (exit_packet status)"
      unfolding output_effect_def using e(2-9) w(2) by (simp del: stdout_reads.simps stderr_reads.simps)
    with s1 w(1) True status wr1 show ?thesis
      by (intro that [of s1 ?s2 _ msgs]) (simp_all add: output_ok_def)
  next
    case False
    then have "report_exit wr s1 = Some s1"
      by (auto simp: report_exit_def split: option.split)
    moreover have "output_ok s1"
      using False rep wr1 s1(2) by (auto simp: output_ok_def)
    ultimately show ?thesis
      using s1 eff by (intro that [of s1 s1 _ msgs]) simp_all
  qed
qed

lemma run_output_relays:
  assumes "output_ok s" "reads_fit (copy_buffer_len (o_channel s)) (stdout_reads evs @ stderr_reads evs)"
    and "codes_ok (o_exit s) evs"
  shows "\<exists>s' msgs. run_output wr evs s = Some s' \<and> output_ok s'
    \<and> output_effect written evs s s' msgs (if o_reported s' \<and> \<not> o_reported s then exit_packet (the (o_exit s')) else [])"
  using assms
proof (induction evs arbitrary: s)
  case Nil
  have "output_effect written [] s s [] []"
    by (rule output_effect_none) (simp_all split: option.split)
  with Nil show ?case
    by (intro exI [of _ s] exI [of _ "[]"]) simp
next
  case (Cons ev evs)
  have split: "stdout_reads (ev # evs) = stdout_reads [ev] @ stdout_reads evs"
    "stderr_reads (ev # evs) = stderr_reads [ev] @ stderr_reads evs"
    using reads_append [of "[ev]" evs] by simp_all
  have here: "reads_fit (copy_buffer_len (o_channel s)) (stdout_reads [ev] @ stderr_reads [ev])" "codes_ok (o_exit s) [ev]"
    using Cons.prems(2) Cons.prems(3) [unfolded codes_ok_Cons [of _ ev evs]] unfolding split reads_fit_append by blast+
  obtain s1 s2 msgs report
    where st: "output_event_step wr ev s = Some s1" "report_exit wr s1 = Some s2" "output_ok s2"
      and report: "report = (if o_reported s2 \<and> \<not> o_reported s then exit_packet (the (o_exit s2)) else [])"
      and eff: "output_effect written [ev] s s2 msgs report"
    by (rule output_step_relays [OF Cons.prems(1) here])
  note e = output_effectD [OF eff]
  have "reads_fit (copy_buffer_len (o_channel s2)) (stdout_reads evs @ stderr_reads evs)"
    using Cons.prems(2) only_sent_eqs [OF e(1)] unfolding split reads_fit_append by metis
  moreover have "codes_ok (o_exit s2) evs"
    unfolding e(5) by (rule codes_ok_next [OF Cons.prems(3)])
  ultimately have "\<exists>s' msgs. run_output wr evs s2 = Some s' \<and> output_ok s' \<and> output_effect written evs s2 s' msgs
      (if o_reported s' \<and> \<not> o_reported s2 then exit_packet (the (o_exit s')) else [])"
    by (rule Cons.IH [OF st(3)])
  then obtain s' msgs' where rest: "run_output wr evs s2 = Some s'" "output_ok s'"
    and eff': "output_effect written evs s2 s' msgs' (if o_reported s' \<and> \<not> o_reported s2 then exit_packet (the (o_exit s')) else [])"
    by (elim exE conjE) (rule that)
  have "output_effect written (ev # evs) s s' (msgs @ msgs')
      (if o_reported s' \<and> \<not> o_reported s then exit_packet (the (o_exit s')) else [])"
    by (rule output_effect_Cons [OF eff Cons.prems(1) st(3) report eff' rest(2)])
  moreover have "run_output wr (ev # evs) s = Some s'"
    by (simp add: st(1,2) rest(1))
  ultimately show ?case
    using rest(2) by blast
qed

end

section \<open>What relays deliver\<close>

lemma next_message_frame:
  assumes "next_message rd c = Some (res, c')"
  shows "send c' = send c \<and> header c' = header c \<and> info c' = info c \<and> confirm_sent c' = confirm_sent c"
proof -
  have "send (snd (res, c')) = send c \<and> header (snd (res, c')) = header c \<and> info (snd (res, c')) = info c
      \<and> confirm_sent (snd (res, c')) = confirm_sent c"
  proof (rule next_message.raw_induct [OF _ assms])
    fix loop rd and c :: "('a, 'b) channel" and out
    assume IH: "\<And>rd (c :: ('a, 'b) channel) out. loop rd c = Some out \<Longrightarrow>
        send (snd out) = send c \<and> header (snd out) = header c \<and> info (snd out) = info c
        \<and> confirm_sent (snd out) = confirm_sent c"
      and run: "(case recv_message rd c of
           (Err e, c) \<Rightarrow> Some (Err e, c)
         | (Ok (ChannelOpenConfirmation _), c) \<Rightarrow> loop rd (c\<lparr>confirm_received := True\<rparr>)
         | (Ok (ChannelOpenFailure f), c) \<Rightarrow> Some (Err (OpenFailure \<lparr>cof_reason_code = reason_code f,
                cof_error_message_utf8 = fail_error_message_utf8 f\<rparr>), c)
         | (Ok other, c) \<Rightarrow>
             if \<not> confirm_sent c then Some (Err (NonConfirmed other), c) else Some (Ok other, c)) = Some out"
    obtain r x where "parse_message rd (recv c) = (r, x)"
      by (cases "parse_message rd (recv c)")
    then have r: "recv_message rd c = (r, c\<lparr>recv := x\<rparr>)"
      by (simp add: recv_message_def)
    show "send (snd out) = send c \<and> header (snd out) = header c \<and> info (snd out) = info c
        \<and> confirm_sent (snd out) = confirm_sent c"
      using run [unfolded r] IH [of rd "c\<lparr>recv := x, confirm_received := True\<rparr>" out]
      by (auto split: sum.splits message.splits if_splits)
  qed
  then show ?thesis
    by simp
qed

fun agent_reads :: "agent_relay_event list \<Rightarrow> (io_error + bytes) list" where
  "agent_reads [] = []"
| "agent_reads (AgentFrom r # evs) = r # agent_reads evs"
| "agent_reads (_ # evs) = agent_reads evs"

fun is_join :: "agent_relay_event \<Rightarrow> bool" where
  "is_join JoinTo = True"
| "is_join JoinFrom = True"
| "is_join _ = False"

definition stdout_msgs_ok :: "data_message list \<Rightarrow> bool" where
  "stdout_msgs_ok msgs \<longleftrightarrow> (\<forall>m\<in>set msgs. message_ok (Data m) \<and> data_type m = SSH_EXTENDED_DATA_NONE)"

lemma to_socket_frame:
  assumes "to_socket_iteration rd sw s = Some s'"
  shows "send (rl_channel s') = send (rl_channel s) \<and> header (rl_channel s') = header (rl_channel s)
    \<and> info (rl_channel s') = info (rl_channel s) \<and> rl_from s' = rl_from s"
  using assms unfolding to_socket_iteration_def
  by (auto split: option.splits prod.splits sum.splits message.splits if_splits dest!: next_message_frame)

lemma to_socket_returns:
  assumes "\<exists>out. next_message rd (rl_channel s) = Some out"
  shows "\<exists>s'. to_socket_iteration rd sw s = Some s'"
proof -
  have "to_socket_iteration rd sw s \<noteq> None"
    using assms by (auto simp: to_socket_iteration_def split: prod.splits sum.splits message.splits)
  then show ?thesis
    by simp
qed

text \<open>Closing a stream writes nothing more.\<close>

locale closing_stream = reliable_stream +
  fixes cl :: "'a close_fn"
  assumes close_written: "written (snd (cl w)) = written w"
begin

lemma close_ignoring_eq: "close_ignoring cl c = c\<lparr>send := snd (cl (send c))\<rparr>"
  by (simp add: close_ignoring_def channel_close_def split: prod.split)

lemma from_socket_relays:
  assumes "writable (rl_channel s)" "reads_fit (copy_buffer_len (rl_channel s)) [r]"
  shows "\<exists>w f msgs. from_socket_iteration wr (close_ignoring cl) r s
      = Some (s\<lparr>rl_channel := (rl_channel s)\<lparr>send := w\<rparr>, rl_from := f\<rparr>)
    \<and> (f \<noteq> None \<longleftrightarrow> rl_from s \<noteq> None \<or> read_ended [r]) \<and> stdout_msgs_ok msgs \<and> concat (map data msgs) = read_data [r]
    \<and> written w = written (send (rl_channel s)) @ concat (map data_packet msgs)"
proof (cases r)
  case (Inl e)
  then show ?thesis
    by (intro exI [of _ "send (rl_channel s)"] exI [of _ "Some (Err (Relay_Io e))"] exI [of _ "[]"])
      (simp add: from_socket_iteration_def stdout_msgs_ok_def)
next
  case (Inr chunk)
  show ?thesis
  proof (cases "chunk = []")
    case True
    with Inr show ?thesis
      by (intro exI [of _ "snd (cl (send (rl_channel s)))"] exI [of _ "Some (Ok ())"] exI [of _ "[]"])
        (simp add: from_socket_iteration_def stdout_msgs_ok_def close_ignoring_eq close_written)
  next
    case False
    have "length chunk \<le> copy_buffer_len (rl_channel s)" "varint_ok SSH_EXTENDED_DATA_NONE"
      using assms(2) Inr by (simp_all add: reads_fit_def SSH_EXTENDED_DATA_NONE_def)
    from write_data_relays [OF assms(1) this] obtain n w msgs
      where "write_data wr chunk SSH_EXTENDED_DATA_NONE (rl_channel s) = Some (Ok n, (rl_channel s)\<lparr>send := w\<rparr>)"
        "\<forall>m\<in>set msgs. message_ok (Data m) \<and> data_type m = SSH_EXTENDED_DATA_NONE" "concat (map data msgs) = chunk"
        "written w = written (send (rl_channel s)) @ concat (map data_packet msgs)"
      by blast
    with Inr False show ?thesis
      by (intro exI [of _ w] exI [of _ "rl_from s"] exI [of _ msgs])
        (simp add: from_socket_iteration_def stdout_msgs_ok_def del: message_ok.simps)
  qed
qed

end

interpretation rss_closing: closing_stream rss_write_all rss_bytes rss_close
  by unfold_locales (simp add: rss_close_def)

text \<open>What a relay has put on the channel, given what was read from the socket.\<close>

definition relay_sent :: "('w \<Rightarrow> bytes) \<Rightarrow> (io_error + bytes) list \<Rightarrow> ('r, 'w, 'k) relay \<Rightarrow> ('r, 'w, 'k) relay \<Rightarrow> bool" where
  "relay_sent written rs s s' \<longleftrightarrow> (\<exists>msgs. stdout_msgs_ok msgs
     \<and> written (send (rl_channel s')) = written (send (rl_channel s)) @ concat (map data_packet msgs)
     \<and> concat (map data msgs) = (if rl_from s \<noteq> None then [] else read_data rs))"

lemma relay_sent_refl: "relay_sent written [] s s"
  unfolding relay_sent_def stdout_msgs_ok_def by (intro exI [of _ "[]"]) simp

lemma relay_sent_to:
  "relay_sent written rs s1 s' \<Longrightarrow> send (rl_channel s1) = send (rl_channel s) \<Longrightarrow> rl_from s1 = rl_from s
    \<Longrightarrow> relay_sent written rs s s'"
  by (simp add: relay_sent_def)

lemma relay_sent_skip: "relay_sent written rs s s' \<Longrightarrow> rl_from s \<noteq> None \<Longrightarrow> relay_sent written rs' s s'"
  by (simp add: relay_sent_def)

lemma relay_sent_from:
  assumes "rl_from s = None" "rl_from s1 \<noteq> None \<longleftrightarrow> read_ended [r]" "stdout_msgs_ok msgs"
    and "concat (map data msgs) = read_data [r]"
    and "written (send (rl_channel s1)) = written (send (rl_channel s)) @ concat (map data_packet msgs)"
    and "relay_sent written rs s1 s'"
  shows "relay_sent written (r # rs) s s'"
proof -
  obtain msgs' where msgs': "stdout_msgs_ok msgs'"
    "written (send (rl_channel s')) = written (send (rl_channel s1)) @ concat (map data_packet msgs')"
    "concat (map data msgs') = (if rl_from s1 \<noteq> None then [] else read_data rs)"
    using assms(6) unfolding relay_sent_def by blast
  have "read_data (r # rs) = concat (map data (msgs @ msgs'))"
    using read_append(2) [of "[r]" rs] assms(2,4) msgs'(3) by simp
  with assms(1,3,5) msgs'(1,2) show ?thesis
    unfolding relay_sent_def by (intro exI [of _ "msgs @ msgs'"]) (auto simp: stdout_msgs_ok_def)
qed

context closing_stream
begin

lemma agent_relay_sends:
  assumes src: "byte_source rd view adv eof" and "writable (rl_channel s)"
    and "reads_fit (copy_buffer_len (rl_channel s)) (agent_reads evs)" "\<not> list_ex is_join evs"
  shows "\<exists>s'. run_agent_relay rd wr cl sw evs s = Some (Pending, s') \<and> relay_sent written (agent_reads evs) s s'"
  using assms(2-4)
proof (induction evs arbitrary: s)
  case Nil
  then show ?case
    by (simp add: relay_sent_refl)
next
  case (Cons ev evs)
  show ?case
  proof (cases ev)
    case AgentTo
    show ?thesis
    proof (cases "rl_to s")
      case None
      obtain s1 where s1: "to_socket_iteration rd sw s = Some s1"
        using to_socket_returns [OF byte_source.next_message_returns [OF src]] by blast
      note frame = to_socket_frame [OF s1]
      then have "writable (rl_channel s1)" "copy_buffer_len (rl_channel s1) = copy_buffer_len (rl_channel s)"
        using Cons.prems(1) by (simp_all add: writable_def copy_buffer_len_def)
      with Cons.IH [of s1] Cons.prems AgentTo obtain s'
        where "run_agent_relay rd wr cl sw evs s1 = Some (Pending, s')" "relay_sent written (agent_reads evs) s1 s'"
        by auto
      with None AgentTo s1 frame show ?thesis
        by (auto intro: relay_sent_to)
    qed (use Cons AgentTo in simp)
  next
    case (AgentFrom r)
    then have fit: "reads_fit (copy_buffer_len (rl_channel s)) [r]" "reads_fit (copy_buffer_len (rl_channel s)) (agent_reads evs)"
      using Cons.prems(2) by (auto simp: reads_fit_def)
    show ?thesis
    proof (cases "rl_from s")
      case None
      obtain w f msgs where s1: "from_socket_iteration wr (close_ignoring cl) r s
            = Some (s\<lparr>rl_channel := (rl_channel s)\<lparr>send := w\<rparr>, rl_from := f\<rparr>)"
          and f: "f \<noteq> None \<longleftrightarrow> read_ended [r]"
          and msgs: "stdout_msgs_ok msgs" "concat (map data msgs) = read_data [r]"
            "written w = written (send (rl_channel s)) @ concat (map data_packet msgs)"
        using from_socket_relays [OF Cons.prems(1) fit(1)] None by auto
      let ?s1 = "s\<lparr>rl_channel := (rl_channel s)\<lparr>send := w\<rparr>, rl_from := f\<rparr>"
      obtain s' where s': "run_agent_relay rd wr cl sw evs ?s1 = Some (Pending, s')"
          and sent: "relay_sent written (agent_reads evs) ?s1 s'"
        using Cons.IH [of ?s1] Cons.prems fit(2) AgentFrom by auto
      have "relay_sent written (r # agent_reads evs) s s'"
        by (rule relay_sent_from [OF None _ msgs(1,2) _ sent]) (use f msgs(3) in \<open>simp_all del: read_ended.simps\<close>)
      with s1 s' None AgentFrom show ?thesis
        by simp
    next
      case (Some f)
      with Cons.IH [of s] Cons.prems fit(2) AgentFrom show ?thesis
        by (force intro: relay_sent_skip)
    qed
  qed (use Cons.prems in simp_all)
qed

end

text \<open>The other direction: messages on the channel are written to the socket, in order.\<close>

fun agent_turns :: "agent_relay_event list \<Rightarrow> nat" where
  "agent_turns [] = 0"
| "agent_turns (AgentTo # evs) = Suc (agent_turns evs)"
| "agent_turns (_ # evs) = agent_turns evs"

context byte_source
begin

lemma to_socket_relays:
  assumes "reliable_stream sw received" "confirm_sent (rl_channel s)" "stdout_msgs_ok (m # msgs)"
    and "view (recv (rl_channel s)) = concat (map data_packet (m # msgs)) @ rest"
  shows "\<exists>s'. to_socket_iteration rd sw s = Some s' \<and> rl_to s' = rl_to s \<and> confirm_sent (rl_channel s')
    \<and> received (rl_socket s') = received (rl_socket s) @ data m
    \<and> view (recv (rl_channel s')) = concat (map data_packet msgs) @ rest"
proof -
  let ?c = "rl_channel s"
  let ?c' = "?c\<lparr>recv := adv (length (data_packet m)) (recv ?c)\<rparr>"
  have m: "message_ok (Data m)" "\<not> is_confirmation (Data m)" "data_type m = SSH_EXTENDED_DATA_NONE"
    using assms(3) by (simp_all add: stdout_msgs_ok_def del: message_ok.simps)
  have "next_message rd ?c = Some (Ok (Data m), ?c')"
    using next_message_skips [of "[]" "Data m" ?c "concat (map data_packet msgs) @ rest"] m(1,2) assms(2,4)
    by (simp add: data_packet_def del: message_ok.simps message_fields.simps)
  moreover obtain k where "sw (data m) (rl_socket s) = (Ok (), k)"
    using reliable_stream.write_succeeds [OF assms(1)] by blast
  moreover have "received k = received (rl_socket s) @ data m"
    using send_stream.write_all_ok [OF reliable_stream.axioms(1) [OF assms(1)]] calculation(2) by blast
  moreover have "view (recv ?c') = concat (map data_packet msgs) @ rest"
    using assms(4) view_adv [of "length (data_packet m)" "recv ?c"] by simp
  ultimately show ?thesis
    using m(3) assms(2) by (simp add: to_socket_iteration_def)
qed

end

context closing_stream
begin

lemma agent_relay_receives:
  assumes src: "byte_source rd view adv eof" and sock: "reliable_stream sw received"
    and "writable (rl_channel s)" "reads_fit (copy_buffer_len (rl_channel s)) (agent_reads evs)" "\<not> list_ex is_join evs"
    and "confirm_sent (rl_channel s)" "rl_to s = None" "stdout_msgs_ok msgs" "agent_turns evs \<le> length msgs"
    and "view (recv (rl_channel s)) = concat (map data_packet msgs) @ rest"
  shows "\<exists>s'. run_agent_relay rd wr cl sw evs s = Some (Pending, s')
    \<and> received (rl_socket s') = received (rl_socket s) @ concat (map data (take (agent_turns evs) msgs))"
  using assms(3-10)
proof (induction evs arbitrary: s msgs)
  case Nil
  then show ?case
    by simp
next
  case (Cons ev evs)
  show ?case
  proof (cases ev)
    case AgentTo
    with Cons.prems(7) obtain m msgs' where msgs: "msgs = m # msgs'"
      by (cases msgs) auto
    obtain s1 where s1: "to_socket_iteration rd sw s = Some s1" "rl_to s1 = rl_to s" "confirm_sent (rl_channel s1)"
      "received (rl_socket s1) = received (rl_socket s) @ data m"
      "view (recv (rl_channel s1)) = concat (map data_packet msgs') @ rest"
      using byte_source.to_socket_relays [OF src sock Cons.prems(4)] Cons.prems(6,8) msgs by blast
    from to_socket_frame [OF s1(1)]
    have "writable (rl_channel s1)" "copy_buffer_len (rl_channel s1) = copy_buffer_len (rl_channel s)"
      using Cons.prems(1) by (simp_all add: writable_def copy_buffer_len_def)
    with Cons.IH [of s1 msgs'] Cons.prems s1 AgentTo msgs show ?thesis
      by (auto simp: stdout_msgs_ok_def simp del: message_ok.simps)
  next
    case (AgentFrom r)
    then have fit: "reads_fit (copy_buffer_len (rl_channel s)) [r]" "reads_fit (copy_buffer_len (rl_channel s)) (agent_reads evs)"
      using Cons.prems(2) by (auto simp: reads_fit_def)
    show ?thesis
    proof (cases "rl_from s")
      case None
      obtain w f where s1: "from_socket_iteration wr (close_ignoring cl) r s
            = Some (s\<lparr>rl_channel := (rl_channel s)\<lparr>send := w\<rparr>, rl_from := f\<rparr>)"
        using from_socket_relays [OF Cons.prems(1) fit(1)] by blast
      with Cons.IH [of "s\<lparr>rl_channel := (rl_channel s)\<lparr>send := w\<rparr>, rl_from := f\<rparr>" msgs] Cons.prems fit(2) None AgentFrom
      show ?thesis
        by simp
    qed (use Cons AgentFrom fit in simp)
  qed (use Cons.prems in simp_all)
qed

end

section \<open>Properties of forwarding\<close>

lemma relay_sent_delivered:
  assumes "closing_stream wr written cl" "reliable_stream sw received" "byte_source rd view adv eof"
    and "relay_sent written rs (relay_start a k) s" "writable b" "confirm_sent b"
    and "view (recv b) = drop (length (written (send a))) (written (send (rl_channel s)))"
  shows "\<exists>n. \<forall>evs j. agent_turns evs = n \<and> \<not> list_ex is_join evs \<and> reads_fit (copy_buffer_len b) (agent_reads evs) \<longrightarrow>
    (\<exists>s'. run_agent_relay rd wr cl sw evs (relay_start b j) = Some (Pending, s')
      \<and> received (rl_socket s') = received j @ read_data rs)"
proof -
  obtain msgs where msgs: "stdout_msgs_ok msgs" "concat (map data msgs) = read_data rs"
    "written (send (rl_channel s)) = written (send a) @ concat (map data_packet msgs)"
    using assms(4) by (auto simp: relay_sent_def relay_start_def)
  have "\<exists>s'. run_agent_relay rd wr cl sw evs (relay_start b j) = Some (Pending, s')
      \<and> received (rl_socket s') = received j @ read_data rs"
    if "agent_turns evs = length msgs" "\<not> list_ex is_join evs" "reads_fit (copy_buffer_len b) (agent_reads evs)" for evs j
    using closing_stream.agent_relay_receives [OF assms(1,3,2), of "relay_start b j" evs msgs "[]"] that assms(5-7) msgs
    by (simp add: relay_start_def)
  then show ?thesis
    by blast
qed


definition demo_agent_server :: "bytes \<Rightarrow> (bytes_receive_stream, recording_send_stream) channel" where
  "demo_agent_server incoming = (memory_channel 100 None incoming)\<lparr>confirm_received := True\<rparr>"

lemma demo_agent_run:
  "map_option (\<lambda>(r, c, k). rss_bytes (send c)) (handle_agent_socket_conn brs_read_exact rss_write_all rss_close rss_write_all
     rss_new [AgentFrom (Ok [104, 105])] (demo_agent_server [])) = Some [64, 94, 2, 104, 105]"
  by code_simp


text \<open>
  C40: When the remote end of a forwarded TCP connection closes it, the peer is not told. The task that reads
  from the socket ends without touching the channel, and the handler keeps waiting: whatever is read
  afterwards, as long as the peer sends nothing and the connection stays open, the channel is exactly as
  it was, neither closed nor written to.
\<close>

theorem tcp_remote_end_not_forwarded:
  "handle_tcp_forwarding rd wr sw (Ok k) (FromSocket (Ok []) # map FromSocket rs) c = Some (Pending, c)"
proof -
  have "run_tcp_relay rd wr sw (map FromSocket rs) s = Some s" if "rl_from s \<noteq> None" for s :: "('a, 'b, 'c) relay"
    using that by (induction rs) simp_all
  then show ?thesis
    by (simp add: handle_tcp_forwarding_def relay_start_def from_socket_iteration_def)
qed

text \<open>
  A client decides how much memory the server allocates for it. For every number below \<open>2 ^ 62\<close> there is a
  channel header of at most 32 bytes that makes the server accept a session channel whose output pumps
  allocate, and fill with zeros, a buffer of that many bytes; nothing on the way checks the number.
\<close>

theorem peer_controls_buffer_size:
  assumes "varint_ok n" "varint_ok stream" "router_conversation stream rt = Some peer"
  shows "\<exists>bs rt'. accept_and_route_channel brs_read_exact (Ok (i, w, brs_new bs)) rt = Some (Ok peer, rt')
    \<and> length bs \<le> 32 \<and> copy_buffer_len (chans (convs rt' peer) (chan_next (convs rt peer))) = max (unat n) 1"
proof -
  let ?h = "\<lparr>hdr_conversation_stream_id = stream, hdr_channel_type = bstr ''session'', hdr_max_packet_size = n\<rparr>"
  let ?enc = "concat [var_int_bytes SSH_FRAME_TYPE, concat (header_fields ?h), []]"
  let ?inc = "\<lparr>inc_stream_id = i, inc_header = ?h, inc_forwarding_target = None\<rparr>"
  have ok: "header_ok ?h"
    using assms(1,2) by (simp add: header_ok_def ssh_string_ok_def MAX_SSH_STRING_LEN_def)
  have "decodes (\<lambda>r. cursor_view (brs_inner r)) (\<lambda>n r. r\<lparr>brs_inner := cursor_adv n (brs_inner r)\<rparr>) (\<lambda>_. eof_error)
      Setup_Io (read_incoming_channel brs_read_exact i) ?enc ?inc"
    by (rule brs.decodes_incoming [OF ok]) (simp add: is_forwarding_def)
  from parsesD [OF brs.decodes_parses [OF this], of "brs_new ?enc" "[]"]
  obtain r where "read_incoming_channel brs_read_exact i (brs_new ?enc) = (Ok ?inc, r)"
    by (simp add: brs_new_def)
  from accept_and_route_channel_decoded [OF this, of w rt] assms(3)
  have "\<exists>rt'. accept_and_route_channel brs_read_exact (Ok (i, w, brs_new ?enc)) rt = Some (Ok peer, rt')
      \<and> info_max_packet_size (info (chans (convs rt' peer) (chan_next (convs rt peer)))) = n"
    by (auto simp: route_incoming_channel_eq incoming_channel_def channel_alloc_def routed_wrap_def
        routed_channel_def queue_incoming_accepted_channel_def aq_add_def)
  moreover have "length (var_int_bytes v) \<le> 8" if "varint_ok v" for v
    using is_varint_length [OF is_varint_var_int_bytes [OF that]] by auto
  from this [OF assms(1)] this [OF assms(2)] this [of SSH_FRAME_TYPE] have "length ?enc \<le> 32"
    by (simp add: header_fields_def ssh_bytes_enc_def SSH_FRAME_TYPE_def var_int_bytes_def [of 7] append_var_int_def
        max_varint_defs)
  ultimately show ?thesis
    unfolding copy_buffer_len_def by blast
qed

theorem peer_controls_buffer_size_witness:
  "let rt = register_conversation 7 (router_new (\<lambda>_. memory_conversation))
   in \<exists>bs rt'. accept_and_route_channel brs_read_exact (Ok (8, rss_new, brs_new bs)) rt = Some (Ok 7, rt')
     \<and> length bs \<le> 32 \<and> copy_buffer_len (chans (convs rt' 7) (chan_next (convs rt 7))) = 2 ^ 62 - 1"
proof -
  let ?rt = "register_conversation 7 (router_new (\<lambda>_. memory_conversation))"
  have "varint_ok (2 ^ 62 - 1)" "varint_ok 0" "unat (2 ^ 62 - 1 :: u64) = 2 ^ 62 - 1"
    by (simp_all add: max_varint_defs)
  moreover have "router_conversation 0 ?rt = Some 7"
    by (simp add: router_conversation_def register_conversation_def router_new_def memory_conversation_def
        conversation_new_def)
  ultimately show ?thesis
    using peer_controls_buffer_size [of "2 ^ 62 - 1" 0 ?rt 7 8 rss_new] by (simp add: Let_def)
qed

end
