(* ===== verification/Client_Session.thy ===== *)
theory Client_Session
  imports Forwarding
begin

text \<open>
  Sessions of the client (\<^verbatim>\<open>crates/ssh3-client/src/lib.rs\<close>): the requests it sends, the tasks it starts and the
  two loops that receive a session's output, \<^verbatim>\<open>run_capture_on_client\<close> and \<^verbatim>\<open>run_stdio_on_client\<close>. Unix build.
\<close>

section \<open>Errors and data\<close>

datatype oidc_error =
    Oidc_Io io_error
  | Oidc_Reqwest string
  | Oidc_Url string
  | Oidc_InvalidResponse string
  | Oidc_ProviderError string

datatype client_error =
    MissingHost
  | Cl_Resolve io_error
  | Cl_Endpoint io_error
  | Cl_Connect string
  | Cl_Connection connection_error
  | Cl_QuinnConfig config_error
  | Cl_H3Connection string
  | Cl_ConversationId string
  | Cl_BuildRequest "(string, string) build_connect_request_error"
  | Cl_ClientConversation "(string, string) client_conversation_error"
  | Cl_OpenChannel open_channel_error
  | Cl_Channel channel_error
  | Cl_Io io_error
  | InvalidCertificateBundle
  | InvalidHeaderValue string
  | Cl_SshKey string
  | Cl_Auth auth_error
  | Cl_Oidc oidc_error
  | MissingUsernameForIdentity
  | MissingUsernameForAgent
  | MissingUsernameForPassword
  | AgentUnavailable
  | AgentKeyNotFound
  | UnsupportedAgentKey string
  | ConflictingAuthenticationMethods
  | Cl_ExitSignal exit_signal_request

datatype session_kind = SessionShell | SessionExec string

record terminal_size =
  ts_char_width :: u16
  ts_char_height :: u16
  ts_pixel_width :: u16
  ts_pixel_height :: u16

record local_terminal_info =
  lt_term :: "string option"
  lt_size :: terminal_size

record captured_session =
  cap_server_header :: "string option"
  cap_exit_status :: int
  cap_stdout :: bytes
  cap_stderr :: bytes

section \<open>Requests\<close>

definition client_request ::
    "'w write_all_fn \<Rightarrow> channel_request_message \<Rightarrow> (('r, 'w) channel, client_error, unit) op" where
  "client_request wr m c = map_option (\<lambda>(res, c). (map_sum Cl_Channel id res, c)) (send_request wr m c)"

definition pty_request_message :: "local_terminal_info \<Rightarrow> channel_request_message" where
  "pty_request_message terminal =
     \<lparr>want_reply = True, request = Pty \<lparr>pty_term = (case lt_term terminal of None \<Rightarrow> [] | Some t \<Rightarrow> bstr t),
        pty_char_width = ucast (ts_char_width (lt_size terminal)),
        pty_char_height = ucast (ts_char_height (lt_size terminal)),
        pty_pixel_width = ucast (ts_pixel_width (lt_size terminal)),
        pty_pixel_height = ucast (ts_pixel_height (lt_size terminal)),
        pty_encoded_terminal_modes = []\<rparr>\<rparr>"

definition send_pty_request ::
    "'w write_all_fn \<Rightarrow> local_terminal_info \<Rightarrow> (('r, 'w) channel, client_error, unit) op" where
  "send_pty_request wr terminal = client_request wr (pty_request_message terminal)"

fun session_kind_message :: "session_kind \<Rightarrow> channel_request_message" where
  "session_kind_message SessionShell = \<lparr>want_reply = True, request = Shell\<rparr>"
| "session_kind_message (SessionExec command) =
     \<lparr>want_reply = True, request = Exec \<lparr>exec_command = bstr command\<rparr>\<rparr>"

definition send_initial_session_requests ::
    "'w write_all_fn \<Rightarrow> session_kind \<Rightarrow> local_terminal_info option \<Rightarrow> (('r, 'w) channel, client_error, unit) op" where
  "send_initial_session_requests wr kind terminal =
     pbind (case (kind, terminal) of (SessionShell, Some t) \<Rightarrow> send_pty_request wr t | _ \<Rightarrow> pret ())
       (\<lambda>_. client_request wr (session_kind_message kind))"

definition send_forward_agent_request :: "'w write_all_fn \<Rightarrow> (('r, 'w) channel, client_error, unit) op" where
  "send_forward_agent_request wr c = map_option (\<lambda>(res, c). (map_sum Cl_Channel (\<lambda>_. ()) res, c))
     (write_data wr (bstr ''forward-agent'') SSH_EXTENDED_DATA_NONE c)"

definition window_change_message :: "terminal_size \<Rightarrow> channel_request_message" where
  "window_change_message sz =
     \<lparr>want_reply = False, request = WindowChange \<lparr>win_char_width = ucast (ts_char_width sz),
        win_char_height = ucast (ts_char_height sz), win_pixel_width = ucast (ts_pixel_width sz),
        win_pixel_height = ucast (ts_pixel_height sz)\<rparr>\<rparr>"

definition send_window_change_request ::
    "'w write_all_fn \<Rightarrow> terminal_size \<Rightarrow> (('r, 'w) channel, client_error, unit) op" where
  "send_window_change_request wr sz = client_request wr (window_change_message sz)"

definition send_signal_request ::
    "'w write_all_fn \<Rightarrow> string \<Rightarrow> (('r, 'w) channel, client_error, unit) op" where
  "send_signal_request wr signal_name = client_request wr
     \<lparr>want_reply = False, request = Signal \<lparr>sig_name_without_sig = bstr signal_name\<rparr>\<rparr>"

section \<open>The terminal\<close>

definition read_terminal_size :: "io_error + winsize \<Rightarrow> client_error + terminal_size" where
  "read_terminal_size ioctl = map_sum Cl_Io (\<lambda>ws. \<lparr>ts_char_width = ws_col ws, ts_char_height = ws_row ws,
     ts_pixel_width = ws_xpixel ws, ts_pixel_height = ws_ypixel ws\<rparr>) ioctl"

definition detect_local_terminal ::
    "bool \<Rightarrow> string option \<Rightarrow> io_error + winsize \<Rightarrow> client_error + local_terminal_info option" where
  "detect_local_terminal is_tty term_var ioctl =
     (if \<not> is_tty then Ok None
      else map_sum id (\<lambda>sz. Some \<lparr>lt_term = (case term_var of Some t \<Rightarrow> if t = [] then None else Some t | None \<Rightarrow> None),
        lt_size = sz\<rparr>) (read_terminal_size ioctl))"

text \<open>The task that forwards window changes, over what the ioctl answers at each change.\<close>

fun resize_forwarder ::
    "'w write_all_fn \<Rightarrow> (io_error + winsize) list \<Rightarrow> ('r, 'w) channel \<Rightarrow> ('r, 'w) channel option" where
  "resize_forwarder wr [] c = Some c"
| "resize_forwarder wr (ioctl # rest) c = (case read_terminal_size ioctl of
       Err _ \<Rightarrow> Some c
     | Ok sz \<Rightarrow> (case send_window_change_request wr sz c of
         None \<Rightarrow> None
       | Some (Err _, c) \<Rightarrow> Some c
       | Some (Ok _, c) \<Rightarrow> resize_forwarder wr rest c))"

text \<open>A task that forwards a signal, as often as it is received.\<close>

fun signal_forwarder :: "'w write_all_fn \<Rightarrow> string \<Rightarrow> nat \<Rightarrow> ('r, 'w) channel \<Rightarrow> ('r, 'w) channel option" where
  "signal_forwarder wr name 0 c = Some c"
| "signal_forwarder wr name (Suc n) c = (case send_signal_request wr name c of
       None \<Rightarrow> None
     | Some (Err _, c) \<Rightarrow> Some c
     | Some (Ok _, c) \<Rightarrow> signal_forwarder wr name n c)"

definition forwarded_signals :: "(string \<times> unix_signal) list" where
  "forwarded_signals = [(''INT'', SIGINT), (''TERM'', SIGTERM), (''QUIT'', SIGQUIT), (''HUP'', SIGHUP)]"

text \<open>
  The background tasks of a session: the signals whose handler could be installed, the resize task and
  the agent forwarder. \<open>raw_mode\<close> and \<open>agent_socket\<close> are what switching the terminal to raw mode and
  resolving the agent's socket answer.
\<close>

record session_runtime =
  run_signals :: "string list"
  run_resize :: bool
  run_raw_mode :: bool
  run_agent :: "string option"

definition build_session_runtime ::
    "(unix_signal \<Rightarrow> bool) \<Rightarrow> io_error + unit \<Rightarrow> client_error + string \<Rightarrow> bool \<Rightarrow> session_kind \<Rightarrow> bool
     \<Rightarrow> client_error + session_runtime" where
  "build_session_runtime handler_ok raw_mode agent_socket forward_agent kind terminal =
     (let signals = map fst (filter (\<lambda>(name, sig). handler_ok sig) forwarded_signals);
          on_terminal = (kind = SessionShell \<and> terminal)
      in and_then (if on_terminal then map_sum Cl_Io (\<lambda>_. True) raw_mode else Ok False) (\<lambda>raw.
         and_then (if forward_agent then map_sum id Some agent_socket else Ok None) (\<lambda>agent.
         Ok \<lparr>run_signals = signals, run_resize = on_terminal, run_raw_mode = raw, run_agent = agent\<rparr>)))"

section \<open>Receiving a session\<close>

text \<open>\<^verbatim>\<open>status.exit_status as i32\<close> keeps the low 32 bits.\<close>

definition exit_status_as_i32 :: "u64 \<Rightarrow> int" where
  "exit_status_as_i32 status = sint (ucast status :: 32 word)"

text \<open>One message: the data collected so far, or how the loop ends.\<close>

fun capture_message ::
    "message \<Rightarrow> bytes \<Rightarrow> bytes \<Rightarrow> (bytes \<times> bytes) + (client_error + (int \<times> bytes \<times> bytes))" where
  "capture_message (Data d) out err =
     (if data_type d = SSH_EXTENDED_DATA_NONE then Inl (out @ data d, err)
      else if data_type d = SSH_EXTENDED_DATA_STDERR then Inl (out, err @ data d)
      else Inl (out, err))"
| "capture_message (ChannelRequest m) out err = (case request m of
       ExitStatus status \<Rightarrow> Inr (Ok (exit_status_as_i32 (exit_status status), out, err))
     | ExitSignal s \<Rightarrow> Inr (Err (Cl_ExitSignal s))
     | _ \<Rightarrow> Inl (out, err))"
| "capture_message _ out err = Inl (out, err)"

partial_function (option) capture_loop ::
    "'r read_exact_fn \<Rightarrow> bytes \<Rightarrow> bytes \<Rightarrow> ('r, 'w) channel
     \<Rightarrow> ((client_error + (int \<times> bytes \<times> bytes)) \<times> ('r, 'w) channel) option" where
  "capture_loop rd out err c = (case next_message rd c of
       None \<Rightarrow> None
     | Some (Err e, c) \<Rightarrow> Some (Err (Cl_Channel e), c)
     | Some (Ok m, c) \<Rightarrow> (case capture_message m out err of
         Inl (out, err) \<Rightarrow> capture_loop rd out err c
       | Inr res \<Rightarrow> Some (res, c)))"

definition client_close :: "'w close_fn \<Rightarrow> (('r, 'w) channel, client_error, unit) op" where
  "client_close cl c = map_option (\<lambda>(res, c). (map_sum Cl_Channel id res, c)) (channel_close cl c)"

text \<open>The whole exchange, from the opened channel on.\<close>

definition run_capture_on_client ::
    "'r read_exact_fn \<Rightarrow> 'w write_all_fn \<Rightarrow> 'w close_fn \<Rightarrow> (unix_signal \<Rightarrow> bool) \<Rightarrow> client_error + string
     \<Rightarrow> string option \<Rightarrow> bool \<Rightarrow> session_kind \<Rightarrow> (('r, 'w) channel, client_error, captured_session) op" where
  "run_capture_on_client rd wr cl handler_ok agent_socket server_hdr forward_agent kind =
     pbind (if forward_agent then send_forward_agent_request wr else pret ()) (\<lambda>_.
     pbind (\<lambda>c. Some (build_session_runtime handler_ok (Ok ()) agent_socket forward_agent kind False, c)) (\<lambda>_.
     pbind (send_initial_session_requests wr kind None) (\<lambda>_.
     pbind (if forward_agent then pret () else client_close cl) (\<lambda>_.
     pbind (capture_loop rd [] []) (\<lambda>(code, out, err).
     pret \<lparr>cap_server_header = server_hdr, cap_exit_status = code, cap_stdout = out, cap_stderr = err\<rparr>)))))"

text \<open>The interactive variant writes (and flushes) what it receives to the local streams.\<close>

fun stdio_message ::
    "'o write_all_fn \<Rightarrow> message \<Rightarrow> 'o \<Rightarrow> 'o \<Rightarrow> (client_error + int) option \<times> 'o \<times> 'o" where
  "stdio_message sw (Data d) out err =
     (if data_type d = SSH_EXTENDED_DATA_NONE then
        (case sw (data d) out of
           (Ok _, out) \<Rightarrow> (None, out, err)
         | (Err e, out) \<Rightarrow> (Some (Err (Cl_Io e)), out, err))
      else if data_type d = SSH_EXTENDED_DATA_STDERR then
        (case sw (data d) err of
           (Ok _, err) \<Rightarrow> (None, out, err)
         | (Err e, err) \<Rightarrow> (Some (Err (Cl_Io e)), out, err))
      else (None, out, err))"
| "stdio_message sw (ChannelRequest m) out err = (case request m of
       ExitStatus status \<Rightarrow> (Some (Ok (exit_status_as_i32 (exit_status status))), out, err)
     | ExitSignal s \<Rightarrow> (Some (Err (Cl_ExitSignal s)), out, err)
     | _ \<Rightarrow> (None, out, err))"
| "stdio_message sw _ out err = (None, out, err)"

partial_function (option) stdio_loop ::
    "'r read_exact_fn \<Rightarrow> 'o write_all_fn \<Rightarrow> 'o \<Rightarrow> 'o \<Rightarrow> ('r, 'w) channel
     \<Rightarrow> ((client_error + int) \<times> ('r, 'w) channel \<times> 'o \<times> 'o) option" where
  "stdio_loop rd sw out err c = (case next_message rd c of
       None \<Rightarrow> None
     | Some (Err e, c) \<Rightarrow> Some (Err (Cl_Channel e), c, out, err)
     | Some (Ok m, c) \<Rightarrow> (case stdio_message sw m out err of
         (None, out, err) \<Rightarrow> stdio_loop rd sw out err c
       | (Some res, out, err) \<Rightarrow> Some (res, c, out, err)))"

declare capture_loop.simps [code] stdio_loop.simps [code]

text \<open>The task that sends standard input; it closes the channel at the end of the input.\<close>

fun stdin_task :: "'w write_all_fn \<Rightarrow> 'w close_fn \<Rightarrow> (io_error + bytes) list \<Rightarrow> ('r, 'w) channel \<Rightarrow> ('r, 'w) channel option" where
  "stdin_task wr cl [] c = Some c"
| "stdin_task wr cl (Err _ # rs) c = Some c"
| "stdin_task wr cl (Ok chunk # rs) c =
     (if chunk = [] then Some (close_ignoring cl c)
      else case write_data wr chunk SSH_EXTENDED_DATA_NONE c of
          None \<Rightarrow> None
        | Some (Err _, c) \<Rightarrow> Some c
        | Some (Ok _, c) \<Rightarrow> stdin_task wr cl rs c)"

text \<open>
  The interactive session, from the opened channel on. The input task runs beside the loop and works on
  the sending half only, so it is run first, over the reads it gets to before it is aborted.
\<close>

definition run_stdio_on_client ::
    "'r read_exact_fn \<Rightarrow> 'w write_all_fn \<Rightarrow> 'w close_fn \<Rightarrow> 'o write_all_fn \<Rightarrow> (unix_signal \<Rightarrow> bool) \<Rightarrow> io_error + unit
     \<Rightarrow> client_error + string \<Rightarrow> client_error + local_terminal_info option \<Rightarrow> bool \<Rightarrow> session_kind
     \<Rightarrow> (io_error + bytes) list \<Rightarrow> 'o \<Rightarrow> 'o \<Rightarrow> (('r, 'w) channel, client_error, int \<times> 'o \<times> 'o) op" where
  "run_stdio_on_client rd wr cl sw handler_ok raw_mode agent_socket terminal forward_agent kind stdin out err =
     pbind (\<lambda>c. Some (terminal, c)) (\<lambda>terminal.
     pbind (if forward_agent then send_forward_agent_request wr else pret ()) (\<lambda>_.
     pbind (send_initial_session_requests wr kind terminal) (\<lambda>_.
     pbind (\<lambda>c. Some (build_session_runtime handler_ok raw_mode agent_socket forward_agent kind (terminal \<noteq> None), c)) (\<lambda>_.
     pbind (\<lambda>c. map_option (\<lambda>c. (Ok (), c)) (stdin_task wr cl stdin c)) (\<lambda>_ c.
     map_option (\<lambda>(res, c, out, err). (map_sum id (\<lambda>code. (code, out, err)) res, c)) (stdio_loop rd sw out err c))))))"

section \<open>What is received\<close>

lemma exit_status_as_i32_of_nat:
  assumes "n < 2 ^ 31"
  shows "exit_status_as_i32 (of_nat n) = int n"
proof -
  have "(ucast (of_nat n :: u64) :: 32 word) = of_nat n"
    using assms by (simp add: unsigned_of_nat take_bit_eq_mod)
  then show ?thesis
    using assms by (simp add: exit_status_as_i32_def signed_of_nat signed_take_bit_int_eq_self)
qed

text \<open>The exit code a client is told: a process without one, killed by a signal for example, counts as 1.\<close>

definition reported_code :: "io_error + int option \<Rightarrow> int" where
  "reported_code status = (case status of Ok (Some code) \<Rightarrow> max code 0 | _ \<Rightarrow> 1)"

lemma exit_status_roundtrip:
  assumes "\<forall>code. status = Ok (Some code) \<longrightarrow> code < 2 ^ 31"
  shows "exit_status_as_i32 (exit_status_of status) = reported_code status"
proof -
  have r: "0 \<le> reported_code status" "reported_code status < 2 ^ 31"
    using assms by (auto simp: reported_code_def split: sum.splits option.splits)
  have "exit_status_of status = of_int (reported_code status)"
    by (simp add: exit_status_of_def reported_code_def Let_def split: sum.split option.split)
  also have "\<dots> = of_nat (nat (reported_code status))"
    using r(1) by simp
  finally show ?thesis
    using exit_status_as_i32_of_nat [of "nat (reported_code status)"] r by (simp add: nat_less_iff)
qed

context byte_source
begin

lemma next_message_decodes:
  assumes "message_ok m" "\<not> is_confirmation m" "\<forall>f. m \<noteq> ChannelOpenFailure f" "confirm_sent c"
    and "view (recv c) = concat (message_fields m) @ rest"
  shows "next_message rd c = Some (Ok m, c\<lparr>recv := adv (length (concat (message_fields m))) (recv c)\<rparr>)"
    and "view (recv (c\<lparr>recv := adv (length (concat (message_fields m))) (recv c)\<rparr>)) = rest"
proof -
  have "message_result True m = Ok m"
    using assms(3) by (cases m) auto
  then show "next_message rd c = Some (Ok m, c\<lparr>recv := adv (length (concat (message_fields m))) (recv c)\<rparr>)"
    using next_message_skips [of "[]" m c rest] assms
    by (simp del: message_ok.simps message_fields.simps)
  show "view (recv (c\<lparr>recv := adv (length (concat (message_fields m))) (recv c)\<rparr>)) = rest"
    using assms(5) view_adv [of "length (concat (message_fields m))" "recv c"] by simp
qed

lemma capture_loop_messages:
  assumes "confirm_sent c" "data_msgs_ok msgs" "\<forall>code. status = Ok (Some code) \<longrightarrow> code < 2 ^ 31"
    and "view (recv c) = concat (map data_packet msgs) @ exit_packet status @ rest"
  shows "\<exists>c'. capture_loop rd out err c
    = Some (Ok (reported_code status, out @ payload 0 msgs, err @ payload 1 msgs), c')"
  using assms(1,2,4)
proof (induction msgs arbitrary: c out err)
  case Nil
  let ?m = "ChannelRequest (exit_status_message (exit_status_of status))"
  have "next_message rd c = Some (Ok ?m, c\<lparr>recv := adv (length (concat (message_fields ?m))) (recv c)\<rparr>)"
    using Nil exit_status_ok [OF assms(3)]
    by (intro next_message_decodes(1)) (simp_all add: exit_packet_def del: message_fields.simps message_ok.simps)
  then show ?case
    by (simp add: capture_loop.simps [of rd out err c] exit_status_message_def exit_status_roundtrip [OF assms(3)])
next
  case (Cons m msgs)
  let ?m = "Data m"
  let ?c = "c\<lparr>recv := adv (length (concat (message_fields ?m))) (recv c)\<rparr>"
  have m: "message_ok ?m" "data_type m = 0 \<or> data_type m = 1" "data_msgs_ok msgs"
    using Cons.prems(2) by (simp_all add: data_msgs_ok_def del: message_ok.simps)
  have v: "view (recv c) = concat (message_fields ?m) @ (concat (map data_packet msgs) @ exit_packet status @ rest)"
    using Cons.prems(3) by (simp add: data_packet_def [of m] del: message_fields.simps)
  have "next_message rd c = Some (Ok ?m, ?c)"
    and "view (recv ?c) = concat (map data_packet msgs) @ exit_packet status @ rest"
    using m(1) Cons.prems(1) by (intro next_message_decodes [OF _ _ _ _ v]; simp del: message_ok.simps)+
  with Cons.IH [of ?c "out @ payload 0 [m]" "err @ payload 1 [m]"] Cons.prems(1) m(2,3) show ?case
    by (auto simp: capture_loop.simps [of rd out err c] payload_def SSH_EXTENDED_DATA_NONE_def SSH_EXTENDED_DATA_STDERR_def)
qed

end

text \<open>The requests that start a command touch only the sending half.\<close>

context closing_stream
begin

lemma client_request_relays:
  assumes "writable c" "message_ok (ChannelRequest m)"
  shows "\<exists>w. client_request wr m c = Some (Ok (), c\<lparr>send := w\<rparr>)"
proof -
  obtain w where "send_request wr m c = Some (Ok (), c\<lparr>send := w\<rparr>)"
    by (rule send_request_relays [OF assms])
  then show ?thesis
    by (intro exI [of _ w]) (simp add: client_request_def)
qed

lemma run_capture_exec:
  assumes "writable c" "ssh_string_ok (bstr command)" "\<forall>w. fst (cl w) = Ok ()"
  obtains w where "run_capture_on_client rd wr cl handler_ok agent_socket hdr False (SessionExec command) c
    = pbind (capture_loop rd [] []) (\<lambda>(code, out, err).
        pret \<lparr>cap_server_header = hdr, cap_exit_status = code, cap_stdout = out, cap_stderr = err\<rparr>) (c\<lparr>send := w\<rparr>)"
proof -
  let ?m = "session_kind_message (SessionExec command)"
  obtain w where w: "client_request wr ?m c = Some (Ok (), c\<lparr>send := w\<rparr>)"
    using client_request_relays [OF assms(1), of ?m] assms(2) by auto
  obtain w' where w': "client_close cl (c\<lparr>send := w\<rparr>) = Some (Ok (), c\<lparr>send := w'\<rparr>)"
    using assms(3) by (cases "cl w") (auto simp: client_close_def channel_close_def dest!: spec [of _ w])
  have "build_session_runtime handler_ok (Ok ()) agent_socket False (SessionExec command) False
      = Ok \<lparr>run_signals = map fst (filter (\<lambda>(name, sig). handler_ok sig) forwarded_signals),
            run_resize = False, run_raw_mode = False, run_agent = None\<rparr>"
    by (simp add: build_session_runtime_def)
  with w w' show ?thesis
    by (intro that [of w']) (simp add: run_capture_on_client_def send_initial_session_requests_def pbind_def pret_def
        del: session_kind_message.simps)
qed

end

section \<open>Properties of sessions between client and server\<close>

text \<open>
  Running a command captures exactly what the command wrote, and its exit code. Whatever the order in which
  the server's two output pumps and its exit task get to run, once both outputs have ended and the
  process has exited, the server has sent everything that was read from the process and then its exit
  status; a client that runs the command on the other end of the channel returns the process's standard
  output and standard error, separated and complete up to their ends or first read errors, and its exit
  code (1 for a process that was killed). On a terminal both outputs are one.
\<close>

theorem exec_output_captured:
  assumes "closing_stream wr written cl" "\<forall>w. fst (cl w) = Ok ()" "byte_source rd view adv eof"
    and "writable sc" "reads_fit (copy_buffer_len sc) (stdout_reads evs @ stderr_reads evs)" "codes_ok None evs"
    and "read_ended (stdout_reads evs)" "pty \<or> read_ended (stderr_reads evs)" "first_exit evs = Some status"
    and "writable cc" "confirm_sent cc" "ssh_string_ok (bstr command)"
  shows "\<exists>s. run_output wr evs (output_start pty sc) = Some s
   \<and> (view (recv cc) = drop (length (written (send sc))) (written (send (o_channel s))) @ rest \<longrightarrow>
      (\<exists>c'. run_capture_on_client rd wr cl handler_ok agent_socket hdr False (SessionExec command) cc
        = Some (Ok \<lparr>cap_server_header = hdr, cap_exit_status = reported_code status,
            cap_stdout = read_data (stdout_reads evs),
            cap_stderr = (if pty then [] else read_data (stderr_reads evs))\<rparr>, c')))"
proof -
  note stream = closing_stream.axioms(1) [OF assms(1)]
  let ?s0 = "output_start pty sc"
  have "output_ok ?s0" "o_exit ?s0 = None" "o_channel ?s0 = sc" "\<not> o_reported ?s0"
    using assms(4) by (simp_all add: output_ok_def output_start_def)
  with reliable_stream.run_output_relays [OF stream, of ?s0 evs] assms(5,6)
  obtain s msgs where run: "run_output wr evs ?s0 = Some s" and ok: "output_ok s"
    and eff: "output_effect written evs ?s0 s msgs (if o_reported s then exit_packet (the (o_exit s)) else [])"
    by auto
  note e = output_effectD [OF eff]
  have s: "o_exit s = Some status" "o_stdout s" "o_stderr s"
    using e(3-5) assms(7-9) by (auto simp: output_start_def)
  then have "o_reported s"
    using ok by (simp add: output_ok_def)
  with e(2) s have sent: "written (send (o_channel s)) = written (send sc) @ concat (map data_packet msgs) @ exit_packet status"
    by (simp add: output_start_def)
  have code: "\<forall>code. status = Ok (Some code) \<longrightarrow> code < 2 ^ 31"
    using assms(6) first_exit_mem [OF assms(9)] by (auto simp: codes_ok_def)
  have data: "payload 0 msgs = read_data (stdout_reads evs)"
    "payload 1 msgs = (if pty then [] else read_data (stderr_reads evs))"
    using e(8,9) by (simp_all add: output_start_def)
  obtain w where client: "run_capture_on_client rd wr cl handler_ok agent_socket hdr False (SessionExec command) cc
    = pbind (capture_loop rd [] []) (\<lambda>(code, out, err).
        pret \<lparr>cap_server_header = hdr, cap_exit_status = code, cap_stdout = out, cap_stderr = err\<rparr>) (cc\<lparr>send := w\<rparr>)"
    by (rule closing_stream.run_capture_exec [OF assms(1,10,12,2)])
  have "\<exists>c'. capture_loop rd [] [] (cc\<lparr>send := w\<rparr>) = Some (Ok (reported_code status, payload 0 msgs, payload 1 msgs), c')"
    if "view (recv cc) = drop (length (written (send sc))) (written (send (o_channel s))) @ rest"
    using byte_source.capture_loop_messages [OF assms(3) _ e(6) code, of "cc\<lparr>send := w\<rparr>" rest "[]" "[]"] assms(11) that
    by (simp add: sent)
  with run client data show ?thesis
    by (auto simp: pbind_def pret_def)
qed

definition demo_output_events :: "output_event list" where
  "demo_output_events = [StderrRead (Ok [33]), StdoutRead (Ok [104, 105]), ChildExited (Ok (Some 3)),
     StdoutRead (Ok []), StderrRead (Ok [])]"

lemma demo_output_run:
  "map_option (\<lambda>s. rss_bytes (send (o_channel s))) (run_output rss_write_all demo_output_events
     (output_start False (memory_channel 100 None [])))
   = Some ([64, 95, 1, 1, 33] @ [64, 94, 2, 104, 105] @ [64, 98, 11, 101, 120, 105, 116, 45, 115, 116, 97, 116, 117, 115, 0, 3])"
  by code_simp

theorem exec_output_captured_witness:
  "\<exists>c'. run_capture_on_client brs_read_exact rss_write_all rss_close (\<lambda>_. True) (Err AgentUnavailable) None False
      (SessionExec ''ls'') (memory_channel 100 None ([64, 95, 1, 1, 33] @ [64, 94, 2, 104, 105]
        @ [64, 98, 11, 101, 120, 105, 116, 45, 115, 116, 97, 116, 117, 115, 0, 3]))
    = Some (Ok \<lparr>cap_server_header = None, cap_exit_status = 3, cap_stdout = [104, 105], cap_stderr = [33]\<rparr>, c')"
proof -
  let ?sc = "memory_channel 100 None []"
  let ?cc = "memory_channel 100 None ([64, 95, 1, 1, 33] @ [64, 94, 2, 104, 105]
        @ [64, 98, 11, 101, 120, 105, 116, 45, 115, 116, 97, 116, 117, 115, 0, 3])"
  have h: "\<forall>w. fst (rss_close w) = Ok ()" "writable ?sc"
    "reads_fit (copy_buffer_len ?sc) (stdout_reads demo_output_events @ stderr_reads demo_output_events)"
    "codes_ok None demo_output_events" "read_ended (stdout_reads demo_output_events)"
    "False \<or> read_ended (stderr_reads demo_output_events)" "first_exit demo_output_events = Some (Ok (Some 3))"
    "writable ?cc" "confirm_sent ?cc" "ssh_string_ok (bstr ''ls'')"
    by (simp_all add: rss_close_def writable_def memory_channel_def MAX_SSH_STRING_LEN_def reads_fit_def copy_buffer_len_def
        demo_output_events_def codes_ok_def ssh_string_ok_def)
  obtain s where s: "run_output rss_write_all demo_output_events (output_start False ?sc) = Some s"
    and client: "cursor_view (brs_inner (recv ?cc))
        = drop (length (rss_bytes (send ?sc))) (rss_bytes (send (o_channel s))) @ [] \<longrightarrow>
      (\<exists>c'. run_capture_on_client brs_read_exact rss_write_all rss_close (\<lambda>_. True) (Err AgentUnavailable) None False
          (SessionExec ''ls'') ?cc
        = Some (Ok \<lparr>cap_server_header = None, cap_exit_status = reported_code (Ok (Some 3)),
            cap_stdout = read_data (stdout_reads demo_output_events),
            cap_stderr = (if False then [] else read_data (stderr_reads demo_output_events))\<rparr>, c'))"
    using exec_output_captured [OF rss_closing.closing_stream_axioms h(1) brs.byte_source_axioms h(2-10),
        of "[]" "\<lambda>_. True" "Err AgentUnavailable" None] by blast
  have "cursor_view (brs_inner (recv ?cc)) = drop (length (rss_bytes (send ?sc))) (rss_bytes (send (o_channel s))) @ []"
    using demo_output_run by (simp add: s) (simp add: memory_channel_def brs_new_def rss_new_def)
  with client show ?thesis
    by (simp add: reported_code_def demo_output_events_def)
qed

end
