(* ===== verification/Agent_Protocol.thy ===== *)
theory Agent_Protocol
  imports Client_Session
begin

text \<open>
  The client's configuration and its use of an SSH agent (\<^verbatim>\<open>crates/ssh3-client/src/agent.rs\<close>): the agent
  protocol's messages and how a bearer token is signed by the agent. The socket to the agent is a state
  with the operations \<^verbatim>\<open>read_exact\<close> and \<^verbatim>\<open>write_all\<close>; the key and signature formats of the crate \<^verbatim>\<open>ssh_key\<close> are
  arguments. Unix build.
\<close>

section \<open>Configuration\<close>

datatype trust_strategy = WebPkiRoots | Certificates "bytes list" | Insecure

record oidc_config =
  oi_issuer_url :: string
  oi_client_id :: string
  oi_client_secret :: "string option"
  oi_use_pkce :: bool

datatype agent_selection = First | PublicKeyFile string

record 'u client_config =
  cc_target_url :: 'u
  cc_server_name :: "string option"
  cc_username :: "string option"
  cc_identity_file :: "string option"
  cc_agent :: "agent_selection option"
  cc_agent_socket :: "string option"
  cc_forward_agent :: bool
  cc_password :: "string option"
  cc_bearer_token :: "string option"
  cc_oidc :: "oidc_config option"
  cc_user_agent :: string
  cc_max_packet_size :: u64
  cc_datagrams_queue_size :: nat
  cc_trust :: trust_strategy

definition DEFAULT_USER_AGENT :: string where "DEFAULT_USER_AGENT = SSH3_VERSION_STRING"

definition client_config_new :: "'u \<Rightarrow> 'u client_config" where
  "client_config_new target_url =
     \<lparr>cc_target_url = target_url, cc_server_name = None, cc_username = None, cc_identity_file = None, cc_agent = None,
      cc_agent_socket = None, cc_forward_agent = False, cc_password = None, cc_bearer_token = None, cc_oidc = None,
      cc_user_agent = DEFAULT_USER_AGENT, cc_max_packet_size = 30000, cc_datagrams_queue_size = 10, cc_trust = WebPkiRoots\<rparr>"

section \<open>The agent protocol\<close>

definition SSH_AGENT_FAILURE :: u8 where "SSH_AGENT_FAILURE = 5"
definition SSH_AGENTC_REQUEST_IDENTITIES :: u8 where "SSH_AGENTC_REQUEST_IDENTITIES = 11"
definition SSH_AGENT_IDENTITIES_ANSWER :: u8 where "SSH_AGENT_IDENTITIES_ANSWER = 12"
definition SSH_AGENTC_SIGN_REQUEST :: u8 where "SSH_AGENTC_SIGN_REQUEST = 13"
definition SSH_AGENT_SIGN_RESPONSE :: u8 where "SSH_AGENT_SIGN_RESPONSE = 14"
definition SSH_AGENT_RSA_SHA2_256 :: u32 where "SSH_AGENT_RSA_SHA2_256 = 2"

lemmas agent_numbers = SSH_AGENT_FAILURE_def SSH_AGENTC_REQUEST_IDENTITIES_def SSH_AGENT_IDENTITIES_ANSWER_def
  SSH_AGENTC_SIGN_REQUEST_def SSH_AGENT_SIGN_RESPONSE_def

text \<open>The signatures of \<^verbatim>\<open>ssh_key\<close>, as far as the code looks into them.\<close>

datatype hash_alg = Sha256 | Sha512

datatype signature_algorithm = Sig_Ed25519 | Sig_Rsa "hash_alg option" | Sig_Other string

record agent_signature =
  sig_algorithm :: signature_algorithm
  sig_bytes :: bytes

record agent_identity =
  key_blob :: bytes
  id_public_key :: public_key

text \<open>The operations of \<^verbatim>\<open>ssh_key\<close> that only the agent's client uses.\<close>

record agent_crates =
  public_key_from_bytes :: "bytes \<Rightarrow> string + public_key"
  public_key_to_bytes :: "public_key \<Rightarrow> string + bytes"
  read_public_key_file :: "string \<Rightarrow> string + public_key"
  signature_try_from :: "bytes \<Rightarrow> string + agent_signature"

abbreviation agent_io_error :: "error_kind \<Rightarrow> string \<Rightarrow> client_error" where
  "agent_io_error k m \<equiv> Cl_Io (io_error_new k m)"

text \<open>\<^verbatim>\<open>bytes.len() as u32\<close> keeps the low 32 bits.\<close>

definition append_ssh_string :: "bytes \<Rightarrow> bytes \<Rightarrow> bytes" where
  "append_ssh_string buf bs = buf @ u32_to_be_bytes (of_nat (length bs)) @ bs"

definition agent_read_byte :: "(bytes, client_error, u8) reader" where
  "agent_read_byte cursor = (case cursor of
       [] \<Rightarrow> (Err (agent_io_error UnexpectedEof ''truncated SSH agent message''), cursor)
     | byte # rest \<Rightarrow> (Ok byte, rest))"

definition agent_read_u32 :: "(bytes, client_error, u32) reader" where
  "agent_read_u32 cursor =
     (if length cursor < 4 then (Err (agent_io_error UnexpectedEof ''truncated SSH agent u32''), cursor)
      else (Ok (u32_from_be_bytes (take 4 cursor)), drop 4 cursor))"

definition agent_read_ssh_string :: "(bytes, client_error, bytes) reader" where
  "agent_read_ssh_string = rbind agent_read_u32 (\<lambda>len cursor.
     if length cursor < unat len then (Err (agent_io_error UnexpectedEof ''truncated SSH agent string''), cursor)
     else (Ok (take (unat len) cursor), drop (unat len) cursor))"

definition write_message :: "'a write_all_fn \<Rightarrow> bytes \<Rightarrow> ('a, client_error, unit) reader" where
  "write_message wr msg =
     (if 2 ^ 32 \<le> length msg then rfail (agent_io_error InvalidInput ''SSH agent payload exceeds u32 length'')
      else rbind (rmap_err Cl_Io (wr (u32_to_be_bytes (of_nat (length msg))))) (\<lambda>_.
           rmap_err Cl_Io (wr msg)))"

definition read_message :: "'a read_exact_fn \<Rightarrow> ('a, client_error, bytes) reader" where
  "read_message rd = rbind (rmap_err Cl_Io (rd 4)) (\<lambda>len. rmap_err Cl_Io (rd (unat (u32_from_be_bytes len))))"

fun read_identities :: "agent_crates \<Rightarrow> nat \<Rightarrow> (bytes, client_error, agent_identity list) reader" where
  "read_identities ac 0 = rret []"
| "read_identities ac (Suc n) =
     rbind agent_read_ssh_string (\<lambda>blob.
     rbind agent_read_ssh_string (\<lambda>comment.
     rbind (rlift (map_err Cl_SshKey (public_key_from_bytes ac blob))) (\<lambda>k.
     rbind (read_identities ac n) (\<lambda>ids.
     rret (\<lparr>key_blob = blob, id_public_key = k\<rparr> # ids)))))"

text \<open>What a reply is read as, once it has been received.\<close>

definition at_end :: "string \<Rightarrow> 'b \<Rightarrow> (bytes, client_error, 'b) reader" where
  "at_end m x cursor = (if cursor \<noteq> [] then (Err (agent_io_error InvalidData m), cursor) else (Ok x, cursor))"

definition identities_reply :: "agent_crates \<Rightarrow> (bytes, client_error, agent_identity list) reader" where
  "identities_reply ac = rbind agent_read_byte (\<lambda>kind.
     if kind = SSH_AGENT_IDENTITIES_ANSWER then
       rbind agent_read_u32 (\<lambda>count.
       rbind (read_identities ac (unat count)) (at_end ''trailing bytes in SSH agent identities reply''))
     else if kind = SSH_AGENT_FAILURE then rfail AgentKeyNotFound
     else rfail (agent_io_error InvalidData (''unexpected SSH agent reply type '' @ show_nat (unat kind))))"

definition list_identities ::
    "agent_crates \<Rightarrow> 'a read_exact_fn \<Rightarrow> 'a write_all_fn \<Rightarrow> ('a, client_error, agent_identity list) reader" where
  "list_identities ac rd wr = rbind (write_message wr [SSH_AGENTC_REQUEST_IDENTITIES]) (\<lambda>_.
     rbind (read_message rd) (\<lambda>response. rlift (fst (identities_reply ac response))))"

definition signature_reply :: "agent_crates \<Rightarrow> (bytes, client_error, agent_signature) reader" where
  "signature_reply ac = rbind agent_read_byte (\<lambda>kind.
     if kind = SSH_AGENT_SIGN_RESPONSE then
       rbind agent_read_ssh_string (\<lambda>signature_blob.
       rbind (at_end ''trailing bytes in SSH agent sign reply'' ()) (\<lambda>_.
       rlift (map_err Cl_SshKey (signature_try_from ac signature_blob))))
     else if kind = SSH_AGENT_FAILURE then rfail AgentKeyNotFound
     else rfail (agent_io_error InvalidData (''unexpected SSH agent sign reply type '' @ show_nat (unat kind))))"

definition sign_request :: "bytes \<Rightarrow> bytes \<Rightarrow> u32 \<Rightarrow> bytes" where
  "sign_request blob input flags =
     append_ssh_string (append_ssh_string [SSH_AGENTC_SIGN_REQUEST] blob) input @ u32_to_be_bytes flags"

definition agent_sign ::
    "agent_crates \<Rightarrow> 'a read_exact_fn \<Rightarrow> 'a write_all_fn \<Rightarrow> bytes \<Rightarrow> bytes \<Rightarrow> u32
     \<Rightarrow> ('a, client_error, agent_signature) reader" where
  "agent_sign ac rd wr blob input flags = rbind (write_message wr (sign_request blob input flags)) (\<lambda>_.
     rbind (read_message rd) (\<lambda>response. rlift (fst (signature_reply ac response))))"

section \<open>Tokens signed by an agent\<close>

definition load_agent_public_key :: "'o crates \<Rightarrow> agent_crates \<Rightarrow> string \<Rightarrow> client_error + public_key" where
  "load_agent_public_key env ac path = (case read_public_key_file ac path of
       Ok k \<Rightarrow> Ok k
     | Err _ \<Rightarrow> (case read_openssh_file env path of
         Ok private_key \<Rightarrow> Ok (pair_public private_key)
       | Err _ \<Rightarrow> map_err Cl_SshKey (read_public_key_file ac (path @ ''.pub''))))"

definition is_supported_agent_key :: "public_key \<Rightarrow> bool" where
  "is_supported_agent_key k = (case key_data k of Ed25519 _ \<Rightarrow> True | Rsa _ _ \<Rightarrow> True | _ \<Rightarrow> False)"

fun agent_sign_flags :: "jwt_algorithm \<Rightarrow> client_error + u32" where
  "agent_sign_flags EdDsa = Ok 0"
| "agent_sign_flags Rs256 = Ok SSH_AGENT_RSA_SHA2_256"
| "agent_sign_flags Es256 = Err (UnsupportedAgentKey ''ecdsa-sha2-nistp256'')"

fun jwt_signature_from_agent_signature :: "jwt_algorithm \<Rightarrow> agent_signature \<Rightarrow> client_error + bytes" where
  "jwt_signature_from_agent_signature EdDsa s =
     (if sig_algorithm s \<noteq> Sig_Ed25519
      then Err (agent_io_error InvalidData ''SSH agent returned the wrong Ed25519 signature algorithm'')
      else Ok (sig_bytes s))"
| "jwt_signature_from_agent_signature Rs256 s =
     (if sig_algorithm s \<noteq> Sig_Rsa (Some Sha256)
      then Err (agent_io_error InvalidData ''SSH agent returned the wrong RSA signature algorithm'')
      else Ok (sig_bytes s))"
| "jwt_signature_from_agent_signature Es256 s = Err (UnsupportedAgentKey ''ecdsa-sha2-nistp256'')"

fun choose_identity ::
    "'o crates \<Rightarrow> agent_crates \<Rightarrow> agent_selection \<Rightarrow> agent_identity list \<Rightarrow> client_error + agent_identity" where
  "choose_identity env ac First ids =
     ok_or AgentKeyNotFound (find (\<lambda>i. is_supported_agent_key (id_public_key i)) ids)"
| "choose_identity env ac (PublicKeyFile path) ids =
     and_then (load_agent_public_key env ac path) (\<lambda>expected.
     and_then (map_err Cl_SshKey (public_key_to_bytes ac expected)) (\<lambda>expected_blob.
     and_then (ok_or AgentKeyNotFound (find (\<lambda>i. key_blob i = expected_blob) ids)) (\<lambda>i.
     if is_supported_agent_key (id_public_key i) then Ok i
     else Err (UnsupportedAgentKey (algorithm (id_public_key i))))))"

definition select_identity ::
    "'o crates \<Rightarrow> agent_crates \<Rightarrow> 'a read_exact_fn \<Rightarrow> 'a write_all_fn \<Rightarrow> agent_selection
     \<Rightarrow> ('a, client_error, agent_identity) reader" where
  "select_identity env ac rd wr selection =
     rbind (list_identities ac rd wr) (\<lambda>ids. rlift (choose_identity env ac selection ids))"

definition resolve_agent_socket_path :: "string option \<Rightarrow> 'u client_config \<Rightarrow> client_error + string" where
  "resolve_agent_socket_path ssh_auth_sock config =
     ok_or AgentUnavailable (case cc_agent_socket config of Some p \<Rightarrow> Some p | None \<Rightarrow> ssh_auth_sock)"

text \<open>The connection to the agent is dropped with the token built; the signer runs on it where listing left it.\<close>

definition agent_signer ::
    "agent_crates \<Rightarrow> 'a read_exact_fn \<Rightarrow> 'a write_all_fn \<Rightarrow> 'a \<Rightarrow> bytes \<Rightarrow> jwt_algorithm \<Rightarrow> bytes \<Rightarrow> client_error + bytes" where
  "agent_signer ac rd wr agent blob alg input =
     and_then (agent_sign_flags alg) (\<lambda>flags.
     and_then (fst (agent_sign ac rd wr blob input flags agent)) (\<lambda>s.
     jwt_signature_from_agent_signature alg s))"

definition build_agent_bearer_token ::
    "'o crates \<Rightarrow> agent_crates \<Rightarrow> 'a read_exact_fn \<Rightarrow> 'a write_all_fn \<Rightarrow> (string \<Rightarrow> io_error + 'a) \<Rightarrow> string option
     \<Rightarrow> string + u64 \<Rightarrow> 'u client_config \<Rightarrow> agent_selection \<Rightarrow> string \<Rightarrow> bytes \<Rightarrow> client_error + string" where
  "build_agent_bearer_token env ac rd wr connect ssh_auth_sock clock config selection username cid =
     and_then (resolve_agent_socket_path ssh_auth_sock config) (\<lambda>socket_path.
     and_then (map_err Cl_Io (connect socket_path)) (\<lambda>agent.
     case select_identity env ac rd wr selection agent of
       (Err e, agent) \<Rightarrow> Err e
     | (Ok i, agent) \<Rightarrow> build_bearer_token_with_signer env Cl_Auth clock (id_public_key i) username cid
         (agent_signer ac rd wr agent (key_blob i))))"

section \<open>The wire format\<close>

text \<open>Strings of the agent protocol, and the two replies that are not failures.\<close>

definition ssh_str :: "bytes \<Rightarrow> bytes" where
  "ssh_str bs = u32_to_be_bytes (of_nat (length bs)) @ bs"

definition fits_u32 :: "bytes \<Rightarrow> bool" where
  "fits_u32 bs \<longleftrightarrow> length bs < 2 ^ 32"

definition identity_entry :: "agent_identity \<times> bytes \<Rightarrow> bytes" where
  "identity_entry e = ssh_str (key_blob (fst e)) @ ssh_str (snd e)"

definition entry_ok :: "agent_crates \<Rightarrow> agent_identity \<times> bytes \<Rightarrow> bool" where
  "entry_ok ac e \<longleftrightarrow> fits_u32 (key_blob (fst e)) \<and> fits_u32 (snd e)
     \<and> public_key_from_bytes ac (key_blob (fst e)) = Ok (id_public_key (fst e))"

definition identities_answer :: "(agent_identity \<times> bytes) list \<Rightarrow> bytes" where
  "identities_answer es = SSH_AGENT_IDENTITIES_ANSWER # u32_to_be_bytes (of_nat (length es)) @ concat (map identity_entry es)"

definition sign_response :: "bytes \<Rightarrow> bytes" where
  "sign_response blob = SSH_AGENT_SIGN_RESPONSE # ssh_str blob"

lemma unat_of_nat_u32: "n < 2 ^ 32 \<Longrightarrow> unat (of_nat n :: u32) = n"
  by (simp add: unsigned_of_nat take_bit_nat_eq_self)

lemma unat_u32_lt: "unat (v :: u32) < 2 ^ 32"
  using unsigned_less [of v] by simp

lemma agent_read_byte_Ok_iff: "agent_read_byte cur = (Ok b, rest) \<longleftrightarrow> cur = b # rest"
  by (cases cur) (auto simp: agent_read_byte_def)

lemma agent_read_u32_Ok_iff: "agent_read_u32 cur = (Ok v, rest) \<longleftrightarrow> cur = u32_to_be_bytes v @ rest"
proof
  assume "agent_read_u32 cur = (Ok v, rest)"
  then have "4 \<le> length cur" "v = u32_from_be_bytes (take 4 cur)" "rest = drop 4 cur"
    by (auto simp: agent_read_u32_def split: if_splits)
  then show "cur = u32_to_be_bytes v @ rest"
    by (simp add: u32_from_be_bytes_inverse)
qed (simp add: agent_read_u32_def)

lemma rbind_Ok_iff: "rbind p f s = (Ok b, s') \<longleftrightarrow> (\<exists>a t. p s = (Ok a, t) \<and> f a t = (Ok b, s'))"
  by (auto simp: rbind_def split: prod.splits sum.splits)

lemma rret_Ok_iff: "rret a s = (Ok b, s') \<longleftrightarrow> a = b \<and> s = s'"
  by (simp add: rret_def)

lemma rfail_Ok_iff: "rfail e s = (Ok b, s') \<longleftrightarrow> False"
  by (simp add: rfail_def)

lemmas reader_Ok_iffs = rbind_Ok_iff rret_Ok_iff rlift_Ok_iff rfail_Ok_iff agent_read_byte_Ok_iff agent_read_u32_Ok_iff

lemma agent_read_ssh_string_Ok_iff:
  "agent_read_ssh_string cur = (Ok bs, rest) \<longleftrightarrow> cur = ssh_str bs @ rest \<and> fits_u32 bs"
proof
  assume "agent_read_ssh_string cur = (Ok bs, rest)"
  then obtain len t where "cur = u32_to_be_bytes len @ t" "unat len \<le> length t" "bs = take (unat len) t" "rest = drop (unat len) t"
    by (auto simp: agent_read_ssh_string_def reader_Ok_iffs split: if_splits)
  moreover from this have "length bs = unat len"
    by simp
  ultimately show "cur = ssh_str bs @ rest \<and> fits_u32 bs"
    using unat_u32_lt [of len] by (simp add: ssh_str_def fits_u32_def del: take_append drop_append length_take)
next
  assume "cur = ssh_str bs @ rest \<and> fits_u32 bs"
  moreover from this have "agent_read_u32 cur = (Ok (of_nat (length bs)), bs @ rest)"
    by (simp add: agent_read_u32_Ok_iff ssh_str_def)
  ultimately show "agent_read_ssh_string cur = (Ok bs, rest)"
    by (simp add: agent_read_ssh_string_def rbind_Ok fits_u32_def unat_of_nat_u32)
qed

lemma read_identities_Ok_iff:
  "read_identities ac n cur = (Ok ids, rest) \<longleftrightarrow>
     (\<exists>es. map fst es = ids \<and> length es = n \<and> list_all (entry_ok ac) es \<and> cur = concat (map identity_entry es) @ rest)"
proof (induction n arbitrary: cur ids)
  case (Suc n)
  show ?case (is "?L \<longleftrightarrow> ?R")
  proof
    assume ?L
    then obtain blob comment k ids' t where "ids = \<lparr>key_blob = blob, id_public_key = k\<rparr> # ids'"
      "cur = ssh_str blob @ ssh_str comment @ t" "fits_u32 blob" "fits_u32 comment"
      "public_key_from_bytes ac blob = Ok k" "read_identities ac n t = (Ok ids', rest)"
      by (auto simp: reader_Ok_iffs agent_read_ssh_string_Ok_iff map_err_Ok_iff)
    moreover from this Suc.IH obtain es where "map fst es = ids'" "length es = n" "list_all (entry_ok ac) es"
      "t = concat (map identity_entry es) @ rest"
      by auto
    ultimately show ?R
      by (intro exI [of _ "(\<lparr>key_blob = blob, id_public_key = k\<rparr>, comment) # es"])
        (simp add: entry_ok_def [of ac "(_, _)"] identity_entry_def [of "(_, _)"])
  next
    assume ?R
    then obtain e es where "map fst (e # es) = ids" "length es = n" "list_all (entry_ok ac) (e # es)"
      "cur = identity_entry e @ concat (map identity_entry es) @ rest"
      by (auto simp: length_Suc_conv)
    moreover from this have "read_identities ac n (concat (map identity_entry es) @ rest) = (Ok (map fst es), rest)"
      using Suc.IH by auto
    moreover have "agent_read_ssh_string cur = (Ok (key_blob (fst e)), ssh_str (snd e) @ concat (map identity_entry es) @ rest)"
      "agent_read_ssh_string (ssh_str (snd e) @ concat (map identity_entry es) @ rest)
        = (Ok (snd e), concat (map identity_entry es) @ rest)"
      using calculation by (auto simp: agent_read_ssh_string_Ok_iff entry_ok_def [of ac e] identity_entry_def [of e])
    ultimately show ?L
      by (auto simp: rbind_Ok rret_def entry_ok_def [of ac e])
  qed
qed (auto simp: reader_Ok_iffs)

lemma at_end_Ok_iff: "at_end m x cur = (Ok y, rest) \<longleftrightarrow> cur = [] \<and> rest = [] \<and> x = y"
  by (auto simp: at_end_def)

lemma fst_Ok_iff: "fst r = Ok x \<longleftrightarrow> (\<exists>rest. r = (Ok x, rest))"
  by (cases r) auto

lemma identities_reply_Ok_iff:
  "fst (identities_reply ac response) = Ok ids \<longleftrightarrow>
     (\<exists>es. map fst es = ids \<and> length es < 2 ^ 32 \<and> list_all (entry_ok ac) es \<and> response = identities_answer es)"
    (is "?L \<longleftrightarrow> ?R")
proof
  assume ?L
  then obtain count cur where "response = SSH_AGENT_IDENTITIES_ANSWER # u32_to_be_bytes count @ cur"
    "read_identities ac (unat count) cur = (Ok ids, [])"
    by (auto simp: fst_Ok_iff identities_reply_def reader_Ok_iffs at_end_Ok_iff split: if_splits)
  moreover from this obtain es where "map fst es = ids" "length es = unat count" "list_all (entry_ok ac) es"
    "cur = concat (map identity_entry es)"
    by (auto simp: read_identities_Ok_iff)
  ultimately show ?R
    using unat_u32_lt [of count] by (intro exI [of _ es]) (simp add: identities_answer_def)
next
  assume ?R
  then obtain es where "map fst es = ids" "length es < 2 ^ 32" "list_all (entry_ok ac) es" "response = identities_answer es"
    by auto
  moreover from this have "read_identities ac (length es) (concat (map identity_entry es)) = (Ok ids, [])"
    by (auto simp: read_identities_Ok_iff)
  ultimately show ?L
    by (auto simp: fst_Ok_iff identities_reply_def reader_Ok_iffs at_end_Ok_iff identities_answer_def unat_of_nat_u32)
qed

lemma signature_reply_Ok_iff:
  "fst (signature_reply ac response) = Ok s \<longleftrightarrow>
     (\<exists>blob. response = sign_response blob \<and> fits_u32 blob \<and> signature_try_from ac blob = Ok s)"
    (is "?L \<longleftrightarrow> ?R")
proof
  assume ?L
  then show ?R
    by (auto simp: fst_Ok_iff signature_reply_def reader_Ok_iffs agent_read_ssh_string_Ok_iff at_end_Ok_iff
        map_err_Ok_iff sign_response_def split: if_splits)
next
  assume ?R
  then obtain blob where "agent_read_byte response = (Ok SSH_AGENT_SIGN_RESPONSE, ssh_str blob)"
    "agent_read_ssh_string (ssh_str blob) = (Ok blob, [])" "signature_try_from ac blob = Ok s"
    by (auto simp: agent_read_byte_Ok_iff agent_read_ssh_string_Ok_iff sign_response_def)
  then show ?L
    by (simp add: signature_reply_def rbind_Ok at_end_Ok_iff [THEN iffD2] rret_def)
qed

section \<open>A conversation with an agent\<close>

text \<open>
  What the protocol asks of an agent: on a connection where nothing is outstanding, a message written in its
  frame is answered by one framed reply, after which nothing is outstanding again.
\<close>

definition agent_serves ::
    "'a read_exact_fn \<Rightarrow> 'a write_all_fn \<Rightarrow> ('a \<Rightarrow> bool) \<Rightarrow> (bytes \<Rightarrow> bytes) \<Rightarrow> bool" where
  "agent_serves rd wr idle reply \<longleftrightarrow> (\<forall>a msg. idle a \<and> fits_u32 msg \<longrightarrow>
     (\<exists>a1 a2 a3 a4. wr (u32_to_be_bytes (of_nat (length msg))) a = (Ok (), a1) \<and> wr msg a1 = (Ok (), a2)
        \<and> rd 4 a2 = (Ok (u32_to_be_bytes (of_nat (length (reply msg)))), a3)
        \<and> fits_u32 (reply msg) \<and> rd (length (reply msg)) a3 = (Ok (reply msg), a4) \<and> idle a4))"

text \<open>
  What is asked of an agent that holds a private key: it signs with that key, in the scheme that the flags
  select. Both schemes are deterministic.
\<close>

fun agent_scheme :: "jwt_algorithm \<Rightarrow> signature_algorithm option" where
  "agent_scheme EdDsa = Some Sig_Ed25519"
| "agent_scheme Rs256 = Some (Sig_Rsa (Some Sha256))"
| "agent_scheme Es256 = None"

definition agent_holds ::
    "'o crates \<Rightarrow> agent_crates \<Rightarrow> (bytes \<Rightarrow> bytes) \<Rightarrow> private_key \<Rightarrow> bytes \<Rightarrow> bool" where
  "agent_holds env ac reply k blob \<longleftrightarrow> (\<forall>alg flags scheme input s.
     jwt_algorithm_for_public_key (pair_public k) = Ok alg \<and> agent_sign_flags alg = Ok flags
       \<and> agent_scheme alg = Some scheme \<and> sign_jwt_signature env k alg input = Ok s \<longrightarrow>
     (\<exists>sb. reply (sign_request blob input flags) = sign_response sb
        \<and> signature_try_from ac sb = Ok \<lparr>sig_algorithm = scheme, sig_bytes = s\<rparr>))"

lemma agent_exchange:
  assumes "agent_serves rd wr idle reply" "idle a" "fits_u32 msg"
  shows "\<exists>a'. rbind (write_message wr msg) (\<lambda>_. rbind (read_message rd) f) a = f (reply msg) a' \<and> idle a'"
proof -
  from assms obtain a1 a2 a3 a4 where steps: "wr (u32_to_be_bytes (of_nat (length msg))) a = (Ok (), a1)"
    "wr msg a1 = (Ok (), a2)" "rd 4 a2 = (Ok (u32_to_be_bytes (of_nat (length (reply msg)))), a3)"
    "fits_u32 (reply msg)" "rd (length (reply msg)) a3 = (Ok (reply msg), a4)" "idle a4"
    unfolding agent_serves_def by blast
  then have "write_message wr msg a = (Ok (), a2)" "read_message rd a2 = (Ok (reply msg), a4)"
    using assms(3)
    by (simp_all add: write_message_def read_message_def rbind_def rmap_err_def fits_u32_def unat_of_nat_u32)
  with steps(6) show ?thesis
    by (auto simp: rbind_Ok)
qed

lemma select_identity_agent:
  assumes "agent_serves rd wr idle reply" "idle a"
    and "reply [SSH_AGENTC_REQUEST_IDENTITIES] = identities_answer es" "length es < 2 ^ 32" "list_all (entry_ok ac) es"
  shows "\<exists>a'. select_identity env ac rd wr selection a = (choose_identity env ac selection (map fst es), a') \<and> idle a'"
proof -
  have "fits_u32 [SSH_AGENTC_REQUEST_IDENTITIES]"
    by (simp add: fits_u32_def)
  from agent_exchange [OF assms(1,2) this, of "\<lambda>response. rlift (fst (identities_reply ac response))"]
  obtain a' where "list_identities ac rd wr a = rlift (fst (identities_reply ac (identities_answer es))) a'" "idle a'"
    using assms(3) by (auto simp: list_identities_def)
  moreover have "fst (identities_reply ac (identities_answer es)) = Ok (map fst es)"
    using assms(4,5) by (auto simp: identities_reply_Ok_iff)
  ultimately have "list_identities ac rd wr a = (Ok (map fst es), a')" "idle a'"
    by (simp_all add: rret_def)
  then show ?thesis
    by (cases "choose_identity env ac selection (map fst es)") (auto simp: select_identity_def rbind_Ok rret_def rfail_def)
qed

lemma agent_signer_signs:
  assumes "agent_serves rd wr idle reply" "idle a" "agent_holds env ac reply k blob"
    and "jwt_algorithm_for_public_key (pair_public k) = Ok alg" "is_supported_agent_key (pair_public k)"
    and "sign_jwt_signature env k alg input = Ok s" "length blob + length input + 13 < 2 ^ 32"
  shows "agent_signer ac rd wr a blob alg input = Ok s"
proof -
  obtain flags scheme where alg: "agent_sign_flags alg = Ok flags" "agent_scheme alg = Some scheme"
    using assms(4,5) by (auto simp: is_supported_agent_key_def jwt_algorithm_for_public_key_def split: key_data.splits)
  with assms(3,4,6) obtain sb where sb: "reply (sign_request blob input flags) = sign_response sb"
    "signature_try_from ac sb = Ok \<lparr>sig_algorithm = scheme, sig_bytes = s\<rparr>"
    unfolding agent_holds_def by blast
  have request: "fits_u32 (sign_request blob input flags)"
    using assms(7) by (simp add: fits_u32_def sign_request_def append_ssh_string_def)
  then have "fits_u32 (sign_response sb)"
    using assms(1,2) sb(1) unfolding agent_serves_def by metis
  then have "fits_u32 sb"
    by (simp add: fits_u32_def sign_response_def ssh_str_def)
  with sb(2) have "fst (signature_reply ac (sign_response sb)) = Ok \<lparr>sig_algorithm = scheme, sig_bytes = s\<rparr>"
    by (auto simp: signature_reply_Ok_iff)
  with agent_exchange [OF assms(1,2) request, of "\<lambda>response. rlift (fst (signature_reply ac response))"] sb(1)
  have "fst (agent_sign ac rd wr blob input flags a) = Ok \<lparr>sig_algorithm = scheme, sig_bytes = s\<rparr>"
    by (auto simp: agent_sign_def rret_def)
  with alg show ?thesis
    by (cases alg) (auto simp: agent_signer_def)
qed

lemma token_by_signer:
  assumes "build_bearer_token env clock k username cid = Ok token"
    and "\<And>alg input s. jwt_algorithm_for_public_key (pair_public k) = Ok alg \<Longrightarrow> sign_jwt_signature env k alg input = Ok s
      \<Longrightarrow> length input \<le> length token \<Longrightarrow> signer alg input = Ok s"
  shows "build_bearer_token_with_signer env of_auth clock (pair_public k) username cid signer = Ok token"
  using assms(1)
  by (clarsimp simp: build_bearer_token_def build_bearer_token_with_signer_def result_Ok_iffs Let_def)
    (rule exI, rule conjI, rule assms(2), assumption, assumption, simp, rule refl)

lemma choose_identity_supported:
  "choose_identity env ac selection ids = Ok i \<Longrightarrow> i \<in> set ids \<and> is_supported_agent_key (id_public_key i)"
  by (cases selection) (auto simp: result_Ok_iffs split: if_splits dest!: find_SomeD)

section \<open>Properties of the agent's client\<close>

text \<open>
  C13: Replies of the agent are read exactly. A reply is taken as a list of identities precisely when it is the
  encoding of these identities' key blobs with some comments, complete and without trailing bytes, and every
  key is the one its blob decodes to; it is taken as a signature precisely when it is the encoding of a blob
  that decodes to it.
\<close>

theorem agent_replies_exact:
  "(fst (identities_reply ac response) = Ok ids \<longleftrightarrow>
      (\<exists>es. map fst es = ids \<and> length es < 2 ^ 32 \<and> list_all (entry_ok ac) es \<and> response = identities_answer es))
   \<and> (fst (signature_reply ac response) = Ok s \<longleftrightarrow>
      (\<exists>blob. response = sign_response blob \<and> fits_u32 blob \<and> signature_try_from ac blob = Ok s))"
  by (simp add: identities_reply_Ok_iff signature_reply_Ok_iff)

text \<open>
  C12: A token signed by an agent is the token of the key. When the agent lists the identity that is selected and
  holds the private key of it, the client gets through the agent exactly the token that it would have built from
  the private key itself: the same user, conversation, times and signature.
\<close>

theorem agent_token_is_key_token:
  assumes "agent_serves rd wr idle reply" "resolve_agent_socket_path ssh_auth_sock config = Ok path" "connect path = Ok a" "idle a"
    and "reply [SSH_AGENTC_REQUEST_IDENTITIES] = identities_answer es" "length es < 2 ^ 32" "list_all (entry_ok ac) es"
    and "choose_identity env ac selection (map fst es) = Ok i" "id_public_key i = pair_public k"
    and "agent_holds env ac reply k (key_blob i)"
    and "build_bearer_token env clock k username cid = Ok token" "length (key_blob i) + length token + 13 < 2 ^ 32"
  shows "build_agent_bearer_token env ac rd wr connect ssh_auth_sock clock config selection username cid = Ok token"
proof -
  obtain a' where a': "select_identity env ac rd wr selection a = (Ok i, a')" "idle a'"
    using select_identity_agent [OF assms(1,4,5,6,7), of env selection] assms(8) by auto
  have "is_supported_agent_key (pair_public k)"
    using choose_identity_supported [OF assms(8)] assms(9) by simp
  then have "agent_signer ac rd wr a' (key_blob i) alg input = Ok s"
    if "jwt_algorithm_for_public_key (pair_public k) = Ok alg" "sign_jwt_signature env k alg input = Ok s"
      "length input \<le> length token" for alg input s
    using that assms(12) by (intro agent_signer_signs [OF assms(1) a'(2) assms(10)]) auto
  from token_by_signer [OF assms(11) this] a'(1) show ?thesis
    by (simp add: build_agent_bearer_token_def assms(2,3,9))
qed

text \<open>An agent with one key, which signs like the demonstration key. Its state is the length prefix last written and the unread reply.\<close>

definition demo_identity :: agent_identity where
  "demo_identity = \<lparr>key_blob = [9], id_public_key = demo_public\<rparr>"

definition demo_reply :: "bytes \<Rightarrow> bytes" where
  "demo_reply msg = (if msg = [SSH_AGENTC_REQUEST_IDENTITIES] then identities_answer [(demo_identity, bstr ''key'')]
     else sign_response (take (length msg - 14) (drop 10 msg)))"

fun demo_agent_write :: "(bytes option \<times> bytes) write_all_fn" where
  "demo_agent_write bs (None, out) = (Ok (), (Some bs, out))"
| "demo_agent_write bs (Some len, out) = (Ok (), (None, out @ ssh_str (demo_reply bs)))"

fun demo_agent_read :: "(bytes option \<times> bytes) read_exact_fn" where
  "demo_agent_read n (len, out) =
     (if length out < n then (Err eof_error, (len, out)) else (Ok (take n out), (len, drop n out)))"

definition demo_agent_crates :: agent_crates where
  "demo_agent_crates = \<lparr>public_key_from_bytes = (\<lambda>_. Ok demo_public), public_key_to_bytes = (\<lambda>_. Ok [9]),
     read_public_key_file = (\<lambda>_. Ok demo_public), signature_try_from = (\<lambda>sb. Ok \<lparr>sig_algorithm = Sig_Ed25519, sig_bytes = sb\<rparr>)\<rparr>"

lemma demo_agent_serves: "agent_serves demo_agent_read demo_agent_write (\<lambda>a. a = (None, [])) demo_reply"
proof -
  have "fits_u32 (demo_reply msg)" if "fits_u32 msg" for msg
    using that by (auto simp: demo_reply_def fits_u32_def sign_response_def ssh_str_def identities_answer_def
        identity_entry_def demo_identity_def)
  then show ?thesis
    by (simp add: agent_serves_def ssh_str_def)
qed

lemma demo_agent_holds: "agent_holds demo_crates demo_agent_crates demo_reply demo_key [9]"
  by (auto simp: agent_holds_def demo_reply_def demo_agent_crates_def jwt_algorithm_for_public_key_def demo_key_def
      demo_public_def sign_jwt_signature_def demo_crates_def sign_request_def append_ssh_string_def agent_numbers
      u32_to_be_bytes_def map_err_Ok_iff)

theorem agent_token_is_key_token_witness:
  "let config = (client_config_new ())\<lparr>cc_agent_socket := Some ''/tmp/agent''\<rparr>
   in \<exists>token. build_bearer_token demo_crates (Ok 100) demo_key ''alice'' [7] = Ok token
     \<and> build_agent_bearer_token demo_crates demo_agent_crates demo_agent_read demo_agent_write (\<lambda>_. Ok (None, [])) None
         (Ok 100) config First ''alice'' [7] = Ok token"
proof -
  let ?config = "(client_config_new ())\<lparr>cc_agent_socket := Some ''/tmp/agent''\<rparr>"
  have h: "resolve_agent_socket_path None ?config = Ok ''/tmp/agent''"
    "demo_reply [SSH_AGENTC_REQUEST_IDENTITIES] = identities_answer [(demo_identity, bstr ''key'')]"
    "list_all (entry_ok demo_agent_crates) [(demo_identity, bstr ''key'')]"
    "choose_identity demo_crates demo_agent_crates First (map fst [(demo_identity, bstr ''key'')]) = Ok demo_identity"
    "id_public_key demo_identity = pair_public demo_key" "key_blob demo_identity = [9]"
    by (simp_all add: resolve_agent_socket_path_def demo_reply_def entry_ok_def fits_u32_def demo_identity_def
        demo_agent_crates_def demo_key_def demo_public_def is_supported_agent_key_def)
  show ?thesis
    unfolding Let_def
    by (intro exI conjI, rule demo_token,
        rule agent_token_is_key_token [OF demo_agent_serves h(1) _ _ h(2) _ h(3,4,5) _ demo_token])
      (simp_all add: h(6) demo_agent_holds token_of_def hex_encode_def bstr_def)
qed

end
