(* ===== verification/Client_Oidc.thy ===== *)
theory Client_Oidc
  imports Agent_Protocol
begin

text \<open>
  Logging in with an OpenID provider (\<^verbatim>\<open>crates/ssh3-client/src/lib.rs\<close>): the client sends the user's browser to
  the provider, waits on a local port for the browser to come back with a code and exchanges the code for a
  token. The crates for HTTP, URLs, hashes and random numbers, the browser and the local port are arguments.
\<close>

section \<open>The world of a login\<close>

definition DEFAULT_OIDC_SCOPE :: string where "DEFAULT_OIDC_SCOPE = ''openid email''"
definition OIDC_CALLBACK_PATH :: string where "OIDC_CALLBACK_PATH = ''/ssh''"

record oidc_endpoints =
  authorization_endpoint :: string
  token_endpoint :: string

text \<open>
  \<open>oe_random n\<close> is the \<open>n\<close>th request for random bytes. \<open>oe_discover\<close> is a GET with the check of its status and the
  parsing of its body; \<open>oe_post\<close> gives the status and the result of parsing the body, which carries a token or
  not. \<open>oe_listen\<close> is the result of binding a local port and asking for its number; \<open>oe_callback u\<close> is what is then
  accepted after the browser was sent to \<open>u\<close>: a connection with what is read from it.
\<close>

record 'url oidc_env =
  oe_b64url :: "bytes \<Rightarrow> string"
  oe_sha256 :: "bytes \<Rightarrow> bytes"
  oe_random :: "nat \<Rightarrow> nat \<Rightarrow> io_error + bytes"
  oe_discover :: "string \<Rightarrow> string + oidc_endpoints"
  oe_listen :: "io_error + (io_error + u16)"
  oe_url_parse :: "string \<Rightarrow> string + 'url"
  oe_url_pairs :: "'url \<Rightarrow> (string \<times> string) list"
  oe_url_append :: "string \<times> string \<Rightarrow> 'url \<Rightarrow> 'url"
  oe_url_string :: "'url \<Rightarrow> string"
  oe_open :: "string \<Rightarrow> oidc_error + unit"
  oe_callback :: "string \<Rightarrow> io_error + (io_error + bytes) list"
  oe_post :: "string \<Rightarrow> (string \<times> string) list \<Rightarrow> string + nat \<times> (string + string option)"
  oe_show_status :: "nat \<Rightarrow> string"

fun poll_and_then :: "('e + 'a) poll \<Rightarrow> ('a \<Rightarrow> ('e + 'b) poll) \<Rightarrow> ('e + 'b) poll" where
  "poll_and_then Pending f = Pending"
| "poll_and_then (Ready (Err e)) f = Ready (Err e)"
| "poll_and_then (Ready (Ok a)) f = f a"

lemma poll_and_then_Ok_iff:
  "poll_and_then p f = Ready (Ok b) \<longleftrightarrow> (\<exists>a. p = Ready (Ok a) \<and> f a = Ready (Ok b))"
  by (induction p f rule: poll_and_then.induct) auto

section \<open>Codes and challenges\<close>

definition random_urlsafe :: "'url oidc_env \<Rightarrow> nat \<Rightarrow> nat \<Rightarrow> oidc_error + string" where
  "random_urlsafe oe n bytes_len = and_then (map_err Oidc_Io (oe_random oe n bytes_len)) (\<lambda>bs. Ok (oe_b64url oe bs))"

definition oidc_code_challenge :: "'url oidc_env \<Rightarrow> string \<Rightarrow> string" where
  "oidc_code_challenge oe verifier = oe_b64url oe (oe_sha256 oe (bstr verifier))"

definition discovery_url :: "string \<Rightarrow> string" where
  "discovery_url issuer_url = trim_end_matches (CHR ''/'') issuer_url @ ''/.well-known/openid-configuration''"

definition fetch_oidc_discovery_document :: "'url oidc_env \<Rightarrow> string \<Rightarrow> oidc_error + oidc_endpoints" where
  "fetch_oidc_discovery_document oe issuer_url = map_err Oidc_Reqwest (oe_discover oe (discovery_url issuer_url))"

section \<open>The browser's way back\<close>

definition has_blank_line :: "bytes \<Rightarrow> bool" where
  "has_blank_line buffer = list_ex (\<lambda>i. take 4 (drop i buffer) = [13, 10, 13, 10]) [0..<length buffer - 3]"

text \<open>Over the reads of the accepted connection; without their end the client keeps waiting.\<close>

fun read_http_request :: "bytes \<Rightarrow> (io_error + bytes) list \<Rightarrow> (oidc_error + string) poll" where
  "read_http_request buffer [] = Pending"
| "read_http_request buffer (Err e # rs) = Ready (Err (Oidc_Io e))"
| "read_http_request buffer (Ok chunk # rs) =
     (if chunk = [] then Ready (Ok (from_utf8_lossy buffer))
      else let buffer = buffer @ chunk in
        if has_blank_line buffer then Ready (Ok (from_utf8_lossy buffer)) else read_http_request buffer rs)"

abbreviation CRLF :: string where "CRLF \<equiv> [CHR 0x0D, CHR 0x0A]"

definition callback_response :: "string \<Rightarrow> string \<Rightarrow> string" where
  "callback_response status_line body =
     status_line @ CRLF @ ''content-type: text/plain; charset=utf-8'' @ CRLF @ ''content-length: '' @ show_nat (length body)
     @ CRLF @ ''connection: close'' @ CRLF @ CRLF @ body"

definition request_target :: "string \<Rightarrow> string option" where
  "request_target req = (case str_lines req of
       [] \<Rightarrow> None
     | l # _ \<Rightarrow> let ws = split_whitespace l in if 1 < length ws then Some (ws ! 1) else None)"

text \<open>The last code, state and error of the query.\<close>

definition callback_param ::
    "string \<times> string \<Rightarrow> string option \<times> string option \<times> string option \<Rightarrow> string option \<times> string option \<times> string option" where
  "callback_param = (\<lambda>(key, v) (code, state, err).
     if key = ''code'' then (Some v, state, err)
     else if key = ''state'' then (code, Some v, err)
     else if key = ''error'' then (code, state, Some v)
     else (code, state, err))"

definition callback_params :: "(string \<times> string) list \<Rightarrow> string option \<times> string option \<times> string option" where
  "callback_params pairs = fold callback_param pairs (None, None, None)"

definition bad_request :: "string \<Rightarrow> string" where
  "bad_request text = callback_response ''HTTP/1.1 400 Bad Request'' (text @ [CHR 0x0A])"

text \<open>What the client answers and returns for a query.\<close>

definition callback_result :: "string \<Rightarrow> (string \<times> string) list \<Rightarrow> (oidc_error + string) \<times> string" where
  "callback_result expected_state pairs = (case callback_params pairs of (code, state, err) \<Rightarrow>
     case err of
       Some e \<Rightarrow> (Err (Oidc_ProviderError e), bad_request ''OIDC authentication failed.'')
     | None \<Rightarrow>
         if state \<noteq> Some expected_state
         then (Err (Oidc_InvalidResponse ''OIDC state mismatch''), bad_request ''OIDC state mismatch.'')
         else case code of
             None \<Rightarrow> (Err (Oidc_InvalidResponse ''OIDC callback missing code''), bad_request ''OIDC callback missing code.'')
           | Some code \<Rightarrow> (Ok code, callback_response ''HTTP/1.1 200 OK'' ''you can now close this tab''))"

definition callback_query ::
    "'url oidc_env \<Rightarrow> io_error + (io_error + bytes) list \<Rightarrow> (oidc_error + (string \<times> string) list) poll" where
  "callback_query oe accepted = (case accepted of
       Err e \<Rightarrow> Ready (Err (Oidc_Io e))
     | Ok reads \<Rightarrow> poll_and_then (read_http_request [] reads) (\<lambda>req.
         Ready (and_then (ok_or (Oidc_InvalidResponse ''malformed OIDC callback request'') (request_target req)) (\<lambda>target.
         and_then (map_err Oidc_Url (oe_url_parse oe (''http://localhost'' @ target))) (\<lambda>url.
         Ok (oe_url_pairs oe url))))))"

text \<open>The second component is the response that is written, if any; its errors are ignored.\<close>

definition wait_for_oidc_callback ::
    "'url oidc_env \<Rightarrow> io_error + (io_error + bytes) list \<Rightarrow> string \<Rightarrow> (oidc_error + string) poll \<times> string option" where
  "wait_for_oidc_callback oe accepted expected_state = (case callback_query oe accepted of
       Pending \<Rightarrow> (Pending, None)
     | Ready (Err e) \<Rightarrow> (Ready (Err e), None)
     | Ready (Ok pairs) \<Rightarrow> (case callback_result expected_state pairs of
         (result, response) \<Rightarrow> (Ready result, Some response)))"

section \<open>The token\<close>

definition token_form :: "oidc_config \<Rightarrow> string \<Rightarrow> string \<Rightarrow> string option \<Rightarrow> (string \<times> string) list" where
  "token_form oidc redirect_uri code code_verifier =
     [(''grant_type'', ''authorization_code''), (''code'', code), (''client_id'', oi_client_id oidc),
      (''redirect_uri'', redirect_uri)]
     @ (case oi_client_secret oidc of None \<Rightarrow> [] | Some s \<Rightarrow> [(''client_secret'', s)])
     @ (case code_verifier of None \<Rightarrow> [] | Some v \<Rightarrow> [(''code_verifier'', v)])"

definition exchange_oidc_code ::
    "'url oidc_env \<Rightarrow> string \<Rightarrow> oidc_config \<Rightarrow> string \<Rightarrow> string \<Rightarrow> string option \<Rightarrow> oidc_error + string" where
  "exchange_oidc_code oe endpoint oidc redirect_uri code code_verifier =
     and_then (map_err Oidc_Reqwest (oe_post oe endpoint (token_form oidc redirect_uri code code_verifier)))
       (\<lambda>(status, json).
     and_then (ensure (status = 200) (Oidc_ProviderError (''OIDC token endpoint returned '' @ oe_show_status oe status))) (\<lambda>_.
     and_then (map_err Oidc_Reqwest json) (\<lambda>id_token.
     ok_or (Oidc_InvalidResponse ''OIDC token response did not include an id_token'')
       (case id_token of Some t \<Rightarrow> if t \<noteq> [] then Some t else None | None \<Rightarrow> None))))"

definition authorization_pairs ::
    "'url oidc_env \<Rightarrow> oidc_config \<Rightarrow> string \<Rightarrow> string \<Rightarrow> string \<Rightarrow> string option \<Rightarrow> (string \<times> string) list" where
  "authorization_pairs oe oidc redirect_uri state nonce code_verifier =
     [(''response_type'', ''code''), (''client_id'', oi_client_id oidc), (''redirect_uri'', redirect_uri),
      (''scope'', DEFAULT_OIDC_SCOPE), (''state'', state), (''nonce'', nonce)]
     @ (case code_verifier of
          None \<Rightarrow> []
        | Some v \<Rightarrow> [(''code_challenge'', oidc_code_challenge oe v), (''code_challenge_method'', ''S256'')])"

definition redirect_uri_for :: "u16 \<Rightarrow> string" where
  "redirect_uri_for port = ''http://127.0.0.1:'' @ show_nat (unat port) @ OIDC_CALLBACK_PATH"

definition opened_url ::
    "'url oidc_env \<Rightarrow> oidc_config \<Rightarrow> u16 \<Rightarrow> string \<Rightarrow> string \<Rightarrow> string option \<Rightarrow> 'url \<Rightarrow> string" where
  "opened_url oe oidc port state nonce verifier url = oe_url_string oe (fold (oe_url_append oe)
     (authorization_pairs oe oidc (redirect_uri_for port) state nonce verifier) url)"

definition authenticate_oidc_with_browser_opener ::
    "'url oidc_env \<Rightarrow> oidc_config \<Rightarrow> string \<Rightarrow> (oidc_error + string) poll" where
  "authenticate_oidc_with_browser_opener oe oidc expected_nonce =
     poll_and_then (Ready (fetch_oidc_discovery_document oe (oi_issuer_url oidc))) (\<lambda>discovery.
     poll_and_then (Ready (map_err Oidc_Io (oe_listen oe))) (\<lambda>local_addr.
     poll_and_then (Ready (map_err Oidc_Io local_addr)) (\<lambda>port.
     poll_and_then (Ready (random_urlsafe oe 0 24)) (\<lambda>state.
     poll_and_then (Ready (if oi_use_pkce oidc then map_sum id Some (random_urlsafe oe 1 48) else Ok None)) (\<lambda>code_verifier.
     poll_and_then (Ready (map_err Oidc_Url (oe_url_parse oe (authorization_endpoint discovery)))) (\<lambda>url.
     let auth_url = opened_url oe oidc port state expected_nonce code_verifier url in
     poll_and_then (Ready (oe_open oe auth_url)) (\<lambda>_.
     poll_and_then (fst (wait_for_oidc_callback oe (oe_callback oe auth_url) state)) (\<lambda>code.
     Ready (exchange_oidc_code oe (token_endpoint discovery) oidc (redirect_uri_for port) code code_verifier)))))))))"

section \<open>What a successful callback says\<close>

lemma fold_callback_param:
  "fold callback_param pairs (c, s, e) =
     (case map_of (rev pairs) ''code'' of Some v \<Rightarrow> Some v | None \<Rightarrow> c,
      case map_of (rev pairs) ''state'' of Some v \<Rightarrow> Some v | None \<Rightarrow> s,
      case map_of (rev pairs) ''error'' of Some v \<Rightarrow> Some v | None \<Rightarrow> e)"
proof (induction pairs arbitrary: c s e)
  case (Cons kv pairs)
  obtain key v where kv: "kv = (key, v)"
    by (cases kv)
  have "map_of (rev (kv # pairs)) k = (case map_of (rev pairs) k of Some w \<Rightarrow> Some w | None \<Rightarrow> if k = key then Some v else None)" for k
    by (simp add: kv map_add_def split: option.split)
  moreover consider "key = ''code''" | "key = ''state''" | "key = ''error''"
    | "key \<noteq> ''code''" "key \<noteq> ''state''" "key \<noteq> ''error''"
    by blast
  then have "callback_param kv (c, s, e) = (if ''code'' = key then Some v else c, if ''state'' = key then Some v else s,
      if ''error'' = key then Some v else e)"
    by cases (simp_all add: callback_param_def kv)
  ultimately show ?case
    by (simp add: Cons.IH del: list.inject rev.simps split: option.split)
qed simp

lemma callback_params_last:
  "callback_params pairs = (map_of (rev pairs) ''code'', map_of (rev pairs) ''state'', map_of (rev pairs) ''error'')"
  by (simp add: callback_params_def fold_callback_param split: option.split)

lemma callback_result_Ok_iff:
  "fst (callback_result expected_state pairs) = Ok code \<longleftrightarrow>
     map_of (rev pairs) ''error'' = None \<and> map_of (rev pairs) ''state'' = Some expected_state
     \<and> map_of (rev pairs) ''code'' = Some code"
  by (cases "map_of (rev pairs) ''error''"; cases "map_of (rev pairs) ''state''"; cases "map_of (rev pairs) ''code''")
    (simp_all add: callback_result_def callback_params_last)

lemma bad_request_not_ok: "bad_request text \<noteq> callback_response ''HTTP/1.1 200 OK'' body"
  by (simp add: bad_request_def callback_response_def del: show_nat.simps)

lemma callback_response_iff:
  "snd (callback_result expected_state pairs) = callback_response ''HTTP/1.1 200 OK'' ''you can now close this tab''
     \<longleftrightarrow> is_ok (fst (callback_result expected_state pairs))"
  by (cases "map_of (rev pairs) ''error''"; cases "map_of (rev pairs) ''state''"; cases "map_of (rev pairs) ''code''")
    (simp_all add: callback_result_def callback_params_last bad_request_not_ok)

lemma wait_for_oidc_callback_Ok_iff:
  "fst (wait_for_oidc_callback oe accepted expected_state) = Ready (Ok code) \<longleftrightarrow>
     (\<exists>pairs. callback_query oe accepted = Ready (Ok pairs) \<and> map_of (rev pairs) ''error'' = None
        \<and> map_of (rev pairs) ''state'' = Some expected_state \<and> map_of (rev pairs) ''code'' = Some code)"
  unfolding wait_for_oidc_callback_def callback_result_Ok_iff [symmetric]
  by (cases "callback_query oe accepted") (simp_all split: sum.split prod.split)

lemma exchange_oidc_code_Ok_iff:
  "exchange_oidc_code oe endpoint oidc redirect_uri code code_verifier = Ok token \<longleftrightarrow>
     oe_post oe endpoint (token_form oidc redirect_uri code code_verifier) = Ok (200, Ok (Some token)) \<and> token \<noteq> []"
  unfolding exchange_oidc_code_def and_then_Ok_iff ok_or_Ok_iff map_err_Ok_iff split_paired_Ex prod.case ensure_Ok_iff
  by (rule iffI; elim exE conjE) (simp_all split: option.splits if_splits)

lemma authenticate_oidc_steps:
  assumes "authenticate_oidc_with_browser_opener oe oidc nonce = Ready (Ok token)"
  shows "\<exists>discovery port state verifier url u code.
     oe_discover oe (discovery_url (oi_issuer_url oidc)) = Ok discovery \<and> oe_listen oe = Ok (Ok port)
   \<and> random_urlsafe oe 0 24 = Ok state
   \<and> (if oi_use_pkce oidc then map_sum id Some (random_urlsafe oe 1 48) else Ok None) = Ok verifier
   \<and> oe_url_parse oe (authorization_endpoint discovery) = Ok url
   \<and> oe_open oe (opened_url oe oidc port state nonce verifier url) = Ok u
   \<and> fst (wait_for_oidc_callback oe (oe_callback oe (opened_url oe oidc port state nonce verifier url)) state) = Ready (Ok code)
   \<and> exchange_oidc_code oe (token_endpoint discovery) oidc (redirect_uri_for port) code verifier = Ok token"
  using assms
  unfolding authenticate_oidc_with_browser_opener_def fetch_oidc_discovery_document_def Let_def
    poll_and_then_Ok_iff poll.inject map_err_Ok_iff
  by (elim exE conjE, hypsubst) ((rule exI)+, (rule conjI, assumption)+, assumption)

section \<open>Properties of a login\<close>


definition demo_oidc :: oidc_config where
  "demo_oidc = \<lparr>oi_issuer_url = ''https://idp/'', oi_client_id = ''ssh3'', oi_client_secret = None, oi_use_pkce = True\<rparr>"

text \<open>A provider and a browser that comes back with the state it was sent with.\<close>

definition demo_oidc_env :: "(string \<times> (string \<times> string) list) oidc_env" where
  "demo_oidc_env =
     \<lparr>oe_b64url = (\<lambda>bs. ''B'' @ show_nat (length bs)), oe_sha256 = rev, oe_random = (\<lambda>n len. Ok (replicate len (of_nat n))),
      oe_discover = (\<lambda>_. Ok \<lparr>authorization_endpoint = ''https://idp/auth'', token_endpoint = ''https://idp/token''\<rparr>),
      oe_listen = Ok (Ok 4000),
      oe_url_parse = (\<lambda>u. Ok (u, if take 16 u = ''http://localhost'' then [(''code'', ''c1''), (''state'', ''B24'')] else [])),
      oe_url_pairs = snd, oe_url_append = (\<lambda>kv (u, q). (u, q @ [kv])), oe_url_string = fst, oe_open = (\<lambda>_. Ok ()),
      oe_callback = (\<lambda>_. Ok [Ok (bstr ''G ''), Ok (bstr ''/''), Ok []]),
      oe_post = (\<lambda>_ _. Ok (200, Ok (Some ''jwt''))), oe_show_status = show_nat\<rparr>"

lemma demo_oidc_login: "authenticate_oidc_with_browser_opener demo_oidc_env demo_oidc ''nonce'' = Ready (Ok ''jwt'')"
  by code_simp


end
