(* ===== verification/Client_Auth.thy ===== *)
theory Client_Auth
  imports Client_Oidc
begin

text \<open>
  How the client proves its user's identity (\<^verbatim>\<open>crates/ssh3-client/src/lib.rs\<close>): the choice of the authentication
  method, the CONNECT request with its credentials, and what the server reads from that request.
\<close>

section \<open>Credentials\<close>

definition configured_token :: "'u client_config \<Rightarrow> string option" where
  "configured_token config = (case cc_bearer_token config of
       None \<Rightarrow> None
     | Some t \<Rightarrow> let t = str_trim t in if t \<noteq> [] then Some t else None)"

definition auth_method_count :: "'u client_config \<Rightarrow> nat" where
  "auth_method_count config =
     of_bool (cc_identity_file config \<noteq> None) + of_bool (cc_agent config \<noteq> None) + of_bool (cc_password config \<noteq> None)
     + of_bool (configured_token config \<noteq> None) + of_bool (cc_oidc config \<noteq> None)"

definition basic_authorization_value :: "'o crates \<Rightarrow> string \<Rightarrow> string \<Rightarrow> string" where
  "basic_authorization_value env username password = ''Basic '' @ b64_encode env (bstr (username @ '':'' @ password))"

definition precomputed_authorization_header :: "'o crates \<Rightarrow> 'u client_config \<Rightarrow> client_error + string option" where
  "precomputed_authorization_header env config =
     (if auth_method_count config > 1 then Err ConflictingAuthenticationMethods
      else case configured_token config of
          Some token \<Rightarrow> Ok (Some (bearer_authorization_value token))
        | None \<Rightarrow> (case cc_password config of
            Some password \<Rightarrow> and_then (ok_or MissingUsernameForPassword (cc_username config))
              (\<lambda>username. Ok (Some (basic_authorization_value env username password)))
          | None \<Rightarrow> Ok None))"

text \<open>
  The world of a client: the crates of the tokens, the agent, the OpenID login, the request builder and the
  conversion to header values of \<^verbatim>\<open>http\<close>, and the clock.
\<close>

record ('o, 'u, 'v, 'a, 'url) client_env =
  ce_crates :: "'o crates"
  ce_agent_crates :: agent_crates
  ce_agent_read :: "'a read_exact_fn"
  ce_agent_write :: "'a write_all_fn"
  ce_agent_connect :: "string \<Rightarrow> io_error + 'a"
  ce_ssh_auth_sock :: "string option"
  ce_oidc :: "'url oidc_env"
  ce_build :: "string \<Rightarrow> 'u \<Rightarrow> string + ('u, 'v) http_request"
  ce_from_str :: "string \<Rightarrow> string + 'v"
  ce_clock :: "string + u64"

definition insert_header ::
    "('o, 'u, 'v, 'a, 'url) client_env \<Rightarrow> string \<Rightarrow> string \<Rightarrow> ('u, 'v) http_request \<Rightarrow> client_error + ('u, 'v) http_request" where
  "insert_header ce name val req = and_then (map_err InvalidHeaderValue (ce_from_str ce val))
     (\<lambda>v. Ok (req\<lparr>req_headers := (req_headers req)(name \<mapsto> v)\<rparr>))"

definition identity_token ::
    "('o, 'u, 'v, 'a, 'url) client_env \<Rightarrow> 'u client_config \<Rightarrow> string \<Rightarrow> bytes \<Rightarrow> client_error + string" where
  "identity_token ce config path cid =
     and_then (ok_or MissingUsernameForIdentity (cc_username config)) (\<lambda>username.
     and_then (map_err Cl_Auth (load_private_key (ce_crates ce) path)) (\<lambda>k.
     map_err Cl_Auth (build_bearer_token (ce_crates ce) (ce_clock ce) k username cid)))"

text \<open>The task that talks to the agent does not panic, so joining it gives its result.\<close>

definition agent_token ::
    "('o, 'u, 'v, 'a, 'url) client_env \<Rightarrow> 'u client_config \<Rightarrow> agent_selection \<Rightarrow> bytes \<Rightarrow> client_error + string" where
  "agent_token ce config selection cid =
     and_then (ok_or MissingUsernameForAgent (cc_username config)) (\<lambda>username.
     build_agent_bearer_token (ce_crates ce) (ce_agent_crates ce) (ce_agent_read ce) (ce_agent_write ce)
       (ce_agent_connect ce) (ce_ssh_auth_sock ce) (ce_clock ce) config selection username cid)"

text \<open>The value of the authorization header, once the conversation id is known.\<close>

definition authorization_value ::
    "('o, 'u, 'v, 'a, 'url) client_env \<Rightarrow> 'u client_config \<Rightarrow> string option \<Rightarrow> bytes \<Rightarrow> (client_error + string option) poll" where
  "authorization_value ce config precomputed cid = (case precomputed of
       Some val \<Rightarrow> Ready (Ok (Some val))
     | None \<Rightarrow> (case cc_oidc config of
         Some oidc \<Rightarrow> map_poll (map_sum Cl_Oidc (\<lambda>t. Some (bearer_authorization_value t)))
           (authenticate_oidc_with_browser_opener (ce_oidc ce) oidc (conversation_id_base64 (ce_crates ce) cid))
       | None \<Rightarrow> (case cc_identity_file config of
           Some path \<Rightarrow> Ready (map_sum id (\<lambda>t. Some (bearer_authorization_value t)) (identity_token ce config path cid))
         | None \<Rightarrow> (case cc_agent config of
             Some selection \<Rightarrow> Ready (map_sum id (\<lambda>t. Some (bearer_authorization_value t)) (agent_token ce config selection cid))
           | None \<Rightarrow> Ready (Ok None)))))"

abbreviation AUTHORIZATION :: string where "AUTHORIZATION \<equiv> ''authorization''"

text \<open>The CONNECT request: user agent, user and credentials.\<close>

definition client_connect_request ::
    "('o, 'u, 'v, 'a, 'url) client_env \<Rightarrow> 'u client_config \<Rightarrow> string option \<Rightarrow> bytes
     \<Rightarrow> (client_error + ('u, 'v) http_request) poll" where
  "client_connect_request ce config precomputed cid =
     poll_and_then (Ready (map_err Cl_BuildRequest
       (build_connect_request (ce_build ce) (ce_from_str ce) (cc_target_url config) (cc_user_agent config)))) (\<lambda>req.
     poll_and_then (Ready (case cc_username config of
         None \<Rightarrow> Ok req
       | Some username \<Rightarrow> insert_header ce SSH3_USER_HEADER username req)) (\<lambda>req.
     poll_and_then (authorization_value ce config precomputed cid) (\<lambda>val.
     Ready (case val of None \<Rightarrow> Ok req | Some val \<Rightarrow> insert_header ce AUTHORIZATION val req))))"

section \<open>Errors that are ignored\<close>

definition client_is_benign_connection_error :: "connection_error \<Rightarrow> bool" where
  "client_is_benign_connection_error e \<longleftrightarrow> e \<in> {ApplicationClosed, ConnectionClosed, LocallyClosed, TimedOut}"

definition client_is_benign_io_error :: "io_error \<Rightarrow> bool" where
  "client_is_benign_io_error e \<longleftrightarrow>
     io_kind e \<in> {BrokenPipe, ConnectionAborted, ConnectionReset, NotConnected, UnexpectedEof}
     \<or> (case io_source e of None \<Rightarrow> False | Some s \<Rightarrow> client_is_benign_connection_error s)
     \<or> (let message = to_ascii_lowercase (io_message e) in
         str_contains ''connection lost'' message \<or> str_contains ''closed stream'' message
         \<or> str_contains ''connection closed'' message)"

fun client_is_benign_channel_error :: "channel_error \<Rightarrow> bool" where
  "client_is_benign_channel_error (Ch_Io e) \<longleftrightarrow> client_is_benign_io_error e"
| "client_is_benign_channel_error _ \<longleftrightarrow> False"

fun client_is_benign_open_channel_error :: "open_channel_error \<Rightarrow> bool" where
  "client_is_benign_open_channel_error (Open_Connection e) \<longleftrightarrow> client_is_benign_connection_error e"
| "client_is_benign_open_channel_error _ \<longleftrightarrow> False"

fun is_benign_client_error :: "client_error \<Rightarrow> bool" where
  "is_benign_client_error (Cl_Connection e) \<longleftrightarrow> client_is_benign_connection_error e"
| "is_benign_client_error (Cl_OpenChannel e) \<longleftrightarrow> client_is_benign_open_channel_error e"
| "is_benign_client_error (Cl_Channel e) \<longleftrightarrow> client_is_benign_channel_error e"
| "is_benign_client_error (Cl_Io e) \<longleftrightarrow> client_is_benign_io_error e"
| "is_benign_client_error _ \<longleftrightarrow> False"

fun client_is_benign_route_error :: "route_accepted_channel_error \<Rightarrow> bool" where
  "client_is_benign_route_error (Route_Accept (Accept_Connection e)) \<longleftrightarrow> client_is_benign_connection_error e"
| "client_is_benign_route_error _ \<longleftrightarrow> False"

fun is_benign_datagram_dispatch_error :: "datagram_dispatch_error \<Rightarrow> bool" where
  "is_benign_datagram_dispatch_error (Dispatch_Connection e) \<longleftrightarrow> client_is_benign_connection_error e"
| "is_benign_datagram_dispatch_error _ \<longleftrightarrow> False"

section \<open>Channels that the server opens for the agent\<close>

fun relay_client_error :: "relay_error \<Rightarrow> client_error" where
  "relay_client_error (Relay_Channel e) = Cl_Channel e"
| "relay_client_error (Relay_Io e) = Cl_Io e"

text \<open>
  The task that serves the server's channels to the local agent, over what it accepts: an error ends it, a
  channel comes with the result of connecting to the agent and the schedule of its relay. It takes one channel
  at a time. The result lists, for every channel it got to, whether the agent was connected and the channel
  afterwards.
\<close>

datatype ('r, 'w, 'k) forwarder_event =
    AcceptFailed conversation_error
  | AgentChannel "('r, 'w) channel" "io_error + 'k" "agent_relay_event list"

fun agent_forwarder ::
    "'r read_exact_fn \<Rightarrow> 'w write_all_fn \<Rightarrow> 'w close_fn \<Rightarrow> 'k write_all_fn \<Rightarrow> ('r, 'w, 'k) forwarder_event list
     \<Rightarrow> (bool \<times> ('r, 'w) channel) list option" where
  "agent_forwarder rd wr cl sw [] = Some []"
| "agent_forwarder rd wr cl sw (AcceptFailed e # evs) = Some []"
| "agent_forwarder rd wr cl sw (AgentChannel c connected sched # evs) =
     (if info_channel_type (info c) \<noteq> bstr ''agent-connection''
      then map_option (\<lambda>cs. (False, close_ignoring cl c) # cs) (agent_forwarder rd wr cl sw evs)
      else case forward_agent_channel rd wr cl sw connected sched c of
          None \<Rightarrow> None
        | Some (Pending, c, k) \<Rightarrow> Some [(k \<noteq> None, c)]
        | Some (Ready (Ok _), c, k) \<Rightarrow> map_option (\<lambda>cs. (k \<noteq> None, c) # cs) (agent_forwarder rd wr cl sw evs)
        | Some (Ready (Err e), c, k) \<Rightarrow>
            if is_benign_client_error (relay_client_error e)
            then map_option (\<lambda>cs. (k \<noteq> None, c) # cs) (agent_forwarder rd wr cl sw evs)
            else Some [(k \<noteq> None, c)])"

text \<open>Only channels of the agent's type reach the agent; any other channel is closed and nothing else happens to it.\<close>

lemma agent_forwarder_types:
  assumes "agent_forwarder rd wr cl sw evs = Some cs" "i < length cs"
  shows "\<exists>c connected sched. evs ! i = AgentChannel c connected sched
    \<and> (info_channel_type (info c) \<noteq> bstr ''agent-connection'' \<longrightarrow> cs ! i = (False, close_ignoring cl c))"
  using assms
proof (induction evs arbitrary: cs i)
  case (Cons ev evs)
  then obtain c connected sched where ev: "ev = AgentChannel c connected sched"
    by (cases ev) auto
  show ?case
  proof (cases i)
    case 0
    with Cons.prems show ?thesis
      by (auto simp: ev)
  next
    case (Suc j)
    have "\<exists>cs'. agent_forwarder rd wr cl sw evs = Some cs' \<and> cs ! i = cs' ! j \<and> j < length cs'"
      using Cons.prems Suc by (auto simp: ev split: if_splits option.splits poll.splits sum.splits)
    with Cons.IH Suc show ?thesis
      by fastforce
  qed
qed simp

section \<open>What the server reads\<close>

text \<open>
  What the crates document of header values and of base64: a header value is read back as the string it was made
  from; decoding inverts encoding, and the alphabet has neither white space nor other control characters.
\<close>

definition headers_ok :: "(string \<Rightarrow> string + 'v) \<Rightarrow> ('v \<Rightarrow> 't + string) \<Rightarrow> bool" where
  "headers_ok from_str to_str \<longleftrightarrow> (\<forall>s v. from_str s = Ok v \<longrightarrow> to_str v = Ok s)"

definition base64_ok :: "(bytes \<Rightarrow> string) \<Rightarrow> (string \<Rightarrow> string + bytes) \<Rightarrow> bool" where
  "base64_ok enc dec \<longleftrightarrow> (\<forall>bs. dec (enc bs) = Ok bs \<and> list_all is_graph (enc bs) \<and> (enc bs = [] \<longrightarrow> bs = []))"

text \<open>The server trims a bearer token and ignores an empty one.\<close>

definition bearer_seen :: "string \<Rightarrow> request_authorization" where
  "bearer_seen token = (let t = str_trim token in if t \<noteq> [] then Bearer t else NoAuthorization)"

definition authorization_seen :: "(string \<Rightarrow> string + bytes) \<Rightarrow> string option \<Rightarrow> request_authorization" where
  "authorization_seen b64_decode val = parse_request_authorization (Inr :: string \<Rightarrow> unit + string) b64_decode
     \<lparr>req_method = ''CONNECT'', req_uri = (), req_headers = (\<lambda>n. if n = AUTHORIZATION then val else None), req_protocol = None\<rparr>"

lemma parse_authorization_seen:
  assumes "Option.bind (req_headers req AUTHORIZATION) (\<lambda>v. case to_str v of Ok s \<Rightarrow> Some s | Err _ \<Rightarrow> None) = val"
  shows "parse_request_authorization to_str b64_decode req = authorization_seen b64_decode val"
  unfolding authorization_seen_def parse_request_authorization_def header_str_def assms
  by (simp add: bind_eq_None_conv)

lemma strip_scheme_space: "strip_scheme (scheme @ '' '' @ rest) scheme = Some (str_trim rest)"
  by (simp add: strip_scheme_def eq_ignore_ascii_case_def)

lemma strip_scheme_other: "strip_scheme (''Bearer '' @ rest) ''Basic'' = None"
  by (simp add: strip_scheme_def eq_ignore_ascii_case_def to_ascii_lowercase_def to_ascii_lowercase_char_def)

lemma authorization_seen_None [simp]: "authorization_seen b64_decode None = NoAuthorization"
  by (simp add: authorization_seen_def parse_request_authorization_def header_str_def)

lemma authorization_seen_bearer: "authorization_seen b64_decode (Some (bearer_authorization_value t)) = bearer_seen t"
  using strip_scheme_other [of t] strip_scheme_space [of "''Bearer''" t]
  by (simp add: authorization_seen_def parse_request_authorization_def header_str_def bearer_authorization_value_def
      bearer_seen_def Let_def)

lemma str_trim_all_graph: "list_all is_graph s \<Longrightarrow> str_trim s = s"
proof (cases "s = []")
  case True
  then show ?thesis
    by (simp add: str_trim_def trim_start.simps [of "[]"] trim_end.simps [of "[]"] ws_end_len_def)
qed (auto simp: list_all_iff intro!: str_trim_graph)

lemma authorization_seen_basic:
  assumes "base64_ok (b64_encode env) b64_decode" "from_utf8 (bstr (u @ '':'' @ p)) = Some (u @ '':'' @ p)" "CHR '':'' \<notin> set u"
  shows "authorization_seen b64_decode (Some (basic_authorization_value env u p)) = Basic u p"
proof -
  have "str_trim (b64_encode env (bstr (u @ '':'' @ p))) = b64_encode env (bstr (u @ '':'' @ p))"
    "b64_decode (b64_encode env (bstr (u @ '':'' @ p))) = Ok (bstr (u @ '':'' @ p))"
    using assms(1) by (simp_all add: base64_ok_def str_trim_all_graph)
  moreover have "split_once (CHR '':'') (u @ '':'' @ p) = Some (u, p)"
    using assms(3) by (simp add: split_once_iff)
  ultimately show ?thesis
    using strip_scheme_space [of "''Basic''" "b64_encode env (bstr (u @ '':'' @ p))"] assms(2)
    by (simp add: authorization_seen_def parse_request_authorization_def header_str_def basic_authorization_value_def)
qed

text \<open>The credentials that a configuration stands for in a conversation, as the server is to read them.\<close>

inductive presents ::
    "('o, 'u, 'v, 'a, 'url) client_env \<Rightarrow> 'u client_config \<Rightarrow> bytes \<Rightarrow> request_authorization \<Rightarrow> bool"
    for ce config cid where
  Token: "configured_token config = Some t \<Longrightarrow> presents ce config cid (Bearer t)"
| Password: "cc_password config = Some p \<Longrightarrow> cc_username config = Some u \<Longrightarrow> presents ce config cid (Basic u p)"
| Login: "cc_oidc config = Some oidc \<Longrightarrow>
     authenticate_oidc_with_browser_opener (ce_oidc ce) oidc (conversation_id_base64 (ce_crates ce) cid) = Ready (Ok t) \<Longrightarrow>
     presents ce config cid (bearer_seen t)"
| Identity: "cc_identity_file config = Some path \<Longrightarrow> identity_token ce config path cid = Ok t \<Longrightarrow>
     presents ce config cid (bearer_seen t)"
| Agent: "cc_agent config = Some selection \<Longrightarrow> agent_token ce config selection cid = Ok t \<Longrightarrow>
     presents ce config cid (bearer_seen t)"
| Nothing: "auth_method_count config = 0 \<Longrightarrow> presents ce config cid NoAuthorization"

lemma map_poll_Ok_iff: "map_poll (map_sum f g) p = Ready (Ok b) \<longleftrightarrow> (\<exists>a. p = Ready (Ok a) \<and> b = g a)"
  by (cases p) (auto simp: map_sum_def split: sum.splits)

lemma precomputed_seen:
  assumes "precomputed_authorization_header (ce_crates ce) config = Ok (Some val)"
    and "base64_ok (b64_encode (ce_crates ce)) b64_decode"
    and "\<forall>u p. cc_username config = Some u \<and> cc_password config = Some p \<longrightarrow>
      CHR '':'' \<notin> set u \<and> from_utf8 (bstr (u @ '':'' @ p)) = Some (u @ '':'' @ p)"
  shows "presents ce config cid (authorization_seen b64_decode (Some val))"
proof (cases "configured_token config")
  case (Some t)
  then have "val = bearer_authorization_value t" "str_trim t = t" "t \<noteq> []"
    using assms(1) by (auto simp: precomputed_authorization_header_def configured_token_def Let_def split: if_splits option.splits)
  with Some show ?thesis
    by (auto simp: authorization_seen_bearer bearer_seen_def intro: presents.Token)
next
  case None
  then obtain u p where "cc_password config = Some p" "cc_username config = Some u"
    "val = basic_authorization_value (ce_crates ce) u p"
    using assms(1) by (auto simp: precomputed_authorization_header_def result_Ok_iffs split: if_splits option.splits)
  with assms(2,3) show ?thesis
    by (auto simp: authorization_seen_basic intro: presents.Password)
qed

lemma computed_seen:
  assumes "precomputed_authorization_header (ce_crates ce) config = Ok None"
    and "authorization_value ce config None cid = Ready (Ok val)"
  shows "presents ce config cid (authorization_seen b64_decode val)"
proof -
  have none: "configured_token config = None" "cc_password config = None"
    using assms(1) by (auto simp: precomputed_authorization_header_def result_Ok_iffs split: if_splits option.splits)
  show ?thesis
  proof (cases "cc_oidc config")
    case (Some oidc)
    with assms(2) show ?thesis
      by (auto simp: authorization_value_def map_poll_Ok_iff authorization_seen_bearer intro: presents.Login)
  next
    case oidc: None
    show ?thesis
    proof (cases "cc_identity_file config")
      case (Some path)
      with oidc assms(2) show ?thesis
        by (auto simp: authorization_value_def map_sum_Ok_iff authorization_seen_bearer intro: presents.Identity)
    next
      case ident: None
      show ?thesis
        using assms(2) oidc ident none
        by (cases "cc_agent config")
          (auto simp: authorization_value_def map_sum_Ok_iff authorization_seen_bearer auth_method_count_def
            intro: presents.Agent presents.Nothing)
    qed
  qed
qed

lemma connect_request_seen:
  assumes "client_connect_request ce config precomputed cid = Ready (Ok req)" "headers_ok (ce_from_str ce) to_str"
    and "\<forall>meth u r. ce_build ce meth u = Ok r \<longrightarrow> req_method r = meth \<and> req_headers r = Map.empty"
  obtains val where "authorization_value ce config precomputed cid = Ready (Ok val)"
    "parse_request_authorization to_str b64_decode req = authorization_seen b64_decode val"
    "is_ssh3_connect req" "header_str to_str req SSH3_USER_HEADER = cc_username config"
proof -
  from assms(1) obtain r0 r1 val where r0: "build_connect_request (ce_build ce) (ce_from_str ce) (cc_target_url config)
      (cc_user_agent config) = Ok r0"
    and r1: "(case cc_username config of None \<Rightarrow> Ok r0 | Some u \<Rightarrow> insert_header ce SSH3_USER_HEADER u r0) = Ok r1"
    and val: "authorization_value ce config precomputed cid = Ready (Ok val)"
    and req: "(case val of None \<Rightarrow> Ok r1 | Some val \<Rightarrow> insert_header ce AUTHORIZATION val r1) = Ok req"
    by (auto simp: client_connect_request_def poll_and_then_Ok_iff map_err_Ok_iff)
  have h0: "req_method r0 = ''CONNECT''" "req_protocol r0 = Some SSH3_PROTOCOL_NAME"
    "req_headers r0 AUTHORIZATION = None" "req_headers r0 SSH3_USER_HEADER = None"
    using r0 assms(3) by (auto simp: build_connect_request_def SSH3_USER_HEADER_def split: sum.splits)
  have h1: "req_method r1 = ''CONNECT''" "req_protocol r1 = Some SSH3_PROTOCOL_NAME"
    "req_headers r1 AUTHORIZATION = None" "header_str to_str r1 SSH3_USER_HEADER = cc_username config"
    using r1 h0 assms(2)
    by (auto simp: insert_header_def result_Ok_iffs headers_ok_def header_str_def SSH3_USER_HEADER_def split: option.splits)
  have "Option.bind (req_headers req AUTHORIZATION) (\<lambda>v. case to_str v of Ok s \<Rightarrow> Some s | Err _ \<Rightarrow> None) = val"
    "is_ssh3_connect req" "header_str to_str req SSH3_USER_HEADER = cc_username config"
    using req h1 assms(2)
    by (auto simp: insert_header_def result_Ok_iffs headers_ok_def header_str_def is_ssh3_connect_def request_protocol_def
        SSH3_USER_HEADER_def split: option.splits)
  with val show ?thesis
    by (intro that [of val] parse_authorization_seen)
qed

section \<open>Properties of the client's credentials\<close>

text \<open>
  C8: The server reads the credentials that the client was configured with. The request that the client sends is an
  SSH3 CONNECT with the configured user name, and the server's \<^verbatim>\<open>parse_request_authorization\<close> takes from it exactly
  the credentials of the one configured method: the trimmed token, the user name and password, or the token of the
  OpenID login, key file or agent for this conversation; none, if no method is configured. Two configured methods
  are refused before anything is sent. A password needs a user name without a colon.
\<close>

theorem credentials_reach_server:
  assumes "precomputed_authorization_header (ce_crates ce) config = Ok precomputed"
    and "client_connect_request ce config precomputed cid = Ready (Ok req)"
    and "headers_ok (ce_from_str ce) to_str" "base64_ok (b64_encode (ce_crates ce)) b64_decode"
    and "\<forall>meth u r. ce_build ce meth u = Ok r \<longrightarrow> req_method r = meth \<and> req_headers r = Map.empty"
    and "\<forall>u p. cc_username config = Some u \<and> cc_password config = Some p \<longrightarrow>
      CHR '':'' \<notin> set u \<and> from_utf8 (bstr (u @ '':'' @ p)) = Some (u @ '':'' @ p)"
  shows "auth_method_count config \<le> 1 \<and> is_ssh3_connect req
    \<and> header_str to_str req SSH3_USER_HEADER = cc_username config
    \<and> presents ce config cid (parse_request_authorization to_str b64_decode req)"
proof -
  obtain val where val: "authorization_value ce config precomputed cid = Ready (Ok val)"
    "parse_request_authorization to_str b64_decode req = authorization_seen b64_decode val"
    and req: "is_ssh3_connect req" "header_str to_str req SSH3_USER_HEADER = cc_username config"
    using connect_request_seen [OF assms(2,3,5)] .
  have "presents ce config cid (authorization_seen b64_decode val)"
  proof (cases precomputed)
    case (Some v)
    with val(1) have "val = Some v"
      by (simp add: authorization_value_def)
    with Some assms(1,4,6) show ?thesis
      by (simp add: precomputed_seen)
  next
    case None
    with assms(1) val(1) show ?thesis
      by (simp add: computed_seen)
  qed
  moreover have "auth_method_count config \<le> 1"
    using assms(1) by (auto simp: precomputed_authorization_header_def split: if_splits)
  ultimately show ?thesis
    using val(2) req by simp
qed

lemma base64_ok_hex: "base64_ok hex_encode hex_decode"
proof -
  have "is_graph (nibble_char n)" if "n < 16" for n
    using that by (simp add: is_graph_def nibble_char_def of_char_of)
  moreover have "unat b div 16 < 16" for b :: u8
    using unat_u8_lt [of b] by simp
  ultimately have "list_all is_graph (hex_encode bs)" "hex_encode bs = [] \<longrightarrow> bs = []" for bs
    by (auto simp: hex_encode_def list_all_iff)
  then show ?thesis
    by (simp add: base64_ok_def)
qed

definition demo_client_env :: "(bytes, string, string, bytes option \<times> bytes, string \<times> (string \<times> string) list) client_env" where
  "demo_client_env = \<lparr>ce_crates = demo_crates, ce_agent_crates = demo_agent_crates, ce_agent_read = demo_agent_read,
     ce_agent_write = demo_agent_write, ce_agent_connect = (\<lambda>_. Ok (None, [])), ce_ssh_auth_sock = None,
     ce_oidc = demo_oidc_env,
     ce_build = (\<lambda>m u. Ok \<lparr>req_method = m, req_uri = u, req_headers = Map.empty, req_protocol = None\<rparr>),
     ce_from_str = Inr, ce_clock = Ok 100\<rparr>"

definition demo_password_config :: "string client_config" where
  "demo_password_config = (client_config_new ''https://host/ssh3'')\<lparr>cc_username := Some ''alice'', cc_password := Some ''pw''\<rparr>"

lemma demo_client_env_ok:
  "headers_ok (ce_from_str demo_client_env) (Inr :: string \<Rightarrow> unit + string)"
  "base64_ok (b64_encode (ce_crates demo_client_env)) hex_decode"
  "\<forall>meth u r. ce_build demo_client_env meth u = Ok r \<longrightarrow> req_method r = meth \<and> req_headers r = Map.empty"
  by (auto simp: headers_ok_def demo_client_env_def demo_crates_def base64_ok_hex)

theorem credentials_reach_server_witness:
  "\<exists>precomputed req. precomputed_authorization_header demo_crates demo_password_config = Ok precomputed
     \<and> client_connect_request demo_client_env demo_password_config precomputed [7] = Ready (Ok req)
     \<and> parse_request_authorization (Inr :: string \<Rightarrow> unit + string) hex_decode req = Basic ''alice'' ''pw''"
proof -
  let ?val = "basic_authorization_value demo_crates ''alice'' ''pw''"
  have pre: "precomputed_authorization_header (ce_crates demo_client_env) demo_password_config = Ok (Some ?val)"
    by (simp add: precomputed_authorization_header_def auth_method_count_def demo_password_config_def client_config_new_def
        configured_token_def demo_client_env_def)
  obtain req where req: "client_connect_request demo_client_env demo_password_config (Some ?val) [7] = Ready (Ok req)"
    by (simp add: client_connect_request_def authorization_value_def insert_header_def build_connect_request_def
        demo_client_env_def demo_password_config_def client_config_new_def)
  have "from_utf8 (bstr ''alice:pw'') = Some (str_of_bytes (bstr ''alice:pw''))"
    by (rule from_utf8_ascii) (simp add: bstr_def)
  then have "\<forall>u p. cc_username demo_password_config = Some u \<and> cc_password demo_password_config = Some p \<longrightarrow>
      CHR '':'' \<notin> set u \<and> from_utf8 (bstr (u @ '':'' @ p)) = Some (u @ '':'' @ p)"
    unfolding str_of_bytes_bstr by (simp add: demo_password_config_def)
  from credentials_reach_server [OF pre req demo_client_env_ok this]
  have "presents demo_client_env demo_password_config [7] (parse_request_authorization (Inr :: string \<Rightarrow> unit + string) hex_decode req)"
    by simp
  then have "parse_request_authorization (Inr :: string \<Rightarrow> unit + string) hex_decode req = Basic ''alice'' ''pw''"
    by cases (simp_all add: demo_password_config_def client_config_new_def configured_token_def auth_method_count_def)
  with pre req show ?thesis
    by (auto simp: demo_client_env_def)
qed

lemma authorize_identities_key:
  assumes "PublicKeyId k \<in> set ids" "\<forall>i. verify_bearer_token env (clock i) k token username cid = Ok ()"
  shows "authorize_identities env clock token username cid i ids"
  using assms(1)
proof (induction ids arbitrary: i)
  case (Cons identity ids)
  then show ?case
    using assms(2) by (cases identity) auto
qed simp

text \<open>
  Logging in with a key works from end to end. A client that is configured with a key file sends a request that a
  server accepts which requires authentication and lists the key for the user: whatever other identities are listed
  before it, as long as the server checks the token within the 60 seconds after the client has built it.
\<close>

theorem identity_login_accepted:
  assumes "encodings_ok (ce_crates ce)" "keypair_ok (ce_crates ce) k" "\<forall>bs. list_all is_graph (b64url_encode (ce_crates ce) bs)"
    and "headers_ok (ce_from_str ce) to_str" "\<forall>meth u r. ce_build ce meth u = Ok r \<longrightarrow> req_method r = meth \<and> req_headers r = Map.empty"
    and "cc_identity_file config = Some path" "load_private_key (ce_crates ce) path = Ok k" "cc_username config = Some (su_username user)"
    and "precomputed_authorization_header (ce_crates ce) config = Ok precomputed"
    and "client_connect_request ce config precomputed cid = Ready (Ok req)"
    and "ce_clock ce = Ok now" "unat now + 60 < 2 ^ 64"
    and "\<forall>i. \<exists>t. clock i = Ok t \<and> now \<le> t \<and> unat t < unat now + 60"
    and "should_authenticate sconfig"
    and "load_authorized_identities_from_paths (ce_crates ce) fs (configured_authorized_identity_paths sconfig user) = Ok ids"
    and "PublicKeyId (pair_public k) \<in> set ids"
  shows "authorize_request (ce_crates ce) db fs clock (parse_request_authorization to_str b64_decode req) user cid sconfig = Ok True"
proof -
  obtain val where val: "authorization_value ce config precomputed cid = Ready (Ok val)"
    "parse_request_authorization to_str b64_decode req = authorization_seen b64_decode val"
    using connect_request_seen [OF assms(10,4,5)] .
  have "auth_method_count config \<le> 1"
    using assms(9) by (auto simp: precomputed_authorization_header_def split: if_splits)
  then have only: "configured_token config = None" "cc_password config = None" "cc_oidc config = None"
    using assms(6) by (auto simp: auth_method_count_def of_bool_def split: if_splits)
  then have "precomputed = None"
    using assms(9) by (auto simp: precomputed_authorization_header_def split: if_splits)
  with val(1) only assms(6-8,11) obtain token where token: "val = Some (bearer_authorization_value token)"
    and build: "build_bearer_token (ce_crates ce) (Ok now) k (su_username user) cid = Ok token"
    by (auto simp: authorization_value_def identity_token_def map_sum_Ok_iff map_err_Ok_iff)
  obtain h c s where "token = token_of (b64url_encode (ce_crates ce) h) (b64url_encode (ce_crates ce) c) (b64url_encode (ce_crates ce) s)"
    using build by (rule build_bearer_tokenE)
  then have "list_all is_graph token" "token \<noteq> []"
    using assms(3) by (simp_all add: token_of_def is_graph_def)
  then have seen: "parse_request_authorization to_str b64_decode req = Bearer token"
    using val(2) token by (simp add: authorization_seen_bearer bearer_seen_def str_trim_all_graph)
  have "verify_bearer_token (ce_crates ce) (clock i) (pair_public k) token (su_username user) cid = Ok ()" for i
    using verify_built_token [OF assms(1,2) build assms(12)] assms(13) by (metis leD not_le)
  then have "authorize_identities (ce_crates ce) clock token (su_username user) cid 0 ids"
    using assms(16) by (intro authorize_identities_key) auto
  moreover have "ids \<noteq> []"
    using assms(16) by auto
  ultimately show ?thesis
    using assms(14,15) by (simp add: authorize_request_def seen)
qed

definition demo_identity_config :: "string client_config" where
  "demo_identity_config = (client_config_new ''https://host/ssh3'')\<lparr>cc_username := Some ''alice'', cc_identity_file := Some ''/key''\<rparr>"

definition demo_identities :: "string \<Rightarrow> io_error + string" where
  "demo_identities path = Ok (''# keys'' @ [CHR 0x0A] @ ''ssh-ed25519 AAAA'')"

lemma demo_identities_loaded:
  "load_authorized_identities_from_paths demo_crates demo_identities [''/authorized''] = Ok [PublicKeyId demo_public]"
  by code_simp

theorem identity_login_accepted_witness:
  "let sconfig = demo_config\<lparr>authorized_identity_paths := [''/authorized'']\<rparr> in
   \<exists>req. client_connect_request demo_client_env demo_identity_config None [7] = Ready (Ok req)
     \<and> authorize_request demo_crates (srv_shadow demo_server) demo_identities (\<lambda>_. Ok 120)
         (parse_request_authorization (Inr :: string \<Rightarrow> unit + string) hex_decode req) demo_user [7] sconfig = Ok True"
proof -
  let ?sconfig = "demo_config\<lparr>authorized_identity_paths := [''/authorized'']\<rparr>"
  have env: "ce_crates demo_client_env = demo_crates" "ce_clock demo_client_env = Ok 100"
    by (simp_all add: demo_client_env_def)
  have h: "cc_identity_file demo_identity_config = Some ''/key''" "load_private_key demo_crates ''/key'' = Ok demo_key"
    "cc_username demo_identity_config = Some (su_username demo_user)"
    "precomputed_authorization_header demo_crates demo_identity_config = Ok None"
    "should_authenticate ?sconfig" "configured_authorized_identity_paths ?sconfig demo_user = [''/authorized'']"
    by (simp_all add: demo_identity_config_def client_config_new_def load_private_key_def demo_crates_def demo_key_def demo_user_def
        precomputed_authorization_header_def auth_method_count_def configured_token_def should_authenticate_def
        configured_authorized_identity_paths_def)
  obtain req where req: "client_connect_request demo_client_env demo_identity_config None [7] = Ready (Ok req)"
    using demo_token h(2)
    by (simp add: client_connect_request_def authorization_value_def insert_header_def build_connect_request_def
        identity_token_def env demo_identity_config_def client_config_new_def) (simp add: demo_client_env_def)
  have "\<forall>bs. list_all is_graph (b64url_encode demo_crates bs)"
    using base64_ok_hex by (simp add: base64_ok_def demo_crates_def)
  with identity_login_accepted [of demo_client_env demo_key "Inr :: string \<Rightarrow> unit + string" demo_identity_config
      "''/key''" demo_user None "[7]" req 100 "\<lambda>_. Ok 120" ?sconfig demo_identities "[PublicKeyId demo_public]" "srv_shadow demo_server" hex_decode]
    demo_crates_ok demo_client_env_ok req h demo_identities_loaded
  show ?thesis
    by (auto simp: env Let_def demo_key_def intro!: exI [of _ req])
qed

end
