(* ===== verification/Client_Connect.thy ===== *)
theory Client_Connect
  imports Client_Auth
begin

text \<open>
  How the client gets its conversation (\<^verbatim>\<open>crates/ssh3-client/src/lib.rs\<close>): trust, the addresses of the target, the race
  between them, the CONNECT exchange and the sessions that run on the conversation. The operations of \<^verbatim>\<open>quinn\<close> and of
  the HTTP/3 crate, the resolver and the file system are arguments.
\<close>

section \<open>Trust\<close>

definition load_certificates ::
    "(string \<Rightarrow> io_error + bytes) \<Rightarrow> (bytes \<Rightarrow> string + bytes list) \<Rightarrow> string \<Rightarrow> client_error + bytes list" where
  "load_certificates fs_read pem_slice path =
     and_then (map_err Cl_Io (fs_read path)) (\<lambda>bs.
     let begin_mark = bstr ''-----BEGIN'' in
     if take (length begin_mark) bs = begin_mark then
       and_then (map_err (\<lambda>e. Cl_Io (io_error_new InvalidData e)) (pem_slice bs)) (\<lambda>certificates.
       if certificates = [] then Err InvalidCertificateBundle else Ok certificates)
     else Ok [bs])"

definition client_quinn_config :: "tls_crates \<Rightarrow> trust_strategy \<Rightarrow> client_error + tls_client" where
  "client_quinn_config tls trust = (case trust of
       WebPkiRoots \<Rightarrow> map_err Cl_QuinnConfig (client_config_with_webpki_roots tls)
     | Certificates certificates \<Rightarrow>
         let roots = filter (\<lambda>c. is_ok (root_add tls c)) certificates in
         if length roots = 0 then Err InvalidCertificateBundle
         else map_err Cl_QuinnConfig (client_config_with_roots tls roots)
     | Insecure \<Rightarrow> map_err Cl_QuinnConfig (client_config_insecure tls))"

section \<open>Addresses\<close>

text \<open>
  A host and port are part of the target's URI. \<open>qe_connect\<close> starts a handshake on an endpoint with a TLS
  configuration, an address and a server name; \<open>qe_complete\<close> gives the results of started handshakes in the
  order in which they end.
\<close>

record ('u, 'ep, 'p, 'c) quic_env =
  qe_tls :: tls_crates
  qe_host :: "'u \<Rightarrow> string option"
  qe_port :: "'u \<Rightarrow> u16 option"
  qe_lookup_host :: "string \<Rightarrow> u16 \<Rightarrow> io_error + socket_addr list"
  qe_endpoint :: "socket_addr \<Rightarrow> io_error + 'ep"
  qe_connect :: "'ep \<Rightarrow> tls_client \<Rightarrow> socket_addr \<Rightarrow> string \<Rightarrow> string + 'p"
  qe_complete :: "('ep \<times> 'p) list \<Rightarrow> ('ep \<times> (connection_error + 'c)) list"

record resolved_target =
  remote_addrs :: "socket_addr list"
  server_name :: string

definition resolve_target :: "('u, 'ep, 'p, 'c) quic_env \<Rightarrow> 'u \<Rightarrow> string option \<Rightarrow> client_error + resolved_target" where
  "resolve_target qe uri server_name_override =
     and_then (ok_or MissingHost (qe_host qe uri)) (\<lambda>host.
     and_then (map_err Cl_Resolve (qe_lookup_host qe host (case qe_port qe uri of Some p \<Rightarrow> p | None \<Rightarrow> 443))) (\<lambda>addrs.
     if addrs = [] then Err (Cl_Resolve (io_error_new AddrNotAvailable ''target host did not resolve to an address''))
     else Ok \<lparr>remote_addrs = addrs, server_name = (case server_name_override of Some n \<Rightarrow> n | None \<Rightarrow> host)\<rparr>))"

definition client_bind_addr :: "socket_addr \<Rightarrow> socket_addr" where
  "client_bind_addr remote_addr = (case remote_addr of
       SocketAddrV4 _ _ \<Rightarrow> SocketAddrV4 (replicate 4 0) 0
     | SocketAddrV6 _ _ _ _ \<Rightarrow> SocketAddrV6 (replicate 16 0) 0 0 0)"

text \<open>An address without an endpoint is skipped, its error kept; a handshake that cannot be started ends the attempt.\<close>

fun start_attempts ::
    "('u, 'ep, 'p, 'c) quic_env \<Rightarrow> tls_client \<Rightarrow> string \<Rightarrow> socket_addr list \<Rightarrow> client_error option
     \<Rightarrow> client_error + ('ep \<times> 'p) list \<times> client_error option" where
  "start_attempts qe tls name [] last_error = Ok ([], last_error)"
| "start_attempts qe tls name (addr # addrs) last_error = (case qe_endpoint qe (client_bind_addr addr) of
       Err e \<Rightarrow> start_attempts qe tls name addrs (Some (Cl_Endpoint e))
     | Ok ep \<Rightarrow> and_then (map_err Cl_Connect (qe_connect qe ep tls addr name)) (\<lambda>p.
         map_sum id (\<lambda>(attempts, last_error). ((ep, p) # attempts, last_error))
           (start_attempts qe tls name addrs last_error)))"

fun is_tls_failure :: "connection_error \<Rightarrow> bool" where
  "is_tls_failure (TransportError code) \<longleftrightarrow> 0x100 \<le> code \<and> code < 0x200"
| "is_tls_failure _ \<longleftrightarrow> False"

fun race_attempts ::
    "client_error option \<Rightarrow> ('ep \<times> (connection_error + 'c)) list \<Rightarrow> client_error + 'ep \<times> 'c" where
  "race_attempts last_error [] = Err (case last_error of
       Some e \<Rightarrow> e
     | None \<Rightarrow> Cl_Resolve (io_error_new AddrNotAvailable ''no usable target address''))"
| "race_attempts last_error ((ep, Ok conn) # rest) = Ok (ep, conn)"
| "race_attempts last_error ((ep, Err e) # rest) =
     (if is_tls_failure e then Err (Cl_Connection e) else race_attempts (Some (Cl_Connection e)) rest)"

definition connect_resolved_target ::
    "('u, 'ep, 'p, 'c) quic_env \<Rightarrow> resolved_target \<Rightarrow> trust_strategy \<Rightarrow> client_error + 'ep \<times> 'c" where
  "connect_resolved_target qe resolved trust =
     and_then (client_quinn_config (qe_tls qe) trust) (\<lambda>quinn_config.
     and_then (start_attempts qe quinn_config (server_name resolved) (remote_addrs resolved) None) (\<lambda>(attempts, last_error).
     race_attempts last_error (qe_complete qe attempts)))"

definition connect_target :: "('u, 'ep, 'p, 'c) quic_env \<Rightarrow> 'u client_config \<Rightarrow> client_error + 'ep \<times> 'c" where
  "connect_target qe config =
     and_then (resolve_target qe (cc_target_url config) (cc_server_name config)) (\<lambda>resolved.
     connect_resolved_target qe resolved (cc_trust config))"

section \<open>The conversation\<close>

text \<open>HTTP/3 on a connection: the exporter, the request and its response; \<open>he_chans\<close> and \<open>he_queues\<close> are the heaps of a new conversation.\<close>

record ('u, 'v, 'r, 'w, 'c) h3_env =
  he_new_client :: "'c \<Rightarrow> string + unit"
  he_export :: "'c \<Rightarrow> string exporter"
  he_send_request :: "'c \<Rightarrow> ('u, 'v) http_request \<Rightarrow> string + u64"
  he_recv_response :: "'c \<Rightarrow> u64 \<Rightarrow> string + 'v http_response"
  he_to_str :: "'v \<Rightarrow> string + string"
  he_chans :: "nat \<Rightarrow> ('r, 'w) channel"
  he_queues :: "nat \<Rightarrow> datagram_queue"

record ('r, 'w, 'ep, 'c) active_client =
  cli_endpoint :: 'ep
  cli_connection :: 'c
  cli_router :: "('r, 'w) channel_router"
  cli_conversation :: nat
  cli_server_header :: "string option"
  cli_max_packet_size :: u64
  cli_datagrams_queue_size :: nat

text \<open>The tasks that route incoming channels and datagrams to the conversation are those of the router and of the HTTP/3 layer.\<close>

definition activate_client ::
    "('v \<Rightarrow> string + string) \<Rightarrow> 'ep \<Rightarrow> 'c \<Rightarrow> ('r, 'w) conversation \<times> u64 \<times> 'v http_response \<Rightarrow> u64 \<Rightarrow> nat
     \<Rightarrow> ('r, 'w, 'ep, 'c) active_client" where
  "activate_client to_str ep conn established max_packet_size queue_size = (case established of (cv, _, response) \<Rightarrow>
     \<lparr>cli_endpoint = ep, cli_connection = conn, cli_router = register_conversation 0 (router_new (\<lambda>_. cv)),
      cli_conversation = 0, cli_server_header = response_server_header to_str response,
      cli_max_packet_size = max_packet_size, cli_datagrams_queue_size = queue_size\<rparr>)"

definition connect_client_with_browser_opener ::
    "('o, 'u, 'v, 'a, 'url) client_env \<Rightarrow> ('u, 'ep, 'p, 'c) quic_env \<Rightarrow> ('u, 'v, 'r, 'w, 'c) h3_env \<Rightarrow> 'u client_config
     \<Rightarrow> (client_error + ('r, 'w, 'ep, 'c) active_client) poll" where
  "connect_client_with_browser_opener ce qe he config =
     poll_and_then (Ready (precomputed_authorization_header (ce_crates ce) config)) (\<lambda>precomputed.
     poll_and_then (Ready (connect_target qe config)) (\<lambda>(ep, conn).
     poll_and_then (Ready (map_err Cl_H3Connection (he_new_client he conn))) (\<lambda>_.
     poll_and_then (Ready (map_err Cl_ConversationId (generate_conversation_id (he_export he conn)))) (\<lambda>cid.
     poll_and_then (client_connect_request ce config precomputed cid) (\<lambda>req.
     poll_and_then (Ready (map_err Cl_ClientConversation (establish_client_conversation (he_export he conn)
       (he_send_request he conn) (he_recv_response he conn) req (cc_max_packet_size config) (cc_datagrams_queue_size config)
       (he_chans he) (he_queues he)))) (\<lambda>established.
     Ready (Ok (activate_client (he_to_str he) ep conn established (cc_max_packet_size config) (cc_datagrams_queue_size config)))))))))"

section \<open>Sessions\<close>

definition open_session_channel ::
    "('r, 'w, 'ep, 'c) active_client \<Rightarrow> connection_error + ('r, 'w) bi_stream \<Rightarrow> (('r, 'w) conversation, client_error, nat) op" where
  "open_session_channel client opened cv = map_option (\<lambda>(res, cv). (map_sum Cl_OpenChannel id res, cv))
     (quinn_open_channel opened (bstr ''session'') (cli_max_packet_size client) (cli_datagrams_queue_size client) cv)"

definition on_session_channel ::
    "('r, 'w, 'ep, 'c) active_client \<Rightarrow> connection_error + ('r, 'w) bi_stream \<Rightarrow> (('r, 'w) channel, client_error, 'x) op
     \<Rightarrow> (('r, 'w) conversation, client_error, 'x) op" where
  "on_session_channel client opened session = pbind (open_session_channel client opened) (\<lambda>ref cv.
     map_option (\<lambda>(res, c). (res, cv\<lparr>chans := (chans cv)(ref := c)\<rparr>)) (session (chans cv ref)))"

definition client_conversation :: "('r, 'w, 'ep, 'c) active_client \<Rightarrow> ('r, 'w) conversation" where
  "client_conversation client = convs (cli_router client) (cli_conversation client)"

text \<open>The shutdown after a session closes the connection and waits for the tasks; its result is not used.\<close>

definition run_exec_capture ::
    "('o, 'u, 'v, 'a, 'url) client_env \<Rightarrow> ('u, 'ep, 'p, 'c) quic_env \<Rightarrow> ('u, 'v, 'r, 'w, 'c) h3_env
     \<Rightarrow> 'r read_exact_fn \<Rightarrow> 'w write_all_fn \<Rightarrow> 'w close_fn \<Rightarrow> (unix_signal \<Rightarrow> bool)
     \<Rightarrow> ('c \<Rightarrow> connection_error + ('r, 'w) bi_stream) \<Rightarrow> 'u client_config \<Rightarrow> string \<Rightarrow> (client_error + captured_session) poll option" where
  "run_exec_capture ce qe he rd wr cl handler_ok open_bi config command =
     (case connect_client_with_browser_opener ce qe he config of
        Pending \<Rightarrow> Some Pending
      | Ready (Err e) \<Rightarrow> Some (Ready (Err e))
      | Ready (Ok client) \<Rightarrow> map_option (\<lambda>(res, _). Ready res)
          (on_session_channel client (open_bi (cli_connection client))
            (run_capture_on_client rd wr cl handler_ok (resolve_agent_socket_path (ce_ssh_auth_sock ce) config)
              (cli_server_header client) (cc_forward_agent config) (SessionExec command)) (client_conversation client)))"

definition run_session_stdio ::
    "('o, 'u, 'v, 'a, 'url) client_env \<Rightarrow> ('u, 'ep, 'p, 'c) quic_env \<Rightarrow> ('u, 'v, 'r, 'w, 'c) h3_env
     \<Rightarrow> 'r read_exact_fn \<Rightarrow> 'w write_all_fn \<Rightarrow> 'w close_fn \<Rightarrow> 's write_all_fn \<Rightarrow> (unix_signal \<Rightarrow> bool) \<Rightarrow> io_error + unit
     \<Rightarrow> client_error + local_terminal_info option \<Rightarrow> (io_error + bytes) list \<Rightarrow> 's \<Rightarrow> 's
     \<Rightarrow> ('c \<Rightarrow> connection_error + ('r, 'w) bi_stream) \<Rightarrow> 'u client_config \<Rightarrow> session_kind
     \<Rightarrow> (client_error + int \<times> 's \<times> 's) poll option" where
  "run_session_stdio ce qe he rd wr cl sw handler_ok raw_mode terminal stdin out err open_bi config kind =
     (case connect_client_with_browser_opener ce qe he config of
        Pending \<Rightarrow> Some Pending
      | Ready (Err e) \<Rightarrow> Some (Ready (Err e))
      | Ready (Ok client) \<Rightarrow> map_option (\<lambda>(res, _). Ready res)
          (on_session_channel client (open_bi (cli_connection client))
            (run_stdio_on_client rd wr cl sw handler_ok raw_mode (resolve_agent_socket_path (ce_ssh_auth_sock ce) config)
              terminal (cc_forward_agent config) kind stdin out err) (client_conversation client)))"

section \<open>Which server is spoken to\<close>

text \<open>What a TLS configuration made for a trust strategy checks.\<close>

fun trusts :: "tls_crates \<Rightarrow> trust_strategy \<Rightarrow> cert_verifier \<Rightarrow> bool" where
  "trusts tls WebPkiRoots v \<longleftrightarrow> v = RootVerifier (TLS_SERVER_ROOTS tls)"
| "trusts tls (Certificates certificates) v \<longleftrightarrow>
     (\<exists>roots. v = RootVerifier roots \<and> roots \<noteq> [] \<and> set roots \<subseteq> set certificates \<and> list_all (\<lambda>c. is_ok (root_add tls c)) roots)"
| "trusts tls Insecure v \<longleftrightarrow> v = SkipServerVerification"

lemma client_quinn_config_Ok:
  assumes "client_quinn_config tls trust = Ok cfg"
  shows "trusts tls trust (tc_verifier cfg) \<and> tc_alpn_protocols cfg = [H3_ALPN]"
proof (cases trust)
  case (Certificates certificates)
  let ?roots = "filter (\<lambda>c. is_ok (root_add tls c)) certificates"
  from assms Certificates have "?roots \<noteq> []" "client_config_with_roots tls ?roots = Ok cfg"
    by (auto simp: client_quinn_config_def Let_def map_err_Ok_iff split: if_splits)
  with client_config_with_roots_Ok [of tls ?roots cfg] show ?thesis
    by (auto simp: Certificates list_all_iff)
qed (use assms in \<open>auto simp: client_quinn_config_def client_config_with_webpki_roots_def map_err_Ok_iff
    dest!: client_config_with_roots_Ok client_config_insecure_Ok\<close>)

lemma start_attempts_Ok:
  "start_attempts qe tls name addrs le = Ok (attempts, le') \<Longrightarrow> (ep, p) \<in> set attempts \<Longrightarrow>
     \<exists>addr \<in> set addrs. qe_endpoint qe (client_bind_addr addr) = Ok ep \<and> qe_connect qe ep tls addr name = Ok p"
  by (induction qe tls name addrs le arbitrary: attempts le' rule: start_attempts.induct)
    (auto simp: result_Ok_iffs map_sum_Ok_iff split: sum.splits, blast+)

lemma race_attempts_Ok:
  "race_attempts le rs = Ok (ep, conn) \<longleftrightarrow> (\<exists>before after. rs = before @ (ep, Ok conn) # after
     \<and> (\<forall>r \<in> set before. \<exists>e. snd r = Err e \<and> \<not> is_tls_failure e))"
proof (induction le rs rule: race_attempts.induct)
  case (2 le ep' conn' rest)
  then show ?case by (auto simp: Cons_eq_append_conv)
next
  case (3 le ep' e rest)
  show ?case
  proof (cases "is_tls_failure e")
    case False
    with 3 show ?thesis
      by (auto simp: Cons_eq_append_conv) (metis append_Cons set_ConsD snd_conv)+
  qed (auto simp: Cons_eq_append_conv)
qed simp

lemma resolve_target_Ok:
  assumes "resolve_target qe uri nm = Ok resolved"
  obtains host where "qe_host qe uri = Some host"
    "qe_lookup_host qe host (case qe_port qe uri of Some p \<Rightarrow> p | None \<Rightarrow> 443) = Ok (remote_addrs resolved)"
    "server_name resolved = (case nm of Some n \<Rightarrow> n | None \<Rightarrow> host)" "remote_addrs resolved \<noteq> []"
  using assms that by (auto simp: resolve_target_def result_Ok_iffs split: if_splits)

text \<open>
  C6: A connection is one to the configured server. When connecting succeeds, the connection is the result of a
  handshake with an address of the URI's host, on an endpoint of the same address family, with the configured
  name or else the host as server name, and with a TLS configuration that speaks \<^verbatim>\<open>h3\<close> only and checks certificates
  as configured: against the built-in roots, against a non-empty set of configured certificates, or, only when this
  has been asked for, not at all. No attempt that ended before it was refused by TLS: such a refusal is final.
  Connection attempts complete with results of started attempts only.
\<close>

theorem server_verified:
  assumes "connect_target qe config = Ok (ep, conn)"
    and "\<forall>attempts r. r \<in> set (qe_complete qe attempts) \<longrightarrow> fst r \<in> fst ` set attempts"
  shows "\<exists>host addrs addr tls p before after attempts. qe_host qe (cc_target_url config) = Some host
    \<and> qe_lookup_host qe host (case qe_port qe (cc_target_url config) of Some p \<Rightarrow> p | None \<Rightarrow> 443) = Ok addrs
    \<and> addr \<in> set addrs \<and> qe_endpoint qe (client_bind_addr addr) = Ok ep
    \<and> qe_connect qe ep tls addr (case cc_server_name config of Some n \<Rightarrow> n | None \<Rightarrow> host) = Ok p
    \<and> trusts (qe_tls qe) (cc_trust config) (tc_verifier tls) \<and> tc_alpn_protocols tls = [bstr ''h3'']
    \<and> (ep, p) \<in> set attempts \<and> qe_complete qe attempts = before @ (ep, Ok conn) # after
    \<and> (\<forall>r \<in> set before. \<exists>e. snd r = Err e \<and> \<not> is_tls_failure e)"
proof -
  from assms(1) obtain resolved tls attempts le
    where res: "resolve_target qe (cc_target_url config) (cc_server_name config) = Ok resolved"
      and tls: "client_quinn_config (qe_tls qe) (cc_trust config) = Ok tls"
      and att: "start_attempts qe tls (server_name resolved) (remote_addrs resolved) None = Ok (attempts, le)"
      and race: "race_attempts le (qe_complete qe attempts) = Ok (ep, conn)"
    by (auto simp: connect_target_def connect_resolved_target_def result_Ok_iffs)
  from race obtain before after where comp: "qe_complete qe attempts = before @ (ep, Ok conn) # after"
    "\<forall>r \<in> set before. \<exists>e. snd r = Err e \<and> \<not> is_tls_failure e"
    by (auto simp: race_attempts_Ok)
  then have "ep \<in> fst ` set attempts"
    using assms(2) [rule_format, of "(ep, Ok conn)" attempts] by simp
  then obtain p where p: "(ep, p) \<in> set attempts" by auto
  from start_attempts_Ok [OF att p] obtain addr where "addr \<in> set (remote_addrs resolved)"
    "qe_endpoint qe (client_bind_addr addr) = Ok ep" "qe_connect qe ep tls addr (server_name resolved) = Ok p"
    by blast
  with p client_quinn_config_Ok [OF tls] comp resolve_target_Ok [OF res] show ?thesis
    by (metis H3_ALPN_def)
qed

section \<open>A connected client\<close>

lemma insert_header_connect:
  assumes "insert_header ce name val req = Ok req'"
  shows "is_ssh3_connect req' \<longleftrightarrow> is_ssh3_connect req"
  using assms by (auto simp: insert_header_def is_ssh3_connect_def request_protocol_def result_Ok_iffs)

lemma connect_request_protocol:
  assumes "client_connect_request ce config precomputed cid = Ready (Ok req)"
    and "\<And>meth u r. ce_build ce meth u = Ok r \<Longrightarrow> req_method r = meth"
  shows "is_ssh3_connect req"
proof -
  from assms(1) obtain r0 r1 val where r: "build_connect_request (ce_build ce) (ce_from_str ce) (cc_target_url config)
      (cc_user_agent config) = Ok r0"
    "(case cc_username config of None \<Rightarrow> Ok r0 | Some u \<Rightarrow> insert_header ce SSH3_USER_HEADER u r0) = Ok r1"
    "(case val of None \<Rightarrow> Ok r1 | Some val \<Rightarrow> insert_header ce AUTHORIZATION val r1) = Ok req"
    by (auto simp: client_connect_request_def poll_and_then_Ok_iff map_err_Ok_iff)
  from r(1) have "is_ssh3_connect r0"
    using assms(2) by (auto simp: build_connect_request_def is_ssh3_connect_def request_protocol_def split: sum.splits)
  then have "is_ssh3_connect r1"
    using r(2) by (auto simp: insert_header_connect split: option.splits)
  then show ?thesis
    using r(3) by (auto simp: insert_header_connect split: option.splits)
qed

lemma connect_client_Ok:
  assumes "connect_client_with_browser_opener ce qe he config = Ready (Ok client)"
  obtains precomputed cid req cv stream resp where
    "precomputed_authorization_header (ce_crates ce) config = Ok precomputed"
    "connect_target qe config = Ok (cli_endpoint client, cli_connection client)"
    "generate_conversation_id (he_export he (cli_connection client)) = Ok cid"
    "client_connect_request ce config precomputed cid = Ready (Ok req)"
    "establish_client_conversation (he_export he (cli_connection client)) (he_send_request he (cli_connection client))
       (he_recv_response he (cli_connection client)) req (cc_max_packet_size config) (cc_datagrams_queue_size config)
       (he_chans he) (he_queues he) = Ok (cv, stream, resp)"
    "client = activate_client (he_to_str he) (cli_endpoint client) (cli_connection client) (cv, stream, resp)
       (cc_max_packet_size config) (cc_datagrams_queue_size config)"
proof -
  from assms obtain precomputed ep conn cid req established where
    "precomputed_authorization_header (ce_crates ce) config = Ok precomputed"
    "connect_target qe config = Ok (ep, conn)" "generate_conversation_id (he_export he conn) = Ok cid"
    "client_connect_request ce config precomputed cid = Ready (Ok req)"
    "establish_client_conversation (he_export he conn) (he_send_request he conn) (he_recv_response he conn) req
       (cc_max_packet_size config) (cc_datagrams_queue_size config) (he_chans he) (he_queues he) = Ok established"
    "client = activate_client (he_to_str he) ep conn established (cc_max_packet_size config) (cc_datagrams_queue_size config)"
    unfolding connect_client_with_browser_opener_def by (auto simp: poll_and_then_Ok_iff map_err_Ok_iff)
  moreover from this(6) have "cli_endpoint client = ep" "cli_connection client = conn"
    by (simp_all add: activate_client_def split: prod.splits)
  ultimately show thesis
    by (cases established) (auto intro: that)
qed

text \<open>
  C15: What holds once the client is connected. At most one kind of credential was configured; the request was a CONNECT
  for SSH3 whose credentials were made for the id exported from this very connection; the server answered it with 200; and
  the only conversation that incoming channels are routed to is the one of the request's stream, with that id
  and the configured limit.
\<close>

theorem connected_client:
  assumes "connect_client_with_browser_opener ce qe he config = Ready (Ok client)"
    and "\<forall>meth u r. ce_build ce meth u = Ok r \<longrightarrow> req_method r = meth \<and> req_headers r = Map.empty"
  shows "\<exists>precomputed cid req stream resp. auth_method_count config \<le> 1
    \<and> precomputed_authorization_header (ce_crates ce) config = Ok precomputed
    \<and> he_export he (cli_connection client) 32 (bstr ''EXPORTER-SSH3'') [] = Ok cid
    \<and> client_connect_request ce config precomputed cid = Ready (Ok req) \<and> is_ssh3_connect req
    \<and> he_send_request he (cli_connection client) req = Ok stream
    \<and> he_recv_response he (cli_connection client) stream = Ok resp \<and> resp_status resp = 200
    \<and> conversations (cli_router client) = [stream \<mapsto> cli_conversation client]
    \<and> control_stream_id (client_conversation client) = stream \<and> conversation_id (client_conversation client) = cid
    \<and> channels (client_conversation client) = Map.empty"
proof -
  obtain precomputed cid req cv stream resp where c:
    "precomputed_authorization_header (ce_crates ce) config = Ok precomputed"
    "generate_conversation_id (he_export he (cli_connection client)) = Ok cid"
    "client_connect_request ce config precomputed cid = Ready (Ok req)"
    "establish_client_conversation (he_export he (cli_connection client)) (he_send_request he (cli_connection client))
       (he_recv_response he (cli_connection client)) req (cc_max_packet_size config) (cc_datagrams_queue_size config)
       (he_chans he) (he_queues he) = Ok (cv, stream, resp)"
    "client = activate_client (he_to_str he) (cli_endpoint client) (cli_connection client) (cv, stream, resp)
       (cc_max_packet_size config) (cc_datagrams_queue_size config)"
    by (rule connect_client_Ok [OF assms(1)]) blast
  have "is_ssh3_connect req"
    by (rule connect_request_protocol [OF c(3)]) (use assms(2) in blast)
  moreover have "auth_method_count config \<le> 1"
    using c(1) by (auto simp: precomputed_authorization_header_def split: if_splits)
  moreover from c(5) have "cli_router client = register_conversation 0 (router_new (\<lambda>_. cv))" "cli_conversation client = 0"
    by (auto simp: activate_client_def dest: arg_cong [of _ _ cli_router] arg_cong [of _ _ cli_conversation])
  moreover from c(2,4) have "cv = conversation_new stream cid (cc_max_packet_size config) (cc_datagrams_queue_size config) (he_chans he) (he_queues he)"
    "he_send_request he (cli_connection client) req = Ok stream" "he_recv_response he (cli_connection client) stream = Ok resp"
    "resp_status resp = 200"
    by (auto simp: establish_client_conversation_def split: sum.splits if_splits)
  ultimately show ?thesis
    using c(1-3)
    by (auto simp: client_conversation_def register_conversation_def router_new_def conversation_new_def
        generate_conversation_id_def SSH3_CONVERSATION_ID_LEN_def SSH3_EXPORTER_LABEL_def)
qed

section \<open>A command from end to end\<close>

lemma set_datagram_queue_fields:
  "recv (set_datagram_queue q c) = recv c" "send (set_datagram_queue q c) = send c" "info (set_datagram_queue q c) = info c"
  "confirm_sent (set_datagram_queue q c) = confirm_sent c"
  by (simp_all add: set_datagram_queue_def)

lemma open_session_channel_Ok:
  assumes "varint_ok (control_stream_id cv)" "varint_ok (cli_max_packet_size client)"
  obtains ref cv' where "open_session_channel client (Ok (i, w, r)) cv = Some (Ok ref, cv')"
    "recv (chans cv' ref) = r" "confirm_sent (chans cv' ref)"
    "info_max_packet_size (info (chans cv' ref)) = cli_max_packet_size client"
proof -
  have "header_ok \<lparr>hdr_conversation_stream_id = control_stream_id cv, hdr_channel_type = bstr ''session'',
      hdr_max_packet_size = cli_max_packet_size client\<rparr>"
    using assms by (simp add: header_ok_def ssh_string_ok_def MAX_SSH_STRING_LEN_def)
  from header_encode_fields [OF this, of None] show thesis
    by (auto simp: open_session_channel_def quinn_open_channel_def open_channel_def channel_new_def queue_alloc_def
        channel_alloc_def add_channel_def add_channel_register_def add_channel_attach_def set_datagram_queue_fields
        split: option.splits intro!: that)
qed

text \<open>The header of a channel that a message is sent on goes out first.\<close>

lemma run_capture_sends_header:
  assumes "reliable_stream wr written"
  obtains w where "map_option fst (run_capture_on_client rd wr cl handler_ok agent_socket hdr False kind c)
    = map_option fst (run_capture_on_client rd wr cl handler_ok agent_socket hdr False kind (c\<lparr>header := None, send := w\<rparr>))"
proof -
  obtain w where w: "maybe_send_header wr c = Some (Ok (), c\<lparr>header := None, send := w\<rparr>)"
    using reliable_stream.maybe_send_header_succeeds [OF assms] by blast
  then have "client_request wr m c = client_request wr m (c\<lparr>header := None, send := w\<rparr>)" for m
    by (simp add: client_request_def send_request_def send_message_def pbind_def maybe_send_header_def)
  then show thesis
    by (intro that [of w]) (cases kind; auto simp: run_capture_on_client_def send_initial_session_requests_def pbind_def pret_def split: sum.splits)
qed

lemma run_exec_capture_session:
  assumes "closing_stream wr written cl" and "connect_client_with_browser_opener ce qe he config = Ready (Ok client)"
    and "varint_ok (control_stream_id (client_conversation client))" "\<not> cc_forward_agent config"
    and "12 \<le> cc_max_packet_size config" "cc_max_packet_size config \<le> MAX_SSH_STRING_LEN"
    and "open_bi (cli_connection client) = Ok (i, w, r)"
  obtains c where "writable c" "confirm_sent c" "recv c = r"
    "\<And>captured c'. run_capture_on_client rd wr cl handler_ok (resolve_agent_socket_path (ce_ssh_auth_sock ce) config)
        (cli_server_header client) False (SessionExec command) c = Some (Ok captured, c') \<Longrightarrow>
      run_exec_capture ce qe he rd wr cl handler_ok open_bi config command = Some (Ready (Ok captured))"
proof -
  let ?run = "run_capture_on_client rd wr cl handler_ok (resolve_agent_socket_path (ce_ssh_auth_sock ce) config)
        (cli_server_header client) False (SessionExec command)"
  note reliable = closing_stream.axioms(1) [OF assms(1)]
  have mps: "cli_max_packet_size client = cc_max_packet_size config"
    by (rule connect_client_Ok [OF assms(2)]) (auto simp: activate_client_def dest: arg_cong [of _ _ cli_max_packet_size])
  with assms(6) have "varint_ok (cli_max_packet_size client)"
    by (auto simp: MAX_SSH_STRING_LEN_def max_varint_defs elim: order_trans)
  from open_session_channel_Ok [OF assms(3) this] obtain ref cv where
    o: "open_session_channel client (Ok (i, w, r)) (client_conversation client) = Some (Ok ref, cv)" "recv (chans cv ref) = r"
      "confirm_sent (chans cv ref)" "info_max_packet_size (info (chans cv ref)) = cli_max_packet_size client"
    by blast
  obtain w' where w': "map_option fst (?run (chans cv ref)) = map_option fst (?run ((chans cv ref)\<lparr>header := None, send := w'\<rparr>))"
    by (rule run_capture_sends_header [OF reliable])
  show thesis
  proof (rule that)
    show "writable ((chans cv ref)\<lparr>header := None, send := w'\<rparr>)"
      using assms(5,6) mps o(4) by (simp add: writable_def)
    show "run_exec_capture ce qe he rd wr cl handler_ok open_bi config command = Some (Ready (Ok captured))"
      if "?run ((chans cv ref)\<lparr>header := None, send := w'\<rparr>) = Some (Ok captured, c')" for captured c'
      using w' assms(2,4,7) o(1) that
      by (auto simp: run_exec_capture_def on_session_channel_def pbind_def)
  qed (use o in simp_all)
qed


section \<open>A client that connects\<close>

text \<open>Two addresses, of which the first does not answer.\<close>

definition demo_tls :: tls_crates where
  "demo_tls = \<lparr>safe_default_protocol_versions = Ok (), root_add = (\<lambda>_. Ok ()), TLS_SERVER_ROOTS = [[1]],
     with_single_cert = (\<lambda>_ _. Ok ()), quic_client_try_from = (\<lambda>_. Ok ()), quic_server_try_from = (\<lambda>_. Ok ()),
     generate_simple_self_signed = (\<lambda>_. Ok ([1], [2])), webpki_verify = (\<lambda>roots cert _. if cert \<in> set roots then Ok () else Err ''unknown issuer''),
     verify_signature = (\<lambda>_ _ _. Ok ())\<rparr>"

definition demo_quic_env :: "(string, socket_addr, socket_addr, unit) quic_env" where
  "demo_quic_env = \<lparr>qe_tls = demo_tls, qe_host = (\<lambda>_. Some ''host''), qe_port = (\<lambda>_. None),
     qe_lookup_host = (\<lambda>_ port. Ok [SocketAddrV6 (replicate 16 1) port 0 0, SocketAddrV4 [192, 0, 2, 1] port]),
     qe_endpoint = Inr, qe_connect = (\<lambda>_ _ addr _. Ok addr),
     qe_complete = map (\<lambda>(ep, addr). (ep, case addr of SocketAddrV4 _ _ \<Rightarrow> Ok () | SocketAddrV6 _ _ _ _ \<Rightarrow> Err TimedOut))\<rparr>"

definition demo_h3_env :: "(string, string, bytes_receive_stream, recording_send_stream, unit) h3_env" where
  "demo_h3_env = \<lparr>he_new_client = (\<lambda>_. Ok ()), he_export = (\<lambda>_ n _ _. Ok (replicate n 1)), he_send_request = (\<lambda>_ _. Ok 0),
     he_recv_response = (\<lambda>_ _. Ok \<lparr>resp_status = 200, resp_headers = Map.empty\<rparr>), he_to_str = Inr,
     he_chans = (\<lambda>_. memory_channel 100 None []), he_queues = (\<lambda>_. dq_new 0)\<rparr>"

lemma demo_connect_target:
  "connect_target demo_quic_env demo_password_config = Ok (SocketAddrV4 (replicate 4 0) 0, ())"
  by (simp add: connect_target_def resolve_target_def connect_resolved_target_def client_quinn_config_def
      client_config_with_webpki_roots_def client_config_with_roots_def Let_def demo_quic_env_def demo_tls_def
      demo_password_config_def client_config_new_def client_bind_addr_def)

lemma demo_complete:
  "\<forall>attempts r. r \<in> set (qe_complete demo_quic_env attempts) \<longrightarrow> fst r \<in> fst ` set attempts"
  by (force simp: demo_quic_env_def)

lemma demo_connect:
  obtains client where "connect_client_with_browser_opener demo_client_env demo_quic_env demo_h3_env demo_password_config = Ready (Ok client)"
    "control_stream_id (client_conversation client) = 0" "cli_server_header client = None"
proof -
  let ?val = "basic_authorization_value demo_crates ''alice'' ''pw''"
  have pre: "precomputed_authorization_header (ce_crates demo_client_env) demo_password_config = Ok (Some ?val)"
    by (simp add: precomputed_authorization_header_def auth_method_count_def demo_password_config_def client_config_new_def
        configured_token_def demo_client_env_def)
  have "\<exists>req. client_connect_request demo_client_env demo_password_config (Some ?val) cid = Ready (Ok req)" for cid
    by (simp add: client_connect_request_def authorization_value_def insert_header_def build_connect_request_def
        demo_client_env_def demo_password_config_def client_config_new_def)
  then obtain req where req: "\<And>cid. client_connect_request demo_client_env demo_password_config (Some ?val) cid = Ready (Ok (req cid))"
    by metis
  show thesis
    by (rule that, simp add: connect_client_with_browser_opener_def pre demo_connect_target req demo_h3_env_def activate_client_def
        generate_conversation_id_def establish_client_conversation_def response_server_header_def client_conversation_def
        register_conversation_def router_new_def conversation_new_def) (simp_all add: client_conversation_def)
qed

theorem server_verified_witness:
  "\<exists>addr tls. qe_connect demo_quic_env (SocketAddrV4 (replicate 4 0) 0) tls addr ''host'' = Ok addr
     \<and> tc_verifier tls = RootVerifier [[1]] \<and> tc_alpn_protocols tls = [bstr ''h3'']"
  using server_verified [OF demo_connect_target demo_complete]
  by (auto simp: demo_quic_env_def demo_tls_def demo_password_config_def client_config_new_def)

theorem connected_client_witness:
  "\<exists>client. connect_client_with_browser_opener demo_client_env demo_quic_env demo_h3_env demo_password_config = Ready (Ok client)
     \<and> conversations (cli_router client) = [0 \<mapsto> cli_conversation client]
     \<and> conversation_id (client_conversation client) = replicate 32 1"
proof -
  obtain client where c: "connect_client_with_browser_opener demo_client_env demo_quic_env demo_h3_env demo_password_config
      = Ready (Ok client)"
    by (rule demo_connect)
  from connected_client [OF c demo_client_env_ok(3)] have "conversations (cli_router client) = [0 \<mapsto> cli_conversation client]
      \<and> conversation_id (client_conversation client) = replicate 32 1"
    by (elim exE conjE) (simp add: demo_h3_env_def)
  with c show ?thesis by blast
qed


end
