(* ===== verification/Udp_Forwarding.thy ===== *)
theory Udp_Forwarding
  imports Forwarding "HOL-Library.Sublist"
begin

text \<open>
  UDP forwarding on the server (\<^verbatim>\<open>handle_udp_forwarding\<close> of \<^verbatim>\<open>ssh3-server/src/lib.rs\<close>): a task that sends the datagrams of
  the channel's queue to a socket, and one that sends what the socket receives as datagrams of the channel.
\<close>

section \<open>The two tasks\<close>

record ('r, 'w, 'd, 'k) udp_relay =
  ur_channel :: "('r, 'w) channel"
  ur_queues :: queue_heap
  ur_datagrams :: 'd
  ur_socket :: 'k
  ur_to :: "(relay_error + unit) option"
  ur_from :: "(relay_error + unit) option"

definition udp_bind_addr :: "socket_addr \<Rightarrow> socket_addr" where
  "udp_bind_addr remote_addr = (case remote_addr of
       SocketAddrV4 _ _ \<Rightarrow> SocketAddrV4 (replicate 4 0) 0
     | SocketAddrV6 _ _ _ _ \<Rightarrow> SocketAddrV6 (replicate 16 0) 0 0 0)"

definition udp_to_socket_iteration ::
    "'k send_datagram_fn \<Rightarrow> ('r, 'w, 'd, 'k) udp_relay \<Rightarrow> ('r, 'w, 'd, 'k) udp_relay" where
  "udp_to_socket_iteration ss s = (case receive_datagram (ur_channel s) (ur_queues s) of
       (Pending, h) \<Rightarrow> s\<lparr>ur_queues := h\<rparr>
     | (Ready datagram, h) \<Rightarrow> (case ss datagram (ur_socket s) of
         (Ok _, k) \<Rightarrow> s\<lparr>ur_queues := h, ur_socket := k\<rparr>
       | (Err e, k) \<Rightarrow> s\<lparr>ur_queues := h, ur_socket := k, ur_to := Some (Err (Relay_Io e))\<rparr>))"

text \<open>\<^verbatim>\<open>recv\<close> puts a datagram into the buffer and drops what does not fit.\<close>

definition udp_from_socket_iteration ::
    "'w write_all_fn \<Rightarrow> 'd send_datagram_fn \<Rightarrow> io_error + bytes
     \<Rightarrow> ('r, 'w, 'd, 'k) udp_relay \<Rightarrow> ('r, 'w, 'd, 'k) udp_relay option" where
  "udp_from_socket_iteration wr sd r s = (case r of
       Err e \<Rightarrow> Some (s\<lparr>ur_from := Some (Err (Relay_Io e))\<rparr>)
     | Ok datagram \<Rightarrow>
         (case channel_send_datagram wr sd (take (copy_buffer_len (ur_channel s)) datagram)
             (ur_channel s, ur_datagrams s) of
             None \<Rightarrow> None
           | Some (Err e, c, d) \<Rightarrow>
               Some (s\<lparr>ur_channel := c, ur_datagrams := d, ur_from := Some (Err (Relay_Channel e))\<rparr>)
           | Some (Ok _, c, d) \<Rightarrow> Some (s\<lparr>ur_channel := c, ur_datagrams := d\<rparr>)))"

text \<open>Meanwhile the connection's datagram loop adds datagrams to the channel's queue: \<open>UdpQueued\<close>.\<close>

datatype udp_relay_event =
    UdpTo
  | UdpFrom "io_error + bytes"
  | UdpQueued bytes
  | UdpClosedTo
  | UdpClosedFrom

fun udp_relay_step ::
    "'w write_all_fn \<Rightarrow> 'd send_datagram_fn \<Rightarrow> 'k send_datagram_fn \<Rightarrow> udp_relay_event
     \<Rightarrow> ('r, 'w, 'd, 'k) udp_relay \<Rightarrow> ('r, 'w, 'd, 'k) udp_relay option" where
  "udp_relay_step wr sd ss UdpTo s = Some (if ur_to s \<noteq> None then s else udp_to_socket_iteration ss s)"
| "udp_relay_step wr sd ss (UdpFrom r) s =
     (if ur_from s \<noteq> None then Some s else udp_from_socket_iteration wr sd r s)"
| "udp_relay_step wr sd ss (UdpQueued datagram) s =
     Some (s\<lparr>ur_queues := snd (channel_add_datagram datagram (ur_channel s) (ur_queues s))\<rparr>)"
| "udp_relay_step wr sd ss UdpClosedTo s = Some (if ur_to s \<noteq> None then s else s\<lparr>ur_to := Some (Ok ())\<rparr>)"
| "udp_relay_step wr sd ss UdpClosedFrom s = Some (if ur_from s \<noteq> None then s else s\<lparr>ur_from := Some (Ok ())\<rparr>)"

fun run_udp_relay ::
    "'w write_all_fn \<Rightarrow> 'd send_datagram_fn \<Rightarrow> 'k send_datagram_fn \<Rightarrow> udp_relay_event list
     \<Rightarrow> ('r, 'w, 'd, 'k) udp_relay \<Rightarrow> ('r, 'w, 'd, 'k) udp_relay option" where
  "run_udp_relay wr sd ss [] s = Some s"
| "run_udp_relay wr sd ss (ev # evs) s = Option.bind (udp_relay_step wr sd ss ev s) (run_udp_relay wr sd ss evs)"

text \<open>The handler, over what binding a socket to an address and connecting it answer.\<close>

definition handle_udp_forwarding ::
    "'w write_all_fn \<Rightarrow> 'd send_datagram_fn \<Rightarrow> 'k send_datagram_fn
     \<Rightarrow> (socket_addr \<Rightarrow> io_error + 'k) \<Rightarrow> (socket_addr \<Rightarrow> 'k \<Rightarrow> io_error + 'k) \<Rightarrow> socket_addr
     \<Rightarrow> udp_relay_event list \<Rightarrow> ('r, 'w) channel \<Rightarrow> queue_heap \<Rightarrow> 'd
     \<Rightarrow> ((server_error + unit) poll \<times> ('r, 'w, 'd, 'k) udp_relay option) option" where
  "handle_udp_forwarding wr sd ss bind_udp connect_udp remote_addr evs c h d =
     (case and_then (bind_udp (udp_bind_addr remote_addr)) (connect_udp remote_addr) of
        Err e \<Rightarrow> Some (Ready (Err (Srv_Io e)), None)
      | Ok k \<Rightarrow> map_option (\<lambda>s. (if ur_to s \<noteq> None \<and> ur_from s \<noteq> None then Ready (Ok ()) else Pending, Some s))
          (run_udp_relay wr sd ss evs \<lparr>ur_channel = c, ur_queues = h, ur_datagrams = d, ur_socket = k,
             ur_to = None, ur_from = None\<rparr>))"

section \<open>What is forwarded\<close>

text \<open>A place that datagrams are sent to, seen through what it was given.\<close>

locale datagram_sink =
  fixes sd :: "'d send_datagram_fn"
    and log :: "'d \<Rightarrow> bytes list"
  assumes send_ok: "sd datagram d = (Ok (), d') \<Longrightarrow> log d' = log d @ [datagram]"

interpretation rds: datagram_sink rds_send_datagram "\<lambda>d. d"
  by unfold_locales (simp add: rds_send_datagram_def)

fun udp_reads :: "udp_relay_event list \<Rightarrow> bytes list" where
  "udp_reads [] = []"
| "udp_reads (UdpFrom (Ok datagram) # evs) = datagram # udp_reads evs"
| "udp_reads (_ # evs) = udp_reads evs"

fun udp_queued :: "udp_relay_event list \<Rightarrow> bytes list" where
  "udp_queued [] = []"
| "udp_queued (UdpQueued datagram # evs) = datagram # udp_queued evs"
| "udp_queued (_ # evs) = udp_queued evs"

definition udp_backlog :: "('r, 'w, 'd, 'k) udp_relay \<Rightarrow> bytes list" where
  "udp_backlog s = dq_queue (qh_queues (ur_queues s) (datagrams_queue (ur_channel s)))"

definition datagram_prefix :: "conversation_datagram_sender \<Rightarrow> bytes" where
  "datagram_prefix ds = var_int_bytes (cds_control_stream_id ds) @ var_int_bytes (cds_channel_id ds)"

lemma udp_done_stays:
  assumes "run_udp_relay wr sd ss evs s = Some s'"
  shows "ur_to s' = None \<Longrightarrow> ur_to s = None" "ur_from s' = None \<Longrightarrow> ur_from s = None"
proof -
  have step: "(ur_to t' = None \<longrightarrow> ur_to t = None) \<and> (ur_from t' = None \<longrightarrow> ur_from t = None)"
    if "udp_relay_step wr sd ss ev t = Some t'" for ev t t'
    using that
    by (cases ev) (auto simp: udp_to_socket_iteration_def udp_from_socket_iteration_def
        split: if_splits option.splits prod.splits poll.splits sum.splits)
  have "(ur_to s' = None \<longrightarrow> ur_to s = None) \<and> (ur_from s' = None \<longrightarrow> ur_from s = None)"
    using assms
  proof (induction evs arbitrary: s)
    case (Cons ev evs)
    then obtain s1 where "udp_relay_step wr sd ss ev s = Some s1" "run_udp_relay wr sd ss evs s1 = Some s'"
      by (auto split: bind_splits)
    with Cons.IH step show ?case
      by blast
  qed simp
  then show "ur_to s' = None \<Longrightarrow> ur_to s = None" "ur_from s' = None \<Longrightarrow> ur_from s = None"
    by blast+
qed

lemma cds_send_sink:
  assumes "datagram_sink sd sent" "cds_send sd ds body d = Some (Ok (), d')"
  shows "sent d' = sent d @ [datagram_prefix ds @ body]"
proof -
  obtain b1 b2 where b: "append_var_int [] (cds_control_stream_id ds) = Some b1"
    "append_var_int b1 (cds_channel_id ds) = Some b2" "sd (b2 @ body) d = (Ok (), d')"
    using assms(2) by (auto simp: cds_send_def pbind_def pvalue_def split: option.splits bind_splits)
  then have ok: "varint_ok (cds_control_stream_id ds)" "varint_ok (cds_channel_id ds)"
    using append_var_int_None_iff [of "[]" "cds_control_stream_id ds"]
      append_var_int_None_iff [of b1 "cds_channel_id ds"] by (simp_all add: not_less)
  have "b2 = datagram_prefix ds"
    using b append_var_int_eq [OF ok(1), of "[]"] append_var_int_eq [OF ok(2), of b1] by (simp add: datagram_prefix_def)
  with datagram_sink.send_ok [OF assms(1) b(3)] show ?thesis
    by simp
qed

text \<open>What one event does while both tasks run.\<close>

definition udp_effect ::
    "('d \<Rightarrow> bytes list) \<Rightarrow> ('k \<Rightarrow> bytes list) \<Rightarrow> conversation_datagram_sender \<Rightarrow> udp_relay_event list
     \<Rightarrow> ('r, 'w, 'd, 'k) udp_relay \<Rightarrow> ('r, 'w, 'd, 'k) udp_relay \<Rightarrow> bool" where
  "udp_effect sent received ds evs s s' \<longleftrightarrow>
     ur_channel s' = ur_channel s
   \<and> sent (ur_datagrams s') = sent (ur_datagrams s)
       @ map (\<lambda>d. datagram_prefix ds @ take (copy_buffer_len (ur_channel s)) d) (udp_reads evs)
   \<and> (\<exists>accepted. subseq accepted (udp_queued evs)
       \<and> received (ur_socket s') @ udp_backlog s' = received (ur_socket s) @ udp_backlog s @ accepted)"

lemma udp_from_effect:
  assumes sink: "datagram_sink sd sent" and chan: "header (ur_channel s) = None" "datagram_sender (ur_channel s) = Some ds"
    and step: "udp_from_socket_iteration wr sd (Ok datagram) s = Some s'" and run: "ur_from s' = None"
  shows "udp_effect sent received ds [UdpFrom (Ok datagram)] s s'"
proof -
  let ?d = "take (copy_buffer_len (ur_channel s)) datagram"
  have "channel_send_datagram wr sd ?d (ur_channel s, ur_datagrams s) = (case cds_send sd ds ?d (ur_datagrams s) of
      None \<Rightarrow> None | Some (res, d) \<Rightarrow> Some (map_sum Ch_Io id res, (ur_channel s, d)))"
    using chan by (simp add: channel_send_datagram_def maybe_send_header_def pbind_def)
  with step run obtain d where d: "cds_send sd ds ?d (ur_datagrams s) = Some (Ok (), d)"
    and s': "s' = s\<lparr>ur_channel := ur_channel s, ur_datagrams := d\<rparr>"
    by (auto simp: udp_from_socket_iteration_def map_sum_def split: option.splits sum.splits)
  show ?thesis
    using cds_send_sink [OF sink d] by (simp add: udp_effect_def s' udp_backlog_def)
qed

lemma udp_to_effect:
  assumes sink: "datagram_sink ss received" and run: "ur_to (udp_to_socket_iteration ss s) = None"
  shows "udp_effect sent received ds [UdpTo] s (udp_to_socket_iteration ss s)"
proof (cases "udp_backlog s")
  case Nil
  then show ?thesis
    by (simp add: udp_effect_def udp_to_socket_iteration_def receive_datagram_def queue_update_def udp_backlog_def
        dq_wait_next_def dq_next_def)
next
  case (Cons x rest)
  let ?q = "datagrams_queue (ur_channel s)"
  obtain h where h: "receive_datagram (ur_channel s) (ur_queues s) = (Ready x, h)" "dq_queue (qh_queues h ?q) = rest"
    using Cons by (simp add: receive_datagram_def queue_update_def udp_backlog_def dq_wait_next_def dq_next_def)
  obtain k where k: "ss x (ur_socket s) = (Ok (), k)"
    using run h(1) by (cases "ss x (ur_socket s)"; cases "fst (ss x (ur_socket s))") (auto simp: udp_to_socket_iteration_def)
  with h Cons datagram_sink.send_ok [OF sink k] show ?thesis
    by (simp add: udp_effect_def udp_to_socket_iteration_def udp_backlog_def)
qed

lemma udp_queued_effect:
  assumes "udp_relay_step wr sd ss (UdpQueued datagram) s = Some s'"
  shows "udp_effect sent received ds [UdpQueued datagram] s s'"
proof -
  have "udp_backlog s' = udp_backlog s \<or> udp_backlog s' = udp_backlog s @ [datagram]"
    "ur_channel s' = ur_channel s" "ur_datagrams s' = ur_datagrams s" "ur_socket s' = ur_socket s"
    using assms by (auto simp: channel_add_datagram_def queue_update_def dq_add_def udp_backlog_def split: if_splits)
  then show ?thesis
    unfolding udp_effect_def
    by (auto intro: exI [of _ "[]"] exI [of _ "[datagram]"])
qed

lemma udp_reads_Cons:
  "udp_reads (ev # evs) = udp_reads [ev] @ udp_reads evs" "udp_queued (ev # evs) = udp_queued [ev] @ udp_queued evs"
proof -
  show "udp_reads (ev # evs) = udp_reads [ev] @ udp_reads evs"
  proof (cases ev)
    case (UdpFrom r)
    then show ?thesis
      by (cases r) simp_all
  qed simp_all
  show "udp_queued (ev # evs) = udp_queued [ev] @ udp_queued evs"
    by (cases ev) simp_all
qed

lemma udp_effect_trans:
  assumes "udp_effect sent received ds [ev] s s1" "udp_effect sent received ds evs s1 s2"
  shows "udp_effect sent received ds (ev # evs) s s2"
proof -
  obtain a b where ab: "subseq a (udp_queued [ev])" "subseq b (udp_queued evs)"
    and ra: "received (ur_socket s1) @ udp_backlog s1 = received (ur_socket s) @ udp_backlog s @ a"
    and rb: "received (ur_socket s2) @ udp_backlog s2 = received (ur_socket s1) @ udp_backlog s1 @ b"
    using assms unfolding udp_effect_def by blast
  have "received (ur_socket s2) @ udp_backlog s2 = (received (ur_socket s) @ udp_backlog s @ a) @ b"
    unfolding rb ra [symmetric] by (rule append_assoc [symmetric])
  then have "received (ur_socket s2) @ udp_backlog s2 = received (ur_socket s) @ udp_backlog s @ (a @ b)"
    by (simp only: append_assoc)
  moreover have "subseq (a @ b) (udp_queued [ev] @ udp_queued evs)"
    by (rule list_emb_append_mono [OF ab])
  moreover have "ur_channel s2 = ur_channel s" "sent (ur_datagrams s2) = sent (ur_datagrams s)
      @ map (\<lambda>d. datagram_prefix ds @ take (copy_buffer_len (ur_channel s)) d) (udp_reads [ev] @ udp_reads evs)"
    using assms unfolding udp_effect_def by (simp_all only: map_append append_assoc)
  ultimately show ?thesis
    unfolding udp_effect_def udp_reads_Cons [of ev evs] by blast
qed

lemma run_udp_relay_effect:
  assumes sinks: "datagram_sink sd sent" "datagram_sink ss received"
    and "header (ur_channel s) = None" "datagram_sender (ur_channel s) = Some ds"
    and "run_udp_relay wr sd ss evs s = Some s'" "ur_to s' = None" "ur_from s' = None"
  shows "udp_effect sent received ds evs s s'"
  using assms(3-7)
proof (induction evs arbitrary: s)
  case Nil
  then show ?case
    by (simp add: udp_effect_def)
next
  case (Cons ev evs)
  then obtain s1 where step: "udp_relay_step wr sd ss ev s = Some s1" and rest: "run_udp_relay wr sd ss evs s1 = Some s'"
    by (auto split: bind_splits)
  have run: "ur_to s1 = None" "ur_from s1 = None"
    using udp_done_stays [OF rest] Cons.prems by simp_all
  moreover have "ur_to s = None" "ur_from s = None"
    using udp_done_stays [OF Cons.prems(3)] Cons.prems by simp_all
  ultimately have effect: "udp_effect sent received ds [ev] s s1"
  proof (cases ev)
    case (UdpFrom r)
    with step run(2) \<open>ur_from s = None\<close> show ?thesis
      using udp_from_effect [OF sinks(1) Cons.prems(1,2)] by (cases r) (auto simp: udp_from_socket_iteration_def)
  next
    case (UdpQueued d)
    with step show ?thesis
      using udp_queued_effect by blast
  qed (use step run udp_to_effect [OF sinks(2)] in auto)
  then have "ur_channel s1 = ur_channel s"
    by (simp add: udp_effect_def)
  with Cons.IH [OF _ _ rest] Cons.prems have "udp_effect sent received ds evs s1 s'"
    by simp
  with effect show ?case
    by (rule udp_effect_trans)
qed

section \<open>Properties of UDP forwarding\<close>

text \<open>
  C18: Forwarded datagrams keep their boundaries and their order, in both directions and however the two
  tasks and the connection interleave. While both tasks run, every datagram received from the socket
  has been sent as one datagram of the channel, cut to the channel's buffer; and the datagrams given
  to the socket followed by those still queued are the initial backlog followed by a subsequence of the
  datagrams that arrived on the channel: none is invented, duplicated or reordered.
\<close>

theorem udp_forwarding_datagrams:
  assumes "datagram_sink sd sent" "datagram_sink ss received"
    and "header c = None" "datagram_sender c = Some ds"
    and "bind_udp (udp_bind_addr remote_addr) = Ok k0" "connect_udp remote_addr k0 = Ok k"
    and "handle_udp_forwarding wr sd ss bind_udp connect_udp remote_addr evs c h d = Some (r, Some s)"
    and "ur_to s = None" "ur_from s = None"
  shows "r = Pending
   \<and> sent (ur_datagrams s) = sent d @ map (\<lambda>x. datagram_prefix ds @ take (copy_buffer_len c) x) (udp_reads evs)
   \<and> (\<exists>accepted. subseq accepted (udp_queued evs)
       \<and> received (ur_socket s) @ udp_backlog s = received k @ dq_queue (qh_queues h (datagrams_queue c)) @ accepted)"
proof -
  let ?s0 = "\<lparr>ur_channel = c, ur_queues = h, ur_datagrams = d, ur_socket = k, ur_to = None, ur_from = None\<rparr>"
  have run: "run_udp_relay wr sd ss evs ?s0 = Some s" and r: "r = Pending"
    using assms(5-9) by (auto simp: handle_udp_forwarding_def)
  have "udp_effect sent received ds evs ?s0 s"
    by (rule run_udp_relay_effect [OF assms(1,2) _ _ run assms(8,9)]) (simp_all add: assms(3,4))
  with r show ?thesis
    unfolding udp_effect_def by (auto simp: udp_backlog_def)
qed

definition demo_udp_channel :: "(bytes_receive_stream, recording_send_stream) channel" where
  "demo_udp_channel = (memory_channel 3 None [])\<lparr>datagram_sender := Some \<lparr>cds_control_stream_id = 0, cds_channel_id = 4\<rparr>\<rparr>"

definition demo_udp_heap :: queue_heap where
  "demo_udp_heap = \<lparr>qh_next = 1, qh_queues = (\<lambda>_. dq_new 1)\<rparr>"

definition demo_udp_events :: "udp_relay_event list" where
  "demo_udp_events = [UdpQueued [1], UdpQueued [2], UdpFrom (Ok [7, 8, 9, 10]), UdpTo]"

text \<open>A queue of one datagram: the second one is dropped; a buffer of three bytes: the datagram is cut.\<close>

lemma demo_udp_run:
  "map_option (\<lambda>(r, s). (r, map_option (\<lambda>s. (ur_datagrams s, ur_socket s, ur_to s = None, ur_from s = None)) s))
     (handle_udp_forwarding rss_write_all rds_send_datagram rds_send_datagram (\<lambda>_. Ok []) (\<lambda>_. Ok)
        (SocketAddrV4 [10, 0, 0, 1] 53) demo_udp_events demo_udp_channel demo_udp_heap [])
   = Some (Pending, Some ([[0, 4, 7, 8, 9]], [[1]], True, True))"
  by code_simp

theorem udp_forwarding_datagrams_witness:
  "\<exists>s accepted. handle_udp_forwarding rss_write_all rds_send_datagram rds_send_datagram (\<lambda>_. Ok []) (\<lambda>_. Ok)
        (SocketAddrV4 [10, 0, 0, 1] 53) demo_udp_events demo_udp_channel demo_udp_heap [] = Some (Pending, Some s)
     \<and> ur_datagrams s = [[0, 4, 7, 8, 9]] \<and> subseq accepted [[1], [2]] \<and> ur_socket s @ udp_backlog s = accepted"
proof -
  obtain s where s: "handle_udp_forwarding rss_write_all rds_send_datagram rds_send_datagram (\<lambda>_. Ok []) (\<lambda>_. Ok)
        (SocketAddrV4 [10, 0, 0, 1] 53) demo_udp_events demo_udp_channel demo_udp_heap [] = Some (Pending, Some s)"
    "ur_datagrams s = [[0, 4, 7, 8, 9]]" "ur_to s = None" "ur_from s = None"
    using demo_udp_run by auto
  have "header demo_udp_channel = None"
    "datagram_sender demo_udp_channel = Some \<lparr>cds_control_stream_id = 0, cds_channel_id = 4\<rparr>"
    by (simp_all add: demo_udp_channel_def memory_channel_def)
  from udp_forwarding_datagrams [OF rds.datagram_sink_axioms rds.datagram_sink_axioms this refl refl s(1,3,4)] s(1,2)
  show ?thesis
    by (simp add: demo_udp_events_def demo_udp_heap_def dq_new_def)
qed

end
