(* ===== verification/Server_Endpoint.thy ===== *)
theory Server_Endpoint
  imports Udp_Forwarding Tls_Config
begin

text \<open>
  A running server (\<^verbatim>\<open>crates/ssh3-server/src/lib.rs\<close> and \<^verbatim>\<open>main.rs\<close>): its defaults and command line, the endpoint
  with its connections, the routing of datagrams and the dispatch of accepted channels to their handlers.
\<close>

section \<open>Configuration\<close>

text \<open>\<open>from_uid\<close> is the entry of the current user in the password database, \<open>env_shell\<close> the variable \<^verbatim>\<open>SHELL\<close>.\<close>

definition current_username :: "io_error + passwd option \<Rightarrow> string option" where
  "current_username from_uid = (case from_uid of Ok (Some user) \<Rightarrow> Some (pw_name user) | _ \<Rightarrow> None)"

definition server_config_default :: "io_error + passwd option \<Rightarrow> string option \<Rightarrow> server_config" where
  "server_config_default from_uid env_shell =
     \<lparr>bind_addr = SocketAddrV4 [127, 0, 0, 1] 4433, cert_subject_alt_names = [''localhost''],
      server_header = SSH3_VERSION_STRING, cfg_max_packet_size = 30000, cfg_datagrams_queue_size = 10,
      require_authentication = False, allow_insecure_unauthenticated_remote = False, enable_password_login = False,
      authorized_identity_paths = [], default_user = current_username from_uid,
      cfg_shell = (case env_shell of Some sh \<Rightarrow> if sh \<noteq> [] then Some sh else None | None \<Rightarrow> None),
      password_verifier = None\<rparr>"

record server_cli =
  scli_bind :: "socket_addr option"
  scli_hostname :: "string list"
  scli_server_header :: "string option"
  scli_require_auth :: bool
  scli_allow_insecure_unauthenticated_remote :: bool
  scli_enable_password_login :: bool
  scli_authorized_identity :: "string list"
  scli_user :: "string option"
  scli_shell :: "string option"

definition config_from_cli :: "server_config \<Rightarrow> server_cli \<Rightarrow> server_config" where
  "config_from_cli defaults cli =
     (let config = defaults;
          config = (case scli_bind cli of Some addr \<Rightarrow> config\<lparr>bind_addr := addr\<rparr> | None \<Rightarrow> config);
          config = (if scli_hostname cli \<noteq> [] then config\<lparr>cert_subject_alt_names := scli_hostname cli\<rparr> else config);
          config = (case scli_server_header cli of Some h \<Rightarrow> config\<lparr>server_header := h\<rparr> | None \<Rightarrow> config);
          config = config\<lparr>require_authentication := scli_require_auth cli,
            allow_insecure_unauthenticated_remote := scli_allow_insecure_unauthenticated_remote cli,
            enable_password_login := scli_enable_password_login cli\<rparr>;
          config = (if scli_authorized_identity cli \<noteq> []
            then config\<lparr>authorized_identity_paths := scli_authorized_identity cli\<rparr> else config);
          config = (case scli_user cli of Some user \<Rightarrow> config\<lparr>default_user := Some user\<rparr> | None \<Rightarrow> config)
      in case scli_shell cli of Some shell \<Rightarrow> config\<lparr>cfg_shell := Some shell\<rparr> | None \<Rightarrow> config)"

section \<open>The endpoint\<close>

text \<open>A connection that comes in: its addresses, what the HTTP/3 layer accepts on it, the events of its conversation and its streams.\<close>

record ('u, 'v, 'c, 'r, 'w) incoming_connection =
  inc_local_ip :: "ip_addr option"
  inc_remote_addr :: socket_addr
  inc_accepted :: "string + (('r, 'w) conversation \<times> ('u, 'v) http_request) option"
  inc_events :: "conversation_event list"
  inc_state :: "'c \<times> ('r, 'w) channel_router"

text \<open>What an endpoint does: warn, report an error of a connection, and serve or close connections.\<close>

datatype endpoint_event =
    WarnUnauthenticated socket_addr
  | ConnectionError server_error
  | AcceptError connection_error
  | ConnectionRefused socket_addr
  | ChannelServed socket_addr accepted_channel session_user

definition serve_incoming ::
    "('o, 'u, 'v) server_env \<Rightarrow> ('v, 'c) control_stream_ops \<Rightarrow> server_config
     \<Rightarrow> connection_error + ('u, 'v, 'c, 'r, 'w) incoming_connection \<Rightarrow> endpoint_event list" where
  "serve_incoming srv ops config incoming = (case incoming of
       Ok conn \<Rightarrow> (case serve_connection srv ops config (inc_local_ip conn) (inc_remote_addr conn) (inc_accepted conn)
           (inc_events conn) (inc_state conn) of (res, closed, handlers) \<Rightarrow>
         (if closed then [ConnectionRefused (inc_remote_addr conn)] else [])
         @ map (\<lambda>(ch, user). ChannelServed (inc_remote_addr conn) ch user) handlers
         @ (case res of Ok _ \<Rightarrow> [] | Err e \<Rightarrow> if is_benign_server_error e then [] else [ConnectionError e]))
     | Err e \<Rightarrow> if is_benign_connection_error e then [] else [AcceptError e])"

text \<open>The connections are served concurrently, each by a task of its own; the loop ends when the endpoint is closed.\<close>

definition serve_endpoint ::
    "('o, 'u, 'v) server_env \<Rightarrow> ('v, 'c) control_stream_ops \<Rightarrow> server_config \<Rightarrow> io_error + socket_addr
     \<Rightarrow> (connection_error + ('u, 'v, 'c, 'r, 'w) incoming_connection) list \<Rightarrow> server_error + endpoint_event list" where
  "serve_endpoint srv ops config local_addr incomings =
     and_then (validate_server_config (srv_show_addr srv) config) (\<lambda>_.
     and_then (map_err Srv_Io local_addr) (\<lambda>listen_addr.
     and_then (validate_listener_addr (srv_show_addr srv) config listen_addr) (\<lambda>_.
     Ok ((if \<not> is_loopback_ip (socket_ip listen_addr) \<and> \<not> should_authenticate config
          then [WarnUnauthenticated listen_addr] else [])
       @ concat (map (serve_incoming srv ops config) incomings)))))"

text \<open>\<open>endpoint_server\<close> opens an endpoint with a TLS configuration on an address and gives its local address.\<close>

definition run_with_self_signed ::
    "('o, 'u, 'v) server_env \<Rightarrow> tls_crates \<Rightarrow> (tls_server \<Rightarrow> socket_addr \<Rightarrow> io_error + (io_error + socket_addr))
     \<Rightarrow> ('v, 'c) control_stream_ops \<Rightarrow> server_config
     \<Rightarrow> (connection_error + ('u, 'v, 'c, 'r, 'w) incoming_connection) list \<Rightarrow> server_error + endpoint_event list" where
  "run_with_self_signed srv tls endpoint_server ops config incomings =
     and_then (validate_server_config (srv_show_addr srv) config) (\<lambda>_.
     and_then (map_err Srv_Config (self_signed_server_config tls (cert_subject_alt_names config))) (\<lambda>(tls_config, _).
     and_then (map_err Srv_Io (endpoint_server tls_config (bind_addr config))) (\<lambda>local_addr.
     serve_endpoint srv ops config local_addr incomings)))"

text \<open>The program: \<^verbatim>\<open>clap\<close> parses the arguments, or prints help, the version or an error.\<close>

datatype clap_error_kind = DisplayHelp | DisplayVersion | ClapIo | ValueValidation | OtherClapError

definition clap_exit_success :: "clap_error_kind \<Rightarrow> bool" where
  "clap_exit_success kind \<longleftrightarrow> kind = DisplayHelp \<or> kind = DisplayVersion"

definition server_main ::
    "('o, 'u, 'v) server_env \<Rightarrow> tls_crates \<Rightarrow> (tls_server \<Rightarrow> socket_addr \<Rightarrow> io_error + (io_error + socket_addr))
     \<Rightarrow> ('v, 'c) control_stream_ops \<Rightarrow> server_config \<Rightarrow> clap_error_kind + server_cli
     \<Rightarrow> (connection_error + ('u, 'v, 'c, 'r, 'w) incoming_connection) list \<Rightarrow> u8 \<times> endpoint_event list" where
  "server_main srv tls endpoint_server ops defaults parsed incomings = (case parsed of
       Err kind \<Rightarrow> (if clap_exit_success kind then 0 else 1, [])
     | Ok cli \<Rightarrow> (case run_with_self_signed srv tls endpoint_server ops (config_from_cli defaults cli) incomings of
         Ok events \<Rightarrow> (0, events)
       | Err _ \<Rightarrow> (1, [])))"

section \<open>Datagrams and channels of a conversation\<close>

fun route_datagrams ::
    "(connection_error + bytes) list \<Rightarrow> ('r, 'w) channel_router
     \<Rightarrow> ((datagram_dispatch_error + unit) poll \<times> ('r, 'w) channel_router) option" where
  "route_datagrams [] rt = Some (Pending, rt)"
| "route_datagrams (Err e # rest) rt = Some (Ready (Err (Dispatch_Connection e)), rt)"
| "route_datagrams (Ok datagram # rest) rt = (case route_registered_datagram datagram rt of
       None \<Rightarrow> None
     | Some (Ready (Ok _), rt) \<Rightarrow> route_datagrams rest rt
     | Some (Ready (Err e), rt) \<Rightarrow> Some (Ready (Err e), rt)
     | Some (Pending, rt) \<Rightarrow> Some (Pending, rt))"

text \<open>What the handlers of channels use: processes, streams, sockets, and the order in which their tasks run.\<close>

record ('r, 'w, 'd, 'k) handler_env =
  hn_os :: os
  hn_read :: "'r read_exact_fn"
  hn_write :: "'w write_all_fn"
  hn_close :: "'w close_fn"
  hn_send_datagram :: "'d send_datagram_fn"
  hn_socket_write :: "'k write_all_fn"
  hn_socket_send :: "'k send_datagram_fn"
  hn_tcp_connect :: "socket_addr \<Rightarrow> io_error + 'k"
  hn_udp_bind :: "socket_addr \<Rightarrow> io_error + 'k"
  hn_udp_connect :: "socket_addr \<Rightarrow> 'k \<Rightarrow> io_error + 'k"
  hn_tcp_events :: "relay_event list"
  hn_udp_events :: "udp_relay_event list"

definition handle_accepted_channel ::
    "('r, 'w, 'd, 'k) handler_env \<Rightarrow> server_config \<Rightarrow> session_user \<Rightarrow> ('r, 'w) conversation \<Rightarrow> 'd
     \<Rightarrow> accepted_channel \<Rightarrow> ((server_error + unit) poll \<times> ('r, 'w) channel) option" where
  "handle_accepted_channel hn config user cv d accepted = (case accepted of
       Accepted ref \<Rightarrow> map_option (\<lambda>(res, s). (Ready res, ss_channel s))
         (handle_plain_channel (hn_os hn) (hn_read hn) (hn_write hn) (hn_close hn) config user (session_start (chans cv ref)))
     | UdpForwarding ref addr \<Rightarrow> map_option
         (\<lambda>(res, s). (res, case s of Some s \<Rightarrow> ur_channel s | None \<Rightarrow> chans cv ref))
         (handle_udp_forwarding (hn_write hn) (hn_send_datagram hn) (hn_socket_send hn) (hn_udp_bind hn) (hn_udp_connect hn)
           addr (hn_udp_events hn) (chans cv ref) (queues cv) d)
     | TcpForwarding ref addr \<Rightarrow>
         handle_tcp_forwarding (hn_read hn) (hn_write hn) (hn_socket_write hn) (hn_tcp_connect hn addr) (hn_tcp_events hn)
           (chans cv ref))"

section \<open>Who is served\<close>

lemma serve_incoming_served:
  assumes "ChannelServed peer ch user \<in> set (serve_incoming srv ops config incoming)"
  obtains conn res closed handlers where "incoming = Ok conn" "peer = inc_remote_addr conn" "(ch, user) \<in> set handlers"
    "serve_connection srv ops config (inc_local_ip conn) peer (inc_accepted conn) (inc_events conn) (inc_state conn)
       = (res, closed, handlers)"
proof (cases incoming)
  case (Inr conn)
  obtain res closed handlers where run: "serve_connection srv ops config (inc_local_ip conn) (inc_remote_addr conn)
      (inc_accepted conn) (inc_events conn) (inc_state conn) = (res, closed, handlers)"
    by (metis prod_cases3)
  with assms Inr have "peer = inc_remote_addr conn" "(ch, user) \<in> set handlers"
    by (auto simp: serve_incoming_def split: if_splits sum.splits)
  with Inr run that show thesis by blast
qed (use assms in \<open>auto simp: serve_incoming_def split: if_splits\<close>)

lemma served_connection_accepted:
  assumes "serve_connection srv ops config local_ip peer accepted evs s = (res, closed, handlers)" "handlers \<noteq> []"
  obtains cv req where "accepted = Ok (Some (cv, req))"
  using assms by (auto simp: serve_connection_def split: sum.splits option.splits)

lemma config_from_cli_fields:
  "allow_insecure_unauthenticated_remote (config_from_cli defaults cli) = scli_allow_insecure_unauthenticated_remote cli"
  "enable_password_login (config_from_cli defaults cli) = scli_enable_password_login cli"
  "require_authentication (config_from_cli defaults cli) = scli_require_auth cli"
  "bind_addr (config_from_cli defaults cli) = (case scli_bind cli of Some addr \<Rightarrow> addr | None \<Rightarrow> bind_addr defaults)"
  "authorized_identity_paths (config_from_cli defaults cli)
     = (if scli_authorized_identity cli \<noteq> [] then scli_authorized_identity cli else authorized_identity_paths defaults)"
  "password_verifier (config_from_cli defaults cli) = password_verifier defaults"
  by (simp_all add: config_from_cli_def Let_def split: option.split)

text \<open>The command line asks for authentication.\<close>

definition cli_authenticates :: "server_cli \<Rightarrow> bool" where
  "cli_authenticates cli \<longleftrightarrow> scli_require_auth cli \<or> scli_enable_password_login cli \<or> scli_authorized_identity cli \<noteq> []"

lemma should_authenticate_cli:
  "should_authenticate (config_from_cli (server_config_default from_uid env_shell) cli) \<longleftrightarrow> cli_authenticates cli"
  by (auto simp: should_authenticate_def cli_authenticates_def config_from_cli_fields server_config_default_def)

lemma run_with_self_signed_Ok:
  assumes "run_with_self_signed srv tls endpoint_server ops config incomings = Ok events"
  obtains tls_config cert local_addr where "self_signed_server_config tls (cert_subject_alt_names config) = Ok (tls_config, cert)"
    "endpoint_server tls_config (bind_addr config) = Ok local_addr"
    "serve_endpoint srv ops config local_addr incomings = Ok events"
  using assms by (auto simp: run_with_self_signed_def result_Ok_iffs)

text \<open>
  C1: The server program serves nobody it should not. Whatever its command line and whatever connections come in, a
  channel is served only on one of these connections and only when the endpoint was opened with the program's
  self-signed certificate for \<^verbatim>\<open>h3\<close>; the request was an SSH3 CONNECT; and if the command line asks for authentication,
  by requiring it, by listing identities or by enabling passwords, the user has proved itself for this conversation,
  and otherwise both ends of the connection are loopback addresses or the command line explicitly allows
  unauthenticated remote access.
\<close>

theorem server_program_authorizes:
  assumes "server_main srv tls endpoint_server ops (server_config_default from_uid env_shell) (Ok cli) incomings = (code, events)"
    and "ChannelServed peer ch user \<in> set events"
  shows "\<exists>conn cv req tls_config cert local_addr.
      Ok conn \<in> set incomings \<and> inc_remote_addr conn = peer \<and> inc_accepted conn = Ok (Some (cv, req)) \<and> is_ssh3_connect req
    \<and> endpoint_server tls_config (bind_addr (config_from_cli (server_config_default from_uid env_shell) cli)) = Ok local_addr
    \<and> tls_cert_chain tls_config = [cert] \<and> tls_alpn_protocols tls_config = [bstr ''h3'']
    \<and> (if cli_authenticates cli
       then proves_identity (srv_crates srv) (srv_shadow srv) (srv_fs srv) (srv_clock srv)
              (parse_request_authorization (srv_to_str srv) (srv_b64_decode srv) req) user (conversation_id cv)
              (config_from_cli (server_config_default from_uid env_shell) cli)
       else scli_allow_insecure_unauthenticated_remote cli
         \<or> is_loopback_ip (socket_ip peer) \<and> (case inc_local_ip conn of None \<Rightarrow> True | Some ip \<Rightarrow> is_loopback_ip ip))"
proof -
  let ?config = "config_from_cli (server_config_default from_uid env_shell) cli"
  have "run_with_self_signed srv tls endpoint_server ops ?config incomings = Ok events"
    using assms by (auto simp: server_main_def split: sum.splits)
  then obtain tls_config cert local_addr
    where ep: "self_signed_server_config tls (cert_subject_alt_names ?config) = Ok (tls_config, cert)"
      "endpoint_server tls_config (bind_addr ?config) = Ok local_addr"
      and serve: "serve_endpoint srv ops ?config local_addr incomings = Ok events"
    by (rule run_with_self_signed_Ok)
  from serve assms(2) obtain incoming where inc: "incoming \<in> set incomings"
    "ChannelServed peer ch user \<in> set (serve_incoming srv ops ?config incoming)"
    by (auto simp: serve_endpoint_def result_Ok_iffs split: if_splits)
  from inc(2) obtain conn res closed handlers where conn: "incoming = Ok conn" "peer = inc_remote_addr conn" "(ch, user) \<in> set handlers"
    and run: "serve_connection srv ops ?config (inc_local_ip conn) peer (inc_accepted conn) (inc_events conn) (inc_state conn)
       = (res, closed, handlers)"
    by (rule serve_incoming_served)
  from conn(3) have "handlers \<noteq> []" by auto
  with run obtain cv req where acc: "inc_accepted conn = Ok (Some (cv, req))"
    by (rule served_connection_accepted)
  from served_channel_authorized [OF run [unfolded acc] conn(3)]
  have "is_ssh3_connect req" "if cli_authenticates cli
       then proves_identity (srv_crates srv) (srv_shadow srv) (srv_fs srv) (srv_clock srv)
              (parse_request_authorization (srv_to_str srv) (srv_b64_decode srv) req) user (conversation_id cv) ?config
       else scli_allow_insecure_unauthenticated_remote cli
         \<or> is_loopback_ip (socket_ip peer) \<and> (case inc_local_ip conn of None \<Rightarrow> True | Some ip \<Rightarrow> is_loopback_ip ip)"
    by (simp_all add: Let_def should_authenticate_cli config_from_cli_fields(1) split: if_splits)
  with inc(1) conn(1,2) acc ep(2) self_signed_server_config_Ok [OF ep(1)] show ?thesis
    unfolding H3_ALPN_def by metis
qed


text \<open>A server without authentication on a loopback address, and a peer on the same machine.\<close>

definition demo_server_tls :: tls_crates where
  "demo_server_tls = \<lparr>safe_default_protocol_versions = Ok (), root_add = (\<lambda>_. Ok ()), TLS_SERVER_ROOTS = [[1]],
     with_single_cert = (\<lambda>_ _. Ok ()), quic_client_try_from = (\<lambda>_. Ok ()), quic_server_try_from = (\<lambda>_. Ok ()),
     generate_simple_self_signed = (\<lambda>_. Ok ([1], [2])), webpki_verify = (\<lambda>_ _ _. Ok ()),
     verify_signature = (\<lambda>_ _ _. Ok ())\<rparr>"

definition demo_cli :: server_cli where
  "demo_cli = \<lparr>scli_bind = None, scli_hostname = [], scli_server_header = None, scli_require_auth = False,
     scli_allow_insecure_unauthenticated_remote = False, scli_enable_password_login = False, scli_authorized_identity = [],
     scli_user = Some ''alice'', scli_shell = None\<rparr>"

definition demo_open_request :: "(string, string) http_request" where
  "demo_open_request = \<lparr>req_method = ''CONNECT'', req_uri = ''/'', req_headers = Map.empty, req_protocol = Some SSH3_PROTOCOL_NAME\<rparr>"

definition demo_incoming :: "(string, string, nat list \<times> bool, bytes_receive_stream, recording_send_stream) incoming_connection" where
  "demo_incoming = \<lparr>inc_local_ip = None, inc_remote_addr = SocketAddrV4 [127, 0, 0, 1] 5000,
     inc_accepted = Ok (Some (memory_conversation, demo_open_request)), inc_events = [ChannelAccepted (Ok (Accepted 0))],
     inc_state = (([], False), router_new (\<lambda>_. memory_conversation))\<rparr>"

lemma demo_server_main:
  "server_main demo_server demo_server_tls (\<lambda>_ addr. Ok (Ok addr)) record_ops (server_config_default (Ok None) None) (Ok demo_cli)
     [Ok demo_incoming] = (0, [ChannelServed (SocketAddrV4 [127, 0, 0, 1] 5000) (Accepted 0) demo_user])"
proof -
  let ?config = "config_from_cli (server_config_default (Ok None) None) demo_cli"
  have c [simp]: "\<not> should_authenticate ?config"
    by (simp add: should_authenticate_cli cli_authenticates_def demo_cli_def)
  have f: "bind_addr ?config = SocketAddrV4 [127, 0, 0, 1] 4433" "\<not> enable_password_login ?config" "default_user ?config = Some ''alice''"
    by (simp_all add: config_from_cli_fields demo_cli_def server_config_default_def) (simp add: config_from_cli_def)
  have p: "parse_request_authorization (srv_to_str demo_server) (srv_b64_decode demo_server) demo_open_request = NoAuthorization"
    by (simp add: parse_request_authorization_def header_str_def demo_open_request_def)
  have u: "resolve_session_user (srv_to_str demo_server) (srv_uri_query demo_server) (srv_from_name demo_server)
     demo_open_request NoAuthorization ?config = Ok demo_user"
    by (simp add: f resolve_session_user_def lookup_session_user_def demo_server_def demo_user_def
        requested_username_def header_str_def demo_open_request_def extract_query_param_def)
  have a: "authenticate_conversation demo_server record_ops ?config cid demo_open_request ([], False) = (Ok (Some demo_user), [200], False)" for cid
    using u p c
    by (simp add: authenticate_conversation_def Let_def rbind_def rmap_err_def rret_def record_ops_def authorize_request_def
        response_with_server_header_def is_ssh3_connect_def request_protocol_def)
      (simp add: demo_server_def demo_open_request_def rbind_def rmap_err_def rret_def)
  have v: "validate_server_config show_addr ?config = Ok ()" "validate_listener_addr show_addr ?config (SocketAddrV4 [127, 0, 0, 1] 4433) = Ok ()"
    "validate_connection_addresses ?config None (SocketAddrV4 [127, 0, 0, 1] 5000) = Ok ()" for show_addr
    by (simp_all add: f validate_server_config_def validate_listener_addr_def validate_connection_addresses_def)
  have s: "serve_incoming demo_server record_ops ?config (Ok demo_incoming) = [ChannelServed (SocketAddrV4 [127, 0, 0, 1] 5000) (Accepted 0) demo_user]"
    by (simp add: serve_incoming_def serve_connection_def demo_incoming_def v handle_conversation_def a)
  have "self_signed_server_config demo_server_tls names = Ok (\<lparr>tls_cert_chain = [[1]], tls_key = [2], tls_alpn_protocols = [H3_ALPN]\<rparr>, [1])" for names
    by (simp add: self_signed_server_config_def server_config_with_single_cert_def demo_server_tls_def Let_def)
  then show ?thesis
    by (simp add: server_main_def run_with_self_signed_def serve_endpoint_def v f s)
qed

theorem server_program_authorizes_witness:
  "server_main demo_server demo_server_tls (\<lambda>_ addr. Ok (Ok addr)) record_ops (server_config_default (Ok None) None) (Ok demo_cli)
     [Ok demo_incoming] = (0, [ChannelServed (SocketAddrV4 [127, 0, 0, 1] 5000) (Accepted 0) demo_user])
   \<and> is_ssh3_connect demo_open_request \<and> is_loopback_ip (socket_ip (SocketAddrV4 [127, 0, 0, 1] 5000))"
proof -
  have "ChannelServed (SocketAddrV4 [127, 0, 0, 1] 5000) (Accepted 0) demo_user
      \<in> set [ChannelServed (SocketAddrV4 [127, 0, 0, 1] 5000) (Accepted 0) demo_user]"
    by simp
  from server_program_authorizes [OF demo_server_main this] demo_server_main show ?thesis
    by (auto simp: demo_incoming_def)
qed


end
