(* ===== verification/Client_Cli.thy ===== *)
theory Client_Cli
  imports Client_Connect Server_Endpoint
begin

text \<open>
  The client program (\<^verbatim>\<open>crates/ssh3-client/src/main.rs\<close>): its command line, the configuration made of it and its exit
  code. What \<^verbatim>\<open>clap\<close> accepts is the predicate \<open>cli_accepted\<close>, read off the attributes of the arguments.
\<close>

section \<open>The command line\<close>

record 'u client_cli =
  ccli_server_name :: "string option"
  ccli_user :: "string option"
  ccli_identity :: "string option"
  ccli_agent :: bool
  ccli_agent_key :: "string option"
  ccli_agent_socket :: "string option"
  ccli_forward_agent :: bool
  ccli_password :: "string option"
  ccli_password_file :: "string option"
  ccli_bearer_token :: "string option"
  ccli_bearer_token_file :: "string option"
  ccli_oidc_issuer_url :: "string option"
  ccli_oidc_client_id :: "string option"
  ccli_oidc_client_secret :: "string option"
  ccli_oidc_client_secret_file :: "string option"
  ccli_no_pkce :: bool
  ccli_ca_cert :: "string option"
  ccli_insecure :: bool
  ccli_url :: 'u
  ccli_command :: "string list"

text \<open>The arguments of the group \<^verbatim>\<open>auth\<close>, of which at most one may be present.\<close>

definition auth_group :: "'u client_cli \<Rightarrow> bool list" where
  "auth_group cli = [ccli_identity cli \<noteq> None, ccli_agent cli, ccli_agent_key cli \<noteq> None, ccli_password cli \<noteq> None,
     ccli_password_file cli \<noteq> None, ccli_bearer_token cli \<noteq> None, ccli_bearer_token_file cli \<noteq> None,
     ccli_oidc_issuer_url cli \<noteq> None]"

text \<open>Presence of one argument requires another, or excludes it.\<close>

definition cli_requirements :: "'u client_cli \<Rightarrow> (bool \<times> bool) list" where
  "cli_requirements cli =
     [(ccli_agent cli, ccli_user cli \<noteq> None), (ccli_agent_key cli \<noteq> None, ccli_user cli \<noteq> None),
      (ccli_password cli \<noteq> None, ccli_user cli \<noteq> None), (ccli_password_file cli \<noteq> None, ccli_user cli \<noteq> None),
      (ccli_oidc_issuer_url cli \<noteq> None, ccli_oidc_client_id cli \<noteq> None),
      (ccli_oidc_client_id cli \<noteq> None, ccli_oidc_issuer_url cli \<noteq> None),
      (ccli_oidc_client_secret cli \<noteq> None, ccli_oidc_issuer_url cli \<noteq> None \<and> ccli_oidc_client_id cli \<noteq> None),
      (ccli_oidc_client_secret_file cli \<noteq> None, ccli_oidc_issuer_url cli \<noteq> None \<and> ccli_oidc_client_id cli \<noteq> None)]"

definition cli_conflicts :: "'u client_cli \<Rightarrow> (bool \<times> bool) list" where
  "cli_conflicts cli =
     [(ccli_agent cli, ccli_agent_key cli \<noteq> None), (ccli_password cli \<noteq> None, ccli_password_file cli \<noteq> None),
      (ccli_bearer_token cli \<noteq> None, ccli_bearer_token_file cli \<noteq> None),
      (ccli_oidc_client_secret cli \<noteq> None, ccli_oidc_client_secret_file cli \<noteq> None),
      (ccli_ca_cert cli \<noteq> None, ccli_insecure cli)]"

definition cli_accepted :: "'u client_cli \<Rightarrow> bool" where
  "cli_accepted cli \<longleftrightarrow> length (filter id (auth_group cli)) \<le> 1
     \<and> list_all (\<lambda>(present, needed). present \<longrightarrow> needed) (cli_requirements cli)
     \<and> list_all (\<lambda>(a, b). \<not> (a \<and> b)) (cli_conflicts cli)"

section \<open>The configuration\<close>

text \<open>An error of the command line, with its cause in place of the printed message.\<close>

datatype cli_error = SecretUnreadable string io_error | CaCertUnusable client_error | ArgumentError clap_error_kind

fun cli_error_kind :: "cli_error \<Rightarrow> clap_error_kind" where
  "cli_error_kind (SecretUnreadable _ _) = ClapIo"
| "cli_error_kind (CaCertUnusable _) = ValueValidation"
| "cli_error_kind (ArgumentError kind) = kind"

text \<open>Parts of the standard library: trimming at the end and joining.\<close>

definition trim_end_newlines :: "string \<Rightarrow> string" where
  "trim_end_newlines s = rev (dropWhile (\<lambda>c. c = CHR 0x0D \<or> c = CHR 0x0A) (rev s))"

fun str_join :: "string \<Rightarrow> string list \<Rightarrow> string" where
  "str_join sep [] = []"
| "str_join sep [w] = w"
| "str_join sep (w # ws) = w @ sep @ str_join sep ws"

definition read_secret_file :: "(string \<Rightarrow> io_error + string) \<Rightarrow> string \<Rightarrow> string \<Rightarrow> cli_error + string" where
  "read_secret_file read_to_string path label =
     map_sum (SecretUnreadable label) trim_end_newlines (read_to_string path)"

text \<open>A secret that is given as argument or in a file; both at once is \<^verbatim>\<open>unreachable!\<close>, a panic.\<close>

fun secret_argument ::
    "(string \<Rightarrow> io_error + string) \<Rightarrow> string \<Rightarrow> (string \<Rightarrow> string) \<Rightarrow> string option \<Rightarrow> string option
     \<Rightarrow> (cli_error + string option) option" where
  "secret_argument read_to_string label f (Some secret) None = Some (Ok (Some (f secret)))"
| "secret_argument read_to_string label f None (Some path) = Some (map_sum id Some (read_secret_file read_to_string path label))"
| "secret_argument read_to_string label f None None = Some (Ok None)"
| "secret_argument read_to_string label f (Some _) (Some _) = None"

fun cli_bind :: "('e + 'a) option \<Rightarrow> ('a \<Rightarrow> ('e + 'b) option) \<Rightarrow> ('e + 'b) option" where
  "cli_bind None f = None"
| "cli_bind (Some (Err e)) f = Some (Err e)"
| "cli_bind (Some (Ok a)) f = f a"

definition oidc_argument ::
    "(string \<Rightarrow> io_error + string) \<Rightarrow> 'u client_cli \<Rightarrow> (cli_error + oidc_config option) option" where
  "oidc_argument read_to_string cli = (case (ccli_oidc_issuer_url cli, ccli_oidc_client_id cli) of
       (Some issuer, Some client) \<Rightarrow>
         cli_bind (secret_argument read_to_string ''OIDC client secret file'' id (ccli_oidc_client_secret cli)
             (ccli_oidc_client_secret_file cli)) (\<lambda>secret.
           Some (Ok (Some \<lparr>oi_issuer_url = issuer, oi_client_id = client, oi_client_secret = secret,
             oi_use_pkce = (\<not> ccli_no_pkce cli)\<rparr>)))
     | (None, None) \<Rightarrow> Some (Ok None)
     | _ \<Rightarrow> None)"

definition trust_argument ::
    "(string \<Rightarrow> client_error + bytes list) \<Rightarrow> 'u client_cli \<Rightarrow> cli_error + trust_strategy" where
  "trust_argument load cli =
     (if ccli_insecure cli then Ok Insecure
      else case ccli_ca_cert cli of
          Some path \<Rightarrow> map_sum CaCertUnusable Certificates (load path)
        | None \<Rightarrow> Ok WebPkiRoots)"

definition build_config ::
    "(string \<Rightarrow> io_error + string) \<Rightarrow> (string \<Rightarrow> client_error + bytes list) \<Rightarrow> 'u client_cli
     \<Rightarrow> (cli_error + 'u client_config \<times> session_kind) option" where
  "build_config read_to_string load cli =
     (let config = (client_config_new (ccli_url cli))\<lparr>cc_server_name := ccli_server_name cli, cc_username := ccli_user cli,
        cc_identity_file := ccli_identity cli,
        cc_agent := (if ccli_agent cli then Some First else map_option PublicKeyFile (ccli_agent_key cli)),
        cc_agent_socket := ccli_agent_socket cli, cc_forward_agent := ccli_forward_agent cli\<rparr>
      in cli_bind (secret_argument read_to_string ''password file'' id (ccli_password cli) (ccli_password_file cli)) (\<lambda>password.
         cli_bind (secret_argument read_to_string ''bearer token file'' str_trim (ccli_bearer_token cli) (ccli_bearer_token_file cli))
           (\<lambda>token.
         cli_bind (oidc_argument read_to_string cli) (\<lambda>oidc.
         cli_bind (Some (trust_argument load cli)) (\<lambda>trust.
         Some (Ok (config\<lparr>cc_password := password, cc_bearer_token := token, cc_oidc := oidc, cc_trust := trust\<rparr>,
           if ccli_command cli = [] then SessionShell
           else SessionExec (str_join '' '' (ccli_command cli)))))))))"

section \<open>The exit code\<close>

text \<open>The session on the terminal, with the streams it writes to left out of its result.\<close>

definition terminal_session ::
    "('o, 'u, 'v, 'a, 'url) client_env \<Rightarrow> ('u, 'ep, 'p, 'c) quic_env \<Rightarrow> ('u, 'v, 'r, 'w, 'c) h3_env
     \<Rightarrow> 'r read_exact_fn \<Rightarrow> 'w write_all_fn \<Rightarrow> 'w close_fn \<Rightarrow> 's write_all_fn \<Rightarrow> (unix_signal \<Rightarrow> bool) \<Rightarrow> io_error + unit
     \<Rightarrow> client_error + local_terminal_info option \<Rightarrow> (io_error + bytes) list \<Rightarrow> 's \<Rightarrow> 's
     \<Rightarrow> ('c \<Rightarrow> connection_error + ('r, 'w) bi_stream) \<Rightarrow> 'u client_config \<Rightarrow> session_kind \<Rightarrow> (client_error + int) poll option" where
  "terminal_session ce qe he rd wr cl sw handler_ok raw_mode terminal stdin out err open_bi config kind =
     map_option (map_poll (map_sum id fst))
       (run_session_stdio ce qe he rd wr cl sw handler_ok raw_mode terminal stdin out err open_bi config kind)"

text \<open>The program, \<open>run\<close> being \<open>terminal_session\<close> in the surroundings of the process. A status is cut down to a byte.\<close>

definition client_main ::
    "(string \<Rightarrow> io_error + string) \<Rightarrow> (string \<Rightarrow> client_error + bytes list)
     \<Rightarrow> ('u client_config \<Rightarrow> session_kind \<Rightarrow> (client_error + int) poll option) \<Rightarrow> clap_error_kind + 'u client_cli
     \<Rightarrow> u8 poll option" where
  "client_main read_to_string load run parsed =
     (case (case parsed of Err kind \<Rightarrow> Some (Err (ArgumentError kind)) | Ok cli \<Rightarrow> build_config read_to_string load cli) of
        None \<Rightarrow> None
      | Some (Err e) \<Rightarrow> Some (Ready (if clap_exit_success (cli_error_kind e) then 0 else 1))
      | Some (Ok (config, kind)) \<Rightarrow> map_option
          (map_poll (\<lambda>res. case res of Ok status \<Rightarrow> word_of_int status | Err _ \<Rightarrow> 1)) (run config kind))"

section \<open>What the program runs with\<close>

lemma cli_bind_Ok_iff: "cli_bind r f = Some (Ok b) \<longleftrightarrow> (\<exists>a. r = Some (Ok a) \<and> f a = Some (Ok b))"
  by (cases "(r, f)" rule: cli_bind.cases) simp_all

lemma cli_bind_returns: "r \<noteq> None \<Longrightarrow> (\<And>a. r = Some (Ok a) \<Longrightarrow> f a \<noteq> None) \<Longrightarrow> cli_bind r f \<noteq> None"
  by (cases "(r, f)" rule: cli_bind.cases) simp_all

lemma secret_argument_returns: "\<not> (a \<noteq> None \<and> b \<noteq> None) \<Longrightarrow> secret_argument rd label f a b \<noteq> None"
  by (cases "(rd, label, f, a, b)" rule: secret_argument.cases) simp_all

lemma secret_argument_Ok:
  "secret_argument rd label f a b = Some (Ok s) \<Longrightarrow> s \<noteq> None \<longleftrightarrow> a \<noteq> None \<or> b \<noteq> None"
  by (cases "(rd, label, f, a, b)" rule: secret_argument.cases) (auto simp: map_sum_Ok_iff)

lemma oidc_argument_Ok: "oidc_argument rd cli = Some (Ok oidc) \<Longrightarrow> oidc \<noteq> None \<longleftrightarrow> ccli_oidc_issuer_url cli \<noteq> None"
  by (auto simp: oidc_argument_def cli_bind_Ok_iff split: option.splits)

lemma trust_argument_Ok:
  "trust_argument load cli = Ok trust \<Longrightarrow> (trust = Insecure \<longleftrightarrow> ccli_insecure cli)"
  by (auto simp: trust_argument_def map_sum_Ok_iff split: if_splits option.splits)

lemma cli_acceptedD:
  assumes "cli_accepted cli"
  shows "length (filter id (auth_group cli)) \<le> 1"
    "\<not> (ccli_password cli \<noteq> None \<and> ccli_password_file cli \<noteq> None)"
    "\<not> (ccli_bearer_token cli \<noteq> None \<and> ccli_bearer_token_file cli \<noteq> None)"
    "\<not> (ccli_oidc_client_secret cli \<noteq> None \<and> ccli_oidc_client_secret_file cli \<noteq> None)"
    "\<not> (ccli_ca_cert cli \<noteq> None \<and> ccli_insecure cli)"
    "ccli_oidc_issuer_url cli \<noteq> None \<longleftrightarrow> ccli_oidc_client_id cli \<noteq> None"
    "ccli_agent cli \<or> ccli_agent_key cli \<noteq> None \<or> ccli_password cli \<noteq> None \<or> ccli_password_file cli \<noteq> None
      \<longrightarrow> ccli_user cli \<noteq> None"
proof -
  from assms have n: "length (filter id (auth_group cli)) \<le> 1"
    and r: "list_all (\<lambda>(present, needed). present \<longrightarrow> needed) (cli_requirements cli)"
    and c: "list_all (\<lambda>(a, b). \<not> (a \<and> b)) (cli_conflicts cli)"
    unfolding cli_accepted_def by blast+
  show "length (filter id (auth_group cli)) \<le> 1" by (rule n)
  show "\<not> (ccli_password cli \<noteq> None \<and> ccli_password_file cli \<noteq> None)"
    "\<not> (ccli_bearer_token cli \<noteq> None \<and> ccli_bearer_token_file cli \<noteq> None)"
    "\<not> (ccli_oidc_client_secret cli \<noteq> None \<and> ccli_oidc_client_secret_file cli \<noteq> None)"
    "\<not> (ccli_ca_cert cli \<noteq> None \<and> ccli_insecure cli)"
    using c unfolding cli_conflicts_def by (simp_all only: list.pred_inject prod.case simp_thms)
  show "ccli_oidc_issuer_url cli \<noteq> None \<longleftrightarrow> ccli_oidc_client_id cli \<noteq> None"
    "ccli_agent cli \<or> ccli_agent_key cli \<noteq> None \<or> ccli_password cli \<noteq> None \<or> ccli_password_file cli \<noteq> None
      \<longrightarrow> ccli_user cli \<noteq> None"
    using r unfolding cli_requirements_def list.pred_inject prod.case by blast+
qed

lemma build_config_returns:
  assumes "cli_accepted cli"
  shows "build_config rd load cli \<noteq> None"
proof -
  note acc = cli_acceptedD [OF assms]
  have "cli_bind (secret_argument rd ''OIDC client secret file'' id (ccli_oidc_client_secret cli)
      (ccli_oidc_client_secret_file cli)) (\<lambda>secret. Some (f secret)) \<noteq> None" for f
    by (rule cli_bind_returns [OF secret_argument_returns [OF acc(4)]]) simp
  then have "oidc_argument rd cli \<noteq> None"
    unfolding oidc_argument_def using acc(6)
    by (cases "ccli_oidc_issuer_url cli"; cases "ccli_oidc_client_id cli") (simp_all del: not_None_eq)
  then show ?thesis
    unfolding build_config_def Let_def using acc(2,3)
    by (intro cli_bind_returns secret_argument_returns) simp_all
qed

lemma build_config_Ok:
  assumes "build_config rd load cli = Some (Ok (config, kind))"
  shows "cc_username config = ccli_user cli" "cc_identity_file config = ccli_identity cli"
    "cc_agent config \<noteq> None \<longleftrightarrow> ccli_agent cli \<or> ccli_agent_key cli \<noteq> None"
    "cc_password config \<noteq> None \<longleftrightarrow> ccli_password cli \<noteq> None \<or> ccli_password_file cli \<noteq> None"
    "cc_bearer_token config \<noteq> None \<longleftrightarrow> ccli_bearer_token cli \<noteq> None \<or> ccli_bearer_token_file cli \<noteq> None"
    "cc_oidc config \<noteq> None \<longleftrightarrow> ccli_oidc_issuer_url cli \<noteq> None"
    "trust_argument load cli = Ok (cc_trust config)" "cc_target_url config = ccli_url cli"
proof -
  obtain password token oidc trust where
    a: "secret_argument rd ''password file'' id (ccli_password cli) (ccli_password_file cli) = Some (Ok password)"
      "secret_argument rd ''bearer token file'' str_trim (ccli_bearer_token cli) (ccli_bearer_token_file cli) = Some (Ok token)"
      "oidc_argument rd cli = Some (Ok oidc)" "trust_argument load cli = Ok trust"
    and config: "config = (client_config_new (ccli_url cli))\<lparr>cc_server_name := ccli_server_name cli, cc_username := ccli_user cli,
        cc_identity_file := ccli_identity cli,
        cc_agent := (if ccli_agent cli then Some First else map_option PublicKeyFile (ccli_agent_key cli)),
        cc_agent_socket := ccli_agent_socket cli, cc_forward_agent := ccli_forward_agent cli,
        cc_password := password, cc_bearer_token := token, cc_oidc := oidc, cc_trust := trust\<rparr>"
    using assms unfolding build_config_def Let_def cli_bind_Ok_iff by auto
  show "cc_username config = ccli_user cli" "cc_identity_file config = ccli_identity cli"
    "cc_agent config \<noteq> None \<longleftrightarrow> ccli_agent cli \<or> ccli_agent_key cli \<noteq> None"
    "cc_password config \<noteq> None \<longleftrightarrow> ccli_password cli \<noteq> None \<or> ccli_password_file cli \<noteq> None"
    "cc_bearer_token config \<noteq> None \<longleftrightarrow> ccli_bearer_token cli \<noteq> None \<or> ccli_bearer_token_file cli \<noteq> None"
    "cc_oidc config \<noteq> None \<longleftrightarrow> ccli_oidc_issuer_url cli \<noteq> None"
    "trust_argument load cli = Ok (cc_trust config)" "cc_target_url config = ccli_url cli"
    using a(4) secret_argument_Ok [OF a(1)] secret_argument_Ok [OF a(2)] oidc_argument_Ok [OF a(3)]
    by (simp_all add: config client_config_new_def)
qed

lemma at_most_one:
  "ct \<longrightarrow> b \<or> b' \<Longrightarrow> length (filter id [i, a, a', p, p', b, b', oi]) \<le> 1 \<Longrightarrow>
     of_bool i + of_bool (a \<or> a') + of_bool (p \<or> p') + of_bool ct + of_bool oi \<le> (1 :: nat)"
  by (cases i; cases a; cases a'; cases p; cases p'; cases b; cases b'; cases oi; simp)

lemma auth_method_count_cli:
  assumes "build_config rd load cli = Some (Ok (config, kind))" "length (filter id (auth_group cli)) \<le> 1"
  shows "auth_method_count config \<le> 1"
proof -
  have "configured_token config \<noteq> None \<longrightarrow> ccli_bearer_token cli \<noteq> None \<or> ccli_bearer_token_file cli \<noteq> None"
    using build_config_Ok(5) [OF assms(1)] by (auto simp: configured_token_def)
  from at_most_one [OF this assms(2) [unfolded auth_group_def]] show ?thesis
    unfolding auth_method_count_def build_config_Ok [OF assms(1)] .
qed


text \<open>
  The exit code of the client. When the session ends with a status, the program exits with the status modulo
  256: with the status itself where it fits a byte, and successfully exactly when 256 divides it. A server on a system with
  larger exit codes can so report a failure that the client's caller takes for success.
\<close>

theorem client_exit_code:
  assumes "build_config rd load cli = Some (Ok (config, kind))" "run config kind = Some (Ready (Ok status))"
  shows "\<exists>code. client_main rd load run (Ok cli) = Some (Ready code) \<and> uint code = status mod 256
    \<and> (0 \<le> status \<and> status < 256 \<longrightarrow> uint code = status) \<and> (code = 0 \<longleftrightarrow> 256 dvd status)"
proof -
  have "uint (word_of_int status :: u8) = status mod 256"
    by (simp add: uint_word_of_int)
  moreover from this have "(word_of_int status :: u8) = 0 \<longleftrightarrow> 256 dvd status"
    by (metis mod_0_imp_dvd dvd_imp_mod_0 uint_0_iff)
  ultimately show ?thesis
    using assms by (simp add: client_main_def)
qed

text \<open>A command line with a password file, and a session that ends with status 256.\<close>

definition demo_client_cli :: "string client_cli" where
  "demo_client_cli = \<lparr>ccli_server_name = None, ccli_user = Some ''alice'', ccli_identity = None, ccli_agent = False,
     ccli_agent_key = None, ccli_agent_socket = None, ccli_forward_agent = False, ccli_password = None,
     ccli_password_file = Some ''/pw'', ccli_bearer_token = None, ccli_bearer_token_file = None, ccli_oidc_issuer_url = None,
     ccli_oidc_client_id = None, ccli_oidc_client_secret = None, ccli_oidc_client_secret_file = None, ccli_no_pkce = False,
     ccli_ca_cert = None, ccli_insecure = False, ccli_url = ''https://host/ssh3'', ccli_command = [''ls'', ''-l'']\<rparr>"

lemma demo_client_cli_accepted: "cli_accepted demo_client_cli"
  by (simp add: cli_accepted_def auth_group_def cli_requirements_def cli_conflicts_def demo_client_cli_def)

lemma demo_build_config:
  "build_config (\<lambda>_. Ok [CHR ''p'', CHR ''w'', CHR 0x0D, CHR 0x0A]) (\<lambda>_. Ok []) demo_client_cli
     = Some (Ok (demo_password_config, SessionExec ''ls -l''))"
  by (simp add: build_config_def Let_def demo_client_cli_def read_secret_file_def trim_end_newlines_def oidc_argument_def
      trust_argument_def demo_password_config_def client_config_new_def)


theorem client_exit_code_witness:
  "client_main (\<lambda>_. Ok [CHR ''p'', CHR ''w'', CHR 0x0D, CHR 0x0A]) (\<lambda>_. Ok []) (\<lambda>_ _. Some (Ready (Ok 256))) (Ok demo_client_cli)
     = Some (Ready 0)"
  using client_exit_code [OF demo_build_config, of "\<lambda>_ _. Some (Ready (Ok 256))" 256] by auto

end
