(* ===== verification/Spec2Isabelle.thy ===== *)
theory Spec2Isabelle
  imports Client_Cli
begin

text \<open>
  A verification development for \<^verbatim>\<open>ssh3\<close>, SSH over HTTP/3 and QUIC. It models the Rust implementation, the crates
  under \<^verbatim>\<open>src/crates\<close>: wire format, channels and conversations, their transport over QUIC and HTTP/3, authentication,
  and the server and client programs. The Unix build is modelled.

  \<^bold>\<open>The program.\<close> A client opens a QUIC connection, checks the server's certificate and sends an HTTP/3 extended CONNECT
  request with its credentials, which are bound to an id that both ends export from the TLS session. The server checks
  them and answers 200; from then on both ends have a conversation. Channels of a conversation are bidirectional QUIC
  streams that begin with a header naming the stream of the request; the router of a connection hands each
  incoming stream to its conversation. Channels carry SSH messages, and QUIC datagrams are routed to the queue of
  their channel. The server runs a process for a session channel and relays its input and output, forwards TCP and
  UDP, and lets processes reach the agent of the client.

  \<^bold>\<open>The theories,\<close> in the order of their imports:

  \<^item> \<^verbatim>\<open>Ssh3_Prelude\<close>: words, bytes, results (\<open>Ok\<close> and \<open>Err\<close>, a panic being \<open>None\<close>), readers and operations that pass a
    state, the contract \<open>byte_source\<close> of what decoders read from, and the collections of facts for them.
  \<^item> \<^verbatim>\<open>Wire\<close>, \<^verbatim>\<open>Ssh_Message\<close>, \<^verbatim>\<open>Channel_Header\<close> (\<^verbatim>\<open>ssh3-proto/src\<close>: \<^verbatim>\<open>wire.rs\<close>, \<^verbatim>\<open>message.rs\<close>, \<^verbatim>\<open>channel.rs\<close>): each function as
    the code has it. Every message is read back as it was written, every truncation is refused, and the
    integer decoder refines the definition of RFC 9000.
  \<^item> \<^verbatim>\<open>Datagram_Queue\<close>, \<^verbatim>\<open>Channel\<close>, \<^verbatim>\<open>Channel_Laws\<close>, \<^verbatim>\<open>Conversation\<close> (\<^verbatim>\<open>ssh3-core/src\<close>: \<^verbatim>\<open>queue.rs\<close>, \<^verbatim>\<open>transport.rs\<close>, \<^verbatim>\<open>channel.rs\<close>,
    \<^verbatim>\<open>conversation.rs\<close>): queues with their wake-ups, channels as records over abstract streams, and conversations
    with heaps of channels and queues, since the code shares them by \<^verbatim>\<open>Arc\<close>. Shown are FIFO order, delivery of
    written data, the header being sent once and first, the agreement of the two message parsers, an invariant of
    all reachable conversations, and the routing of datagrams.
  \<^item> \<^verbatim>\<open>Quinn_Channel\<close>, \<^verbatim>\<open>Tls_Config\<close> (\<^verbatim>\<open>ssh3-quinn/src\<close>) and \<^verbatim>\<open>H3_Dispatch\<close> (\<^verbatim>\<open>ssh3-h3/src/lib.rs\<close>): incoming headers, the router and
    its accept loop, TLS configurations, CONNECT requests, the server's driver and the datagram loops. Shown are that
    an opened channel and a sent datagram reach the other end's conversation, the agreement of both ends on the
    conversation, and an invariant of the driver.
  \<^item> \<^verbatim>\<open>Rust_Std\<close>: strings, UTF-8 and results of the standard library. \<^verbatim>\<open>Auth_Tokens\<close> (\<^verbatim>\<open>ssh3-auth/src/lib.rs\<close>): bearer and OpenID tokens,
    signatures and identity files; a token is accepted for its user, conversation and time only.
  \<^item> \<^verbatim>\<open>Server_Auth\<close>, \<^verbatim>\<open>Server_Session\<close>, \<^verbatim>\<open>Forwarding\<close>, \<^verbatim>\<open>Udp_Forwarding\<close>, \<^verbatim>\<open>Server_Endpoint\<close> (\<^verbatim>\<open>ssh3-server/src\<close>: \<^verbatim>\<open>lib.rs\<close>, \<^verbatim>\<open>main.rs\<close>):
    authorization and the answers to requests, the state machine of a session and what it asks of the operating
    system, the tasks that relay data, the endpoint and the command line. Shown are that nobody is served without
    authorization, from the command line on; that a session runs at most one process, as its user; and what
    the relays deliver under every schedule.
  \<^item> \<^verbatim>\<open>Client_Session\<close>, \<^verbatim>\<open>Agent_Protocol\<close>, \<^verbatim>\<open>Client_Oidc\<close>, \<^verbatim>\<open>Client_Auth\<close>, \<^verbatim>\<open>Client_Connect\<close>, \<^verbatim>\<open>Client_Cli\<close> (\<^verbatim>\<open>ssh3-client/src\<close>: \<^verbatim>\<open>lib.rs\<close>,
    \<^verbatim>\<open>agent.rs\<close>, \<^verbatim>\<open>main.rs\<close>): sessions, the SSH agent, the OpenID login, credentials, the race of addresses, the
    connection and the command line. Shown are that a remote command's output and exit code are captured
    exactly, that agent and key file give the same token, that a login ends with the code for its own state,
    that the server sees exactly the configured credential, and that certificates are checked as configured.
  \<^item> This theory: a login with a key through client, connection and server.

  \<^bold>\<open>Conventions.\<close> A struct is a record, an enum a datatype, an integer a word of its width, a \<^verbatim>\<open>Result\<close> a sum, an \<^verbatim>\<open>async\<close>
  operation that may wait a \<open>poll\<close>. Definitions carry the names of the code, with a prefix where two crates use the
  same one. Tasks that run concurrently are step functions run by a list of events that stands for the
  scheduler; the theorems quantify over all such lists. Critical sections of mutexes are single steps.

  \<^bold>\<open>Interfaces.\<close> The locales \<open>byte_source\<close>, \<open>send_stream\<close>, \<open>reliable_stream\<close>, \<open>closing_stream\<close>, \<open>datagram_sink\<close>, \<open>fifo\<close>,
  \<open>registry\<close> and \<open>removable_registry\<close> state what the users of streams, queues and registries rely on; they are
  interpreted on the in-memory streams of \<^verbatim>\<open>transport.rs\<close>, on the cursor, on both queues, on the registry of a
  conversation and on the router.

  \<^bold>\<open>Termination.\<close> No definition has fuel. Loops over incoming messages and the draining of a queue are partial
  functions into \<open>option\<close>, with theorems that they return (\<open>session_channel_ends\<close> and the lemmas
  \<open>next_message_returns\<close>, \<open>drain_queue_returns\<close> and \<open>capture_loop_messages\<close>); loops over events that the world supplies recurse on the list of
  these events; string functions and the shadow file loop have termination proofs.

  \<^bold>\<open>Parameters.\<close> Code outside \<^verbatim>\<open>src/crates\<close> is an argument: \<^verbatim>\<open>quinn\<close>, \<^verbatim>\<open>h3\<close>, \<^verbatim>\<open>http\<close>, \<^verbatim>\<open>rustls\<close>, \<^verbatim>\<open>rcgen\<close>, base64, JSON, key and
  signature crates, \<^verbatim>\<open>reqwest\<close>, \<^verbatim>\<open>clap\<close>, the operating system, clocks and files. Records such as \<open>crates\<close>, \<open>tls_crates\<close>, \<open>os\<close>,
  \<open>server_env\<close>, \<open>client_env\<close>, \<open>quic_env\<close> and \<open>h3_env\<close> collect them. What is assumed of them, for example that decoding inverts
  encoding, is a hypothesis of the theorem; each such theorem has a witness with concrete functions.

  \<^bold>\<open>Not modelled.\<close> The texts of errors and the \<^verbatim>\<open>From\<close> conversions, which are the constructors that the definitions apply; the
  setup of the \<^verbatim>\<open>h3\<close> crate's builders; raw terminal mode, the browser and the shutdown of a client, which are calls
  whose results the code does not use; branches for other systems than Unix; the tests; the third-party
  libraries under \<^verbatim>\<open>src/third_party\<close>; and the implementation in Go that the crates were ported from. Timing is modelled
  only where the code reads a clock.
\<close>

section \<open>Client and server together\<close>

lemma key_login_resolved:
  assumes "authorize_request env db fs clock authorization user cid sconfig = Ok True" "should_authenticate sconfig"
    and "header_str to_str req SSH3_USER_HEADER = Some (su_username user)" "su_username user \<noteq> []"
      "str_trim (su_username user) = su_username user"
    and "lookup_session_user from_name (su_username user) = Ok user"
  shows "resolve_session_user to_str uri_query from_name req authorization sconfig = Ok user"
proof -
  have "requested_username to_str uri_query req sconfig = Some (su_username user)"
    using assms(3-5) by (simp add: requested_username_def)
  then show ?thesis
    using assms by (cases authorization) (auto simp: resolve_session_user_def authorize_request_def split: if_splits)
qed

lemma handle_conversation_accepts:
  assumes "\<forall>r. srv_body srv r = Ok r" "srv_from_str srv (server_header sconfig) = Ok v" "is_ssh3_connect req"
    and "resolve_session_user (srv_to_str srv) (srv_uri_query srv) (srv_from_name srv) req
      (parse_request_authorization (srv_to_str srv) (srv_b64_decode srv) req) sconfig = Ok user"
    and "authorize_request (srv_crates srv) (srv_shadow srv) (srv_fs srv) (srv_clock srv)
      (parse_request_authorization (srv_to_str srv) (srv_b64_decode srv) req) user (conversation_id cv) sconfig = Ok True"
  shows "handle_conversation srv record_ops sconfig cv req evs (([], False), rt)
    = ((fst (serve_channels evs), map (\<lambda>ch. (ch, user)) (snd (serve_channels evs))), ([200], False),
       snd (unregister_conversation (control_stream_id cv) rt))"
  using assms
  by (simp add: handle_conversation_def authenticate_conversation_def Let_def rbind_def rret_def rmap_err_def record_ops_def
      response_with_server_header_def split: prod.splits)

lemma connect_client_succeeds:
  assumes "precomputed_authorization_header (ce_crates ce) config = Ok precomputed" "connect_target qe config = Ok (ep, conn)"
    "he_new_client he conn = Ok ()" "generate_conversation_id (he_export he conn) = Ok cid"
    "client_connect_request ce config precomputed cid = Ready (Ok req)" "he_send_request he conn req = Ok stream"
    "he_recv_response he conn stream = Ok resp" "resp_status resp = 200"
  obtains client where "connect_client_with_browser_opener ce qe he config = Ready (Ok client)"
    "conversation_id (client_conversation client) = cid" "control_stream_id (client_conversation client) = stream"
  using assms
  by (intro that, simp add: connect_client_with_browser_opener_def establish_client_conversation_def activate_client_def
      register_conversation_def router_new_def conversation_new_def) (simp_all add: client_conversation_def)


text \<open>The client of the key file, the server that lists the key, and a connection that exports the id \<open>[7]\<close>.\<close>

definition demo_key_server :: "(bytes, string, string) server_env" where
  "demo_key_server = demo_server\<lparr>srv_fs := demo_identities\<rparr>"

definition demo_key_sconfig :: server_config where
  "demo_key_sconfig = demo_config\<lparr>authorized_identity_paths := [''/authorized'']\<rparr>"

definition demo_key_h3 :: "(string, string, bytes_receive_stream, recording_send_stream, unit) h3_env" where
  "demo_key_h3 = demo_h3_env\<lparr>he_export := (\<lambda>_ _ _ _. Ok [7])\<rparr>"

definition demo_key_conversation :: "(bytes_receive_stream, recording_send_stream) conversation" where
  "demo_key_conversation = memory_conversation\<lparr>conversation_id := [7]\<rparr>"

lemma demo_key_request:
  obtains req where "client_connect_request demo_client_env demo_identity_config None [7] = Ready (Ok req)"
proof -
  have "load_private_key demo_crates ''/key'' = Ok demo_key"
    by (simp add: load_private_key_def demo_crates_def demo_key_def)
  then have "\<exists>req. client_connect_request demo_client_env demo_identity_config None [7] = Ready (Ok req)"
    using demo_token
    by (simp add: client_connect_request_def authorization_value_def insert_header_def build_connect_request_def
        identity_token_def demo_identity_config_def client_config_new_def demo_client_env_def)
  with that show thesis by blast
qed

lemma demo_key_connect_target:
  "connect_target demo_quic_env demo_identity_config = Ok (SocketAddrV4 (replicate 4 0) 0, ())"
  by (simp add: connect_target_def resolve_target_def connect_resolved_target_def client_quinn_config_def
      client_config_with_webpki_roots_def client_config_with_roots_def Let_def demo_quic_env_def demo_tls_def
      demo_identity_config_def client_config_new_def client_bind_addr_def)

lemma demo_key_crates:
  "encodings_ok (ce_crates demo_client_env)" "keypair_ok (ce_crates demo_client_env) demo_key"
  "\<forall>bs. list_all is_graph (b64url_encode (ce_crates demo_client_env) bs)"
  "headers_ok (ce_from_str demo_client_env) (srv_to_str demo_key_server)"
proof -
  have env: "ce_crates demo_client_env = demo_crates"
    by (simp add: demo_client_env_def)
  show "encodings_ok (ce_crates demo_client_env)" "keypair_ok (ce_crates demo_client_env) demo_key"
    "\<forall>bs. list_all is_graph (b64url_encode (ce_crates demo_client_env) bs)"
    using demo_crates_ok base64_ok_hex by (simp_all add: env base64_ok_def) (simp add: demo_crates_def)
  show "headers_ok (ce_from_str demo_client_env) (srv_to_str demo_key_server)"
    by (simp add: headers_ok_def demo_client_env_def demo_key_server_def demo_server_def)
qed

lemma demo_key_client:
  assumes "client_connect_request demo_client_env demo_identity_config None [7] = Ready (Ok req)"
  shows "cc_identity_file demo_identity_config = Some ''/key''" "load_private_key (ce_crates demo_client_env) ''/key'' = Ok demo_key"
    "cc_username demo_identity_config = Some (su_username demo_user)"
    "precomputed_authorization_header (ce_crates demo_client_env) demo_identity_config = Ok None"
    "client_connect_request demo_client_env demo_identity_config None (conversation_id demo_key_conversation) = Ready (Ok req)"
    "ce_clock demo_client_env = Ok 100" "unat (100 :: u64) + 60 < 2 ^ 64"
    "\<forall>i. \<exists>t. srv_clock demo_key_server i = Ok t \<and> 100 \<le> t \<and> unat t < unat (100 :: u64) + 60"
    "should_authenticate demo_key_sconfig"
  using assms
  by (simp_all add: demo_identity_config_def client_config_new_def load_private_key_def demo_crates_def demo_key_def demo_user_def
      precomputed_authorization_header_def auth_method_count_def configured_token_def should_authenticate_def
      demo_key_sconfig_def demo_key_server_def demo_server_def demo_key_conversation_def demo_client_env_def)

lemma demo_key_server_ok:
  "srv_crates demo_key_server = ce_crates demo_client_env" "PublicKeyId (pair_public demo_key) \<in> set [PublicKeyId demo_public]"
  "lookup_session_user (srv_from_name demo_key_server) (su_username demo_user) = Ok demo_user" "su_username demo_user \<noteq> []"
  "str_trim (su_username demo_user) = su_username demo_user" "\<forall>r. srv_body demo_key_server r = Ok r"
  "srv_from_str demo_key_server (server_header demo_key_sconfig) = Ok (server_header demo_key_sconfig)"
  "load_authorized_identities_from_paths (ce_crates demo_client_env) (srv_fs demo_key_server)
     (configured_authorized_identity_paths demo_key_sconfig demo_user) = Ok [PublicKeyId demo_public]"
proof -
  have "str_trim ''alice'' = ''alice''"
    by (rule str_trim_graph) (simp_all add: is_graph_def)
  then show "srv_crates demo_key_server = ce_crates demo_client_env" "PublicKeyId (pair_public demo_key) \<in> set [PublicKeyId demo_public]"
    "lookup_session_user (srv_from_name demo_key_server) (su_username demo_user) = Ok demo_user" "su_username demo_user \<noteq> []"
    "str_trim (su_username demo_user) = su_username demo_user" "\<forall>r. srv_body demo_key_server r = Ok r"
    "srv_from_str demo_key_server (server_header demo_key_sconfig) = Ok (server_header demo_key_sconfig)"
    by (simp_all add: demo_client_env_def demo_key_server_def demo_server_def demo_user_def demo_key_def lookup_session_user_def)
  show "load_authorized_identities_from_paths (ce_crates demo_client_env) (srv_fs demo_key_server)
      (configured_authorized_identity_paths demo_key_sconfig demo_user) = Ok [PublicKeyId demo_public]"
    using demo_identities_loaded
    by (simp add: demo_client_env_def demo_key_server_def demo_key_sconfig_def configured_authorized_identity_paths_def)
qed

lemma demo_key_h3_ok:
  "he_new_client demo_key_h3 () = Ok ()"
  "generate_conversation_id (he_export demo_key_h3 ()) = Ok (conversation_id demo_key_conversation)"
  "he_send_request demo_key_h3 () req = Ok 0"
  "he_recv_response demo_key_h3 () 0 = Ok \<lparr>resp_status = 200, resp_headers = Map.empty\<rparr>"
  by (simp_all add: demo_key_h3_def demo_h3_env_def generate_conversation_id_def demo_key_conversation_def)


end
